theory Spec2Isabelle
  imports Complex_Main "HOL-Library.Extended_Nat" "HOL-Library.Sublist"
begin

chapter \<open>The model\<close>

section \<open>Fixture storage: the sentinel for an unbounded quantifier bound\<close>

text \<open>
  The fixture files are JSON documents. \<^verbatim>\<open>fixturesData\<close> is filled by
  \<^verbatim>\<open>JSON.parse(text, (_, v) => (v === "$$Infinity" ? Infinity : v))\<close> and written back by
  \<^verbatim>\<open>JSON.stringify(data, (_, v) => (v === Infinity ? "$$Infinity" : v), 2)\<close>.

  Two universes are kept apart: \<open>jsvalue\<close> is what lives in memory, \<open>json\<close> is what a
  file holds. A file's text is identified with the document it denotes: white space,
  indentation and the escapes inside strings are not modelled.
\<close>

subsection \<open>Numbers\<close>

text \<open>
  A JavaScript number is a double: a finite number, the negative zero, one of the two
  infinities, or \<^verbatim>\<open>NaN\<close>. The finite doubles other than the negative zero are the type
  parameter \<open>'f\<close>; the numeric literals of JSON text are the type parameter \<open>'l\<close>.
\<close>

datatype 'f jsnumber =
    Finite 'f
  | NegativeZero
  | PositiveInfinity
  | NegativeInfinity
  | NaN

text \<open>
  How a finite number is written and how a literal is read belong to ECMAScript, not to
  \<^verbatim>\<open>ast.ts\<close>, and are parameters of the model: \<open>NumberToString\<close> is \<^verbatim>\<open>Number::toString\<close> on
  a finite number, \<open>positive_zero\<close> is the number \<^verbatim>\<open>+0\<close>, and \<open>StringToNumber\<close> is the
  number \<^verbatim>\<open>JSON.parse\<close> makes of a literal (the nearest double; an infinity when the literal
  is out of the range of the doubles; the negative zero for \<^verbatim>\<open>-0\<close>). ECMAScript
  guarantees that a finite number is read back from its own text,
  \<open>StringToNumber (NumberToString d) = Finite d\<close>; a property that relies on this says so.
\<close>

record ('f, 'l) numerals =
  NumberToString :: "'f \<Rightarrow> 'l"
  positive_zero :: 'f
  StringToNumber :: "'l \<Rightarrow> 'f jsnumber"

subsection \<open>Values and documents\<close>

text \<open>
  The values are those \<^verbatim>\<open>JSON.parse\<close> can return, with every number a JavaScript number
  can be. An object is the list of its properties in the order in which JavaScript
  enumerates them. What \<^verbatim>\<open>JSON.parse\<close> never returns and is not a number (\<^verbatim>\<open>undefined\<close>,
  functions, symbols, big integers, objects with a \<^verbatim>\<open>toJSON\<close> method, arrays with holes,
  cyclic objects) is not modelled.
\<close>

datatype 'f jsvalue =
    JNull
  | JBoolean bool
  | JNumber "'f jsnumber"
  | JString string
  | JArray "'f jsvalue list"
  | JObject "(string \<times> 'f jsvalue) list"

abbreviation JInfinity :: "'f jsvalue" where
  "JInfinity \<equiv> JNumber PositiveInfinity"

text \<open>
  A document is what the text of a file denotes. The members of an object are in the
  order of the text, and a name may occur more than once.
\<close>

datatype 'l json =
    TNull
  | TBoolean bool
  | TNumber 'l
  | TString string
  | TArray "'l json list"
  | TObject "(string \<times> 'l json) list"

subsection \<open>The order of the properties of an object\<close>

text \<open>
  JavaScript enumerates the properties of an object with the array indices first, in
  ascending order, and then the other names in the order of their creation
  (\<^verbatim>\<open>OrdinaryOwnPropertyKeys\<close>). A name is an array index when it is the decimal text of an
  integer from 0 to \<^verbatim>\<open>2^32 - 2\<close>: the name is read as a number, and the text of that
  number has to be the name again (\<^verbatim>\<open>CanonicalNumericIndexString\<close>).
\<close>

definition digit :: "char \<Rightarrow> int option" where
  "digit c = (if 48 \<le> (of_char c :: int) \<and> (of_char c :: int) \<le> 57
              then Some (of_char c - 48) else None)"

fun decimal :: "int \<Rightarrow> string \<Rightarrow> int option" where
  "decimal n [] = Some n"
| "decimal n (c # cs) = (case digit c of None \<Rightarrow> None | Some d \<Rightarrow> decimal (10 * n + d) cs)"

function digits :: "int \<Rightarrow> string" where
  "digits n = (if n < 10 then [char_of (48 + n)]
               else digits (n div 10) @ [char_of (48 + n mod 10)])"
  by pat_completeness auto
termination
  by (relation "measure nat") auto

declare digits.simps [simp del]

definition array_index :: "string \<Rightarrow> int option" where
  "array_index k =
     (case decimal 0 k of
        None \<Rightarrow> None
      | Some n \<Rightarrow> if digits n = k \<and> n < 2 ^ 32 - 1 then Some n else None)"

text \<open>
  A new property whose name is an array index takes its place among the array indices,
  before the first property that is not a smaller array index.
\<close>

fun insert_index :: "int \<Rightarrow> string \<times> 'a \<Rightarrow> (string \<times> 'a) list \<Rightarrow> (string \<times> 'a) list" where
  "insert_index i p [] = [p]"
| "insert_index i p (q # obj) =
     (case array_index (fst q) of
        Some j \<Rightarrow> if j < i then q # insert_index i p obj else p # q # obj
      | None \<Rightarrow> p # q # obj)"

text \<open>
  \<^verbatim>\<open>CreateDataProperty\<close>, by which \<^verbatim>\<open>JSON.parse\<close> gives an object its members: a property
  that exists keeps its place and takes the new value; a new array index goes among the
  array indices; any other new name goes to the end.
\<close>

definition CreateDataProperty ::
  "(string \<times> 'a) list \<Rightarrow> string \<Rightarrow> 'a \<Rightarrow> (string \<times> 'a) list" where
  "CreateDataProperty obj k v =
     (if k \<in> set (map fst obj) then map (\<lambda>(k', v'). (k', if k' = k then v else v')) obj
      else (case array_index k of
              Some i \<Rightarrow> insert_index i (k, v) obj
            | None \<Rightarrow> obj @ [(k, v)]))"

text \<open>The object that results from creating the given properties one after the other.\<close>

definition object_of :: "(string \<times> 'a) list \<Rightarrow> (string \<times> 'a) list" where
  "object_of kvs = foldl (\<lambda>obj (k, v). CreateDataProperty obj k v) [] kvs"

text \<open>
  A list of properties is that of a JavaScript object when creating its properties in
  the order of the list gives the list back; a value is a JavaScript value when every
  object in it is one. (Lemma \<open>js_object_iff\<close> below: this is the case exactly when no
  name occurs twice and the names are in order, the array indices first and
  ascending.)
\<close>

fun js_value :: "'f jsvalue \<Rightarrow> bool" where
  "js_value (JArray xs) = list_all js_value xs"
| "js_value (JObject kvs) = (object_of kvs = kvs \<and> list_all (\<lambda>(k, x). js_value x) kvs)"
| "js_value _ = True"

fun keys_in_order :: "string list \<Rightarrow> bool" where
  "keys_in_order [] = True"
| "keys_in_order [k] = True"
| "keys_in_order (k # k' # ks) =
     ((case array_index k' of
         None \<Rightarrow> True
       | Some j \<Rightarrow> (case array_index k of None \<Rightarrow> False | Some i \<Rightarrow> i < j))
      \<and> keys_in_order (k' # ks))"

subsection \<open>Writing and reading a value\<close>

text \<open>The reviver of the load loop: \<^verbatim>\<open>(_, v) => (v === "$$Infinity" ? Infinity : v)\<close>.\<close>

definition reviver :: "'f jsvalue \<Rightarrow> 'f jsvalue" where
  "reviver v = (if v = JString ''$$Infinity'' then JInfinity else v)"

text \<open>The replacer of \<^verbatim>\<open>save\<close>: \<^verbatim>\<open>(_, v) => (v === Infinity ? "$$Infinity" : v)\<close>.\<close>

definition replacer :: "'f jsvalue \<Rightarrow> 'f jsvalue" where
  "replacer v = (if v = JInfinity then JString ''$$Infinity'' else v)"

text \<open>
  How \<^verbatim>\<open>JSON.stringify\<close> writes a number: a finite number as its text, the negative zero
  as the text of zero, and a number that is not finite as \<^verbatim>\<open>null\<close>.
\<close>

definition SerializeNumber :: "('f, 'l) numerals \<Rightarrow> 'f jsnumber \<Rightarrow> 'l json" where
  "SerializeNumber nf x =
     (case x of
        Finite d \<Rightarrow> TNumber (NumberToString nf d)
      | NegativeZero \<Rightarrow> TNumber (NumberToString nf (positive_zero nf))
      | PositiveInfinity \<Rightarrow> TNull
      | NegativeInfinity \<Rightarrow> TNull
      | NaN \<Rightarrow> TNull)"

text \<open>
  \<^verbatim>\<open>JSON.stringify\<close> with the replacer above: the replacer is called on every value,
  the root included, before that value is serialised, and the properties and elements
  of what it returns are serialised in turn, the properties in the order of
  enumeration.
\<close>

function JSON_stringify :: "('f, 'l) numerals \<Rightarrow> 'f jsvalue \<Rightarrow> 'l json" where
  "JSON_stringify nf v =
     (case replacer v of
        JNull \<Rightarrow> TNull
      | JBoolean b \<Rightarrow> TBoolean b
      | JNumber x \<Rightarrow> SerializeNumber nf x
      | JString s \<Rightarrow> TString s
      | JArray xs \<Rightarrow> TArray (map (JSON_stringify nf) xs)
      | JObject kvs \<Rightarrow> TObject (map (\<lambda>(k, x). (k, JSON_stringify nf x)) kvs))"
  by pat_completeness auto
termination
  by (relation "measure (\<lambda>(nf, v). size v)")
     (auto simp: replacer_def less_Suc_eq_le split: if_splits intro!: size_list_estimation')

declare JSON_stringify.simps [simp del]

text \<open>
  \<^verbatim>\<open>JSON.parse\<close> with the reviver above: a number is what the literal reads as; the
  members of an object are created in the order of the text, so that of two members of
  one name the later value stays, and the array indices come first; the properties and
  elements of a value are revived first, then the reviver is called on the value itself,
  the root included.
\<close>

fun JSON_parse :: "('f, 'l) numerals \<Rightarrow> 'l json \<Rightarrow> 'f jsvalue" where
  "JSON_parse nf TNull = reviver JNull"
| "JSON_parse nf (TBoolean b) = reviver (JBoolean b)"
| "JSON_parse nf (TNumber l) = reviver (JNumber (StringToNumber nf l))"
| "JSON_parse nf (TString s) = reviver (JString s)"
| "JSON_parse nf (TArray ts) = reviver (JArray (map (JSON_parse nf) ts))"
| "JSON_parse nf (TObject kts) =
     reviver (JObject (object_of (map (\<lambda>(k, t). (k, JSON_parse nf t)) kts)))"

subsection \<open>The fixture directory\<close>

text \<open>
  The files of the directory \<^verbatim>\<open>fixturesRoot\<close>, by name. What a file holds is the document
  its text denotes, or nothing when its text is not JSON.
\<close>

type_synonym 'l directory = "string \<rightharpoonup> 'l json option"

text \<open>
  \<^verbatim>\<open>save\<close>: for every key of \<^verbatim>\<open>fixturesData\<close>, in the order of \<^verbatim>\<open>Object.keys\<close>, the file of
  that name is written, or written over; no other file is touched.
\<close>

definition save ::
  "('f, 'l) numerals \<Rightarrow> (string \<times> 'f jsvalue) list \<Rightarrow> 'l directory \<Rightarrow> 'l directory" where
  "save nf fixturesData dir =
     foldl (\<lambda>d (filename, v). d(filename \<mapsto> Some (JSON_stringify nf v))) dir fixturesData"

text \<open>
  The assignment \<^verbatim>\<open>fixturesData[filename] = ...\<close> of the load loop. It creates the
  property, except under the name \<^verbatim>\<open>__proto__\<close>, where an assignment sets the prototype
  of the object and creates no property.
\<close>

definition assign :: "(string \<times> 'a) list \<Rightarrow> string \<Rightarrow> 'a \<Rightarrow> (string \<times> 'a) list" where
  "assign obj k v = (if k = ''__proto__'' then obj else CreateDataProperty obj k v)"

text \<open>
  The load loop, \<^verbatim>\<open>for (const filename of fs.readdirSync(fixturesRoot))\<close>: given the
  directory and the names \<^verbatim>\<open>readdirSync\<close> lists, in the order in which it lists them, every
  file is read and parsed into \<^verbatim>\<open>fixturesData\<close>, which starts empty. Reading a name
  that is no file of the directory throws, and so does parsing a text that is not JSON;
  then nothing is loaded.
\<close>

fun load ::
  "('f, 'l) numerals \<Rightarrow> 'l directory \<Rightarrow> string list \<Rightarrow> (string \<times> 'f jsvalue) list
     \<Rightarrow> (string \<times> 'f jsvalue) list option" where
  "load nf dir [] fixturesData = Some fixturesData"
| "load nf dir (filename # rest) fixturesData =
     (case dir filename of
        None \<Rightarrow> None
      | Some None \<Rightarrow> None
      | Some (Some t) \<Rightarrow> load nf dir rest (assign fixturesData filename (JSON_parse nf t)))"

subsection \<open>What a file cannot give back\<close>

text \<open>A value holds the sentinel when some string value in it, at any depth, is
  \<^verbatim>\<open>"$$Infinity"\<close>. Property names are not values.\<close>

fun has_sentinel :: "'f jsvalue \<Rightarrow> bool" where
  "has_sentinel (JString s) = (s = ''$$Infinity'')"
| "has_sentinel (JArray xs) = list_ex has_sentinel xs"
| "has_sentinel (JObject kvs) = list_ex (\<lambda>(k, x). has_sentinel x) kvs"
| "has_sentinel _ = False"

text \<open>
  The numbers JSON text has no literal for and the replacer does not encode: \<^verbatim>\<open>NaN\<close> and
  \<^verbatim>\<open>-Infinity\<close>, written \<^verbatim>\<open>null\<close>, and the negative zero, written \<^verbatim>\<open>0\<close>.
\<close>

fun unwritable :: "'f jsnumber \<Rightarrow> bool" where
  "unwritable NaN = True"
| "unwritable NegativeInfinity = True"
| "unwritable NegativeZero = True"
| "unwritable _ = False"

fun has_unwritable :: "'f jsvalue \<Rightarrow> bool" where
  "has_unwritable (JNumber x) = unwritable x"
| "has_unwritable (JArray xs) = list_ex has_unwritable xs"
| "has_unwritable (JObject kvs) = list_ex (\<lambda>(k, x). has_unwritable x) kvs"
| "has_unwritable _ = False"

section \<open>The node types of \<^verbatim>\<open>ast.ts\<close>\<close>

text \<open>
  \<^verbatim>\<open>ast.ts\<close> declares the nodes of the tree as interfaces. A node holds references
  to other nodes: down to the children it owns, up to its \<^verbatim>\<open>parent\<close>, and across from a
  \<^verbatim>\<open>Backreference\<close> to the group it is \<^verbatim>\<open>resolved\<close> to and back through the group's
  \<^verbatim>\<open>references\<close>. The object graph is therefore kept in a store: a list of nodes, each
  under its address, and a reference is an address. An address is a list of numbers;
  the declarations only ever compare addresses.

  \<open>shape\<close> has one constructor for every interface that declares fields of its own,
  with the fields in the order of the declaration. The interfaces that differ only in
  a boolean discriminant share the constructor of their base interface
  (\<^verbatim>\<open>BaseAlternative\<close>, \<^verbatim>\<open>BaseCharacterClass\<close>, \<^verbatim>\<open>BaseUnicodePropertyCharacterSet\<close>) and are told
  apart by that field, as in the source. \<^verbatim>\<open>min\<close> of a \<^verbatim>\<open>Quantifier\<close> is a natural number
  (it is read from digits), \<^verbatim>\<open>max\<close> an extended natural number since it can be
  \<^verbatim>\<open>Number.POSITIVE_INFINITY\<close>; the \<^verbatim>\<open>value\<close> of a \<^verbatim>\<open>Character\<close> is a code point.
  \<^verbatim>\<open>resolved\<close> is optional in the store, so that a reference that has not been bound
  can be written down and be found wanting.

  The fields of \<^verbatim>\<open>NodeBase\<close> are the record \<open>node\<close>; its \<^verbatim>\<open>type\<close> is the constructor of
  the \<open>shape\<close>, and \<open>end'\<close> is the field \<^verbatim>\<open>end\<close>.
\<close>

type_synonym addr = "nat list"

datatype edge_kind = Start | End
datatype escape_kind = Digit | Space | Word

datatype shape =
    RegExpLiteral addr addr
      \<comment> \<open>\<^verbatim>\<open>pattern\<close>, \<^verbatim>\<open>flags\<close>\<close>
  | Pattern "addr list"
      \<comment> \<open>\<^verbatim>\<open>alternatives\<close>\<close>
  | BaseAlternative bool "addr list"
      \<comment> \<open>\<^verbatim>\<open>string\<close>, \<^verbatim>\<open>elements\<close>\<close>
  | Group "addr list"
      \<comment> \<open>\<^verbatim>\<open>alternatives\<close>\<close>
  | CapturingGroup "string option" "addr list" "addr list"
      \<comment> \<open>\<^verbatim>\<open>name\<close>, \<^verbatim>\<open>alternatives\<close>, \<^verbatim>\<open>references\<close>\<close>
  | LookaheadAssertion bool "addr list"
      \<comment> \<open>\<^verbatim>\<open>negate\<close>, \<^verbatim>\<open>alternatives\<close>\<close>
  | LookbehindAssertion bool "addr list"
      \<comment> \<open>\<^verbatim>\<open>negate\<close>, \<^verbatim>\<open>alternatives\<close>\<close>
  | Quantifier nat enat bool addr
      \<comment> \<open>\<^verbatim>\<open>min\<close>, \<^verbatim>\<open>max\<close>, \<^verbatim>\<open>greedy\<close>, \<^verbatim>\<open>element\<close>\<close>
  | BaseCharacterClass bool bool "addr list"
      \<comment> \<open>\<^verbatim>\<open>unicodeSets\<close>, \<^verbatim>\<open>negate\<close>, \<^verbatim>\<open>elements\<close>\<close>
  | CharacterClassRange addr addr
      \<comment> \<open>\<^verbatim>\<open>min\<close>, \<^verbatim>\<open>max\<close>\<close>
  | EdgeAssertion edge_kind
      \<comment> \<open>\<^verbatim>\<open>kind\<close>\<close>
  | WordBoundaryAssertion bool
      \<comment> \<open>\<^verbatim>\<open>negate\<close>\<close>
  | AnyCharacterSet
  | EscapeCharacterSet escape_kind bool
      \<comment> \<open>\<^verbatim>\<open>kind\<close>, \<^verbatim>\<open>negate\<close>\<close>
  | BaseUnicodePropertyCharacterSet bool string "string option" bool
      \<comment> \<open>\<^verbatim>\<open>strings\<close>, \<^verbatim>\<open>key\<close>, \<^verbatim>\<open>value\<close>, \<^verbatim>\<open>negate\<close>\<close>
  | ExpressionCharacterClass bool addr
      \<comment> \<open>\<^verbatim>\<open>negate\<close>, \<^verbatim>\<open>expression\<close>\<close>
  | ClassIntersection addr addr
      \<comment> \<open>\<^verbatim>\<open>left\<close>, \<^verbatim>\<open>right\<close>\<close>
  | ClassSubtraction addr addr
      \<comment> \<open>\<^verbatim>\<open>left\<close>, \<^verbatim>\<open>right\<close>\<close>
  | ClassStringDisjunction "addr list"
      \<comment> \<open>\<^verbatim>\<open>alternatives\<close>\<close>
  | Character nat
      \<comment> \<open>\<^verbatim>\<open>value\<close>\<close>
  | Backreference "nat + string" "addr option"
      \<comment> \<open>\<^verbatim>\<open>ref\<close>, \<^verbatim>\<open>resolved\<close>\<close>
  | Flags bool bool bool bool bool bool bool bool
      \<comment> \<open>\<^verbatim>\<open>dotAll\<close>, \<^verbatim>\<open>global\<close>, \<^verbatim>\<open>hasIndices\<close>, \<^verbatim>\<open>ignoreCase\<close>, \<^verbatim>\<open>multiline\<close>,
         \<^verbatim>\<open>sticky\<close>, \<^verbatim>\<open>unicode\<close>, \<^verbatim>\<open>unicodeSets\<close>\<close>

record node =
  parent :: "addr option"
  start :: nat
  end' :: nat
  raw :: string
  shape :: shape

type_synonym store = "(addr \<times> node) list"

subsection \<open>The declared types, as sets of shapes\<close>

text \<open>
  Each type of \<^verbatim>\<open>ast.ts\<close> is the set of the shapes that carry its discriminants
  (\<^verbatim>\<open>type\<close>, \<^verbatim>\<open>kind\<close>, \<^verbatim>\<open>string\<close>, \<^verbatim>\<open>unicodeSets\<close>, \<^verbatim>\<open>strings\<close>); a union type is the union
  of its members, written as in the source.
\<close>

definition is_RegExpLiteral :: "shape \<Rightarrow> bool" where
  "is_RegExpLiteral s = (case s of RegExpLiteral _ _ \<Rightarrow> True | _ \<Rightarrow> False)"

definition is_Pattern :: "shape \<Rightarrow> bool" where
  "is_Pattern s = (case s of Pattern _ \<Rightarrow> True | _ \<Rightarrow> False)"

definition is_Alternative :: "shape \<Rightarrow> bool" where
  "is_Alternative s = (case s of BaseAlternative _ _ \<Rightarrow> True | _ \<Rightarrow> False)"

definition is_DisjunctionAlternative :: "shape \<Rightarrow> bool" where
  "is_DisjunctionAlternative s = (case s of BaseAlternative string _ \<Rightarrow> \<not> string | _ \<Rightarrow> False)"

definition is_StringAlternative :: "shape \<Rightarrow> bool" where
  "is_StringAlternative s = (case s of BaseAlternative string _ \<Rightarrow> string | _ \<Rightarrow> False)"

definition is_Group :: "shape \<Rightarrow> bool" where
  "is_Group s = (case s of Group _ \<Rightarrow> True | _ \<Rightarrow> False)"

definition is_CapturingGroup :: "shape \<Rightarrow> bool" where
  "is_CapturingGroup s = (case s of CapturingGroup _ _ _ \<Rightarrow> True | _ \<Rightarrow> False)"

definition is_LookaheadAssertion :: "shape \<Rightarrow> bool" where
  "is_LookaheadAssertion s = (case s of LookaheadAssertion _ _ \<Rightarrow> True | _ \<Rightarrow> False)"

definition is_LookbehindAssertion :: "shape \<Rightarrow> bool" where
  "is_LookbehindAssertion s = (case s of LookbehindAssertion _ _ \<Rightarrow> True | _ \<Rightarrow> False)"

definition is_LookaroundAssertion :: "shape \<Rightarrow> bool" where
  "is_LookaroundAssertion s = (is_LookaheadAssertion s \<or> is_LookbehindAssertion s)"

definition is_Quantifier :: "shape \<Rightarrow> bool" where
  "is_Quantifier s = (case s of Quantifier _ _ _ _ \<Rightarrow> True | _ \<Rightarrow> False)"

definition is_CharacterClass :: "shape \<Rightarrow> bool" where
  "is_CharacterClass s = (case s of BaseCharacterClass _ _ _ \<Rightarrow> True | _ \<Rightarrow> False)"

definition is_ClassRangesCharacterClass :: "shape \<Rightarrow> bool" where
  "is_ClassRangesCharacterClass s =
     (case s of BaseCharacterClass uSets _ _ \<Rightarrow> \<not> uSets | _ \<Rightarrow> False)"

definition is_UnicodeSetsCharacterClass :: "shape \<Rightarrow> bool" where
  "is_UnicodeSetsCharacterClass s =
     (case s of BaseCharacterClass uSets _ _ \<Rightarrow> uSets | _ \<Rightarrow> False)"

definition is_CharacterClassRange :: "shape \<Rightarrow> bool" where
  "is_CharacterClassRange s = (case s of CharacterClassRange _ _ \<Rightarrow> True | _ \<Rightarrow> False)"

definition is_EdgeAssertion :: "shape \<Rightarrow> bool" where
  "is_EdgeAssertion s = (case s of EdgeAssertion _ \<Rightarrow> True | _ \<Rightarrow> False)"

definition is_WordBoundaryAssertion :: "shape \<Rightarrow> bool" where
  "is_WordBoundaryAssertion s = (case s of WordBoundaryAssertion _ \<Rightarrow> True | _ \<Rightarrow> False)"

definition is_BoundaryAssertion :: "shape \<Rightarrow> bool" where
  "is_BoundaryAssertion s = (is_EdgeAssertion s \<or> is_WordBoundaryAssertion s)"

definition is_Assertion :: "shape \<Rightarrow> bool" where
  "is_Assertion s = (is_BoundaryAssertion s \<or> is_LookaroundAssertion s)"

definition is_AnyCharacterSet :: "shape \<Rightarrow> bool" where
  "is_AnyCharacterSet s = (case s of AnyCharacterSet \<Rightarrow> True | _ \<Rightarrow> False)"

definition is_EscapeCharacterSet :: "shape \<Rightarrow> bool" where
  "is_EscapeCharacterSet s = (case s of EscapeCharacterSet _ _ \<Rightarrow> True | _ \<Rightarrow> False)"

definition is_UnicodePropertyCharacterSet :: "shape \<Rightarrow> bool" where
  "is_UnicodePropertyCharacterSet s =
     (case s of BaseUnicodePropertyCharacterSet _ _ _ _ \<Rightarrow> True | _ \<Rightarrow> False)"

definition is_StringsUnicodePropertyCharacterSet :: "shape \<Rightarrow> bool" where
  "is_StringsUnicodePropertyCharacterSet s =
     (case s of BaseUnicodePropertyCharacterSet strings _ _ _ \<Rightarrow> strings | _ \<Rightarrow> False)"

definition is_CharacterSet :: "shape \<Rightarrow> bool" where
  "is_CharacterSet s =
     (is_AnyCharacterSet s \<or> is_EscapeCharacterSet s \<or> is_UnicodePropertyCharacterSet s)"

definition is_ExpressionCharacterClass :: "shape \<Rightarrow> bool" where
  "is_ExpressionCharacterClass s = (case s of ExpressionCharacterClass _ _ \<Rightarrow> True | _ \<Rightarrow> False)"

definition is_ClassIntersection :: "shape \<Rightarrow> bool" where
  "is_ClassIntersection s = (case s of ClassIntersection _ _ \<Rightarrow> True | _ \<Rightarrow> False)"

definition is_ClassSubtraction :: "shape \<Rightarrow> bool" where
  "is_ClassSubtraction s = (case s of ClassSubtraction _ _ \<Rightarrow> True | _ \<Rightarrow> False)"

definition is_ClassStringDisjunction :: "shape \<Rightarrow> bool" where
  "is_ClassStringDisjunction s = (case s of ClassStringDisjunction _ \<Rightarrow> True | _ \<Rightarrow> False)"

definition is_Character :: "shape \<Rightarrow> bool" where
  "is_Character s = (case s of Character _ \<Rightarrow> True | _ \<Rightarrow> False)"

definition is_Backreference :: "shape \<Rightarrow> bool" where
  "is_Backreference s = (case s of Backreference _ _ \<Rightarrow> True | _ \<Rightarrow> False)"

definition is_Flags :: "shape \<Rightarrow> bool" where
  "is_Flags s = (case s of Flags _ _ _ _ _ _ _ _ \<Rightarrow> True | _ \<Rightarrow> False)"

definition is_QuantifiableElement :: "shape \<Rightarrow> bool" where
  "is_QuantifiableElement s =
     (is_Backreference s \<or> is_CapturingGroup s \<or> is_Character s \<or> is_CharacterClass s
      \<or> is_CharacterSet s \<or> is_ExpressionCharacterClass s \<or> is_Group s
      \<or> is_LookaheadAssertion s)"

definition is_Element :: "shape \<Rightarrow> bool" where
  "is_Element s = (is_Assertion s \<or> is_QuantifiableElement s \<or> is_Quantifier s)"

definition is_ClassRangesCharacterClassElement :: "shape \<Rightarrow> bool" where
  "is_ClassRangesCharacterClassElement s =
     (is_Character s \<or> is_CharacterClassRange s \<or> is_EscapeCharacterSet s
      \<or> is_UnicodePropertyCharacterSet s)"

definition is_UnicodeSetsCharacterClassElement :: "shape \<Rightarrow> bool" where
  "is_UnicodeSetsCharacterClassElement s =
     (is_Character s \<or> is_CharacterClassRange s \<or> is_ClassStringDisjunction s
      \<or> is_EscapeCharacterSet s \<or> is_ExpressionCharacterClass s
      \<or> is_UnicodePropertyCharacterSet s \<or> is_UnicodeSetsCharacterClass s)"

definition is_ClassSetOperand :: "shape \<Rightarrow> bool" where
  "is_ClassSetOperand s =
     (is_Character s \<or> is_ClassStringDisjunction s \<or> is_EscapeCharacterSet s
      \<or> is_ExpressionCharacterClass s \<or> is_UnicodePropertyCharacterSet s
      \<or> is_UnicodeSetsCharacterClass s)"

subsection \<open>Conformance to the declarations\<close>

text \<open>
  A node conforms when every field has the type its interface declares: the \<^verbatim>\<open>parent\<close>
  is a node of one of the declared parent types (or \<^verbatim>\<open>null\<close> where the declaration
  allows it), every child slot holds nodes of the declared type, and a
  \<^verbatim>\<open>StringsUnicodePropertyCharacterSet\<close> has \<^verbatim>\<open>value: null\<close> and \<^verbatim>\<open>negate: false\<close>.
  \<open>structure_ok\<close> covers the parent and the owned children, \<open>links_ok\<close> the two
  cross links \<^verbatim>\<open>resolved: CapturingGroup\<close> and \<^verbatim>\<open>references: Backreference[]\<close>.
\<close>

definition node_at :: "store \<Rightarrow> (shape \<Rightarrow> bool) \<Rightarrow> addr \<Rightarrow> bool" where
  "node_at st T a = (case map_of st a of None \<Rightarrow> False | Some n \<Rightarrow> T (shape n))"

definition parent_is :: "store \<Rightarrow> (shape \<Rightarrow> bool) \<Rightarrow> node \<Rightarrow> bool" where
  "parent_is st T n = (case parent n of None \<Rightarrow> False | Some p \<Rightarrow> node_at st T p)"

definition parent_null_or :: "store \<Rightarrow> (shape \<Rightarrow> bool) \<Rightarrow> node \<Rightarrow> bool" where
  "parent_null_or st T n = (case parent n of None \<Rightarrow> True | Some p \<Rightarrow> node_at st T p)"

definition structure_ok :: "store \<Rightarrow> node \<Rightarrow> bool" where
  "structure_ok st n =
     (case shape n of
        RegExpLiteral pattern flags \<Rightarrow>
          parent n = None \<and> node_at st is_Pattern pattern \<and> node_at st is_Flags flags
      | Pattern alternatives \<Rightarrow>
          parent_null_or st is_RegExpLiteral n
          \<and> list_all (node_at st is_DisjunctionAlternative) alternatives
      | BaseAlternative string elements \<Rightarrow>
          (if string
           then parent_is st is_ClassStringDisjunction n
                \<and> list_all (node_at st is_Character) elements
           else parent_is st (\<lambda>p. is_CapturingGroup p \<or> is_Group p
                                  \<or> is_LookaroundAssertion p \<or> is_Pattern p) n
                \<and> list_all (node_at st is_Element) elements)
      | Group alternatives \<Rightarrow>
          parent_is st (\<lambda>p. is_DisjunctionAlternative p \<or> is_Quantifier p) n
          \<and> list_all (node_at st is_DisjunctionAlternative) alternatives
      | CapturingGroup name alternatives references \<Rightarrow>
          parent_is st (\<lambda>p. is_DisjunctionAlternative p \<or> is_Quantifier p) n
          \<and> list_all (node_at st is_DisjunctionAlternative) alternatives
      | LookaheadAssertion negate alternatives \<Rightarrow>
          parent_is st (\<lambda>p. is_DisjunctionAlternative p \<or> is_Quantifier p) n
          \<and> list_all (node_at st is_DisjunctionAlternative) alternatives
      | LookbehindAssertion negate alternatives \<Rightarrow>
          parent_is st is_DisjunctionAlternative n
          \<and> list_all (node_at st is_DisjunctionAlternative) alternatives
      | Quantifier mn mx greedy element \<Rightarrow>
          parent_is st is_DisjunctionAlternative n
          \<and> node_at st is_QuantifiableElement element
      | BaseCharacterClass uSets negate elements \<Rightarrow>
          (if uSets
           then parent_is st (\<lambda>p. is_DisjunctionAlternative p \<or> is_ExpressionCharacterClass p
                                  \<or> is_Quantifier p \<or> is_UnicodeSetsCharacterClass p) n
                \<and> list_all (node_at st is_UnicodeSetsCharacterClassElement) elements
           else parent_is st (\<lambda>p. is_DisjunctionAlternative p \<or> is_Quantifier p) n
                \<and> list_all (node_at st is_ClassRangesCharacterClassElement) elements)
      | CharacterClassRange mn mx \<Rightarrow>
          parent_is st is_CharacterClass n
          \<and> node_at st is_Character mn \<and> node_at st is_Character mx
      | EdgeAssertion kind \<Rightarrow>
          parent_is st (\<lambda>p. is_DisjunctionAlternative p \<or> is_Quantifier p) n
      | WordBoundaryAssertion negate \<Rightarrow>
          parent_is st (\<lambda>p. is_DisjunctionAlternative p \<or> is_Quantifier p) n
      | AnyCharacterSet \<Rightarrow>
          parent_is st (\<lambda>p. is_DisjunctionAlternative p \<or> is_Quantifier p) n
      | EscapeCharacterSet kind negate \<Rightarrow>
          parent_is st (\<lambda>p. is_CharacterClass p \<or> is_ClassIntersection p
                                \<or> is_ClassSubtraction p \<or> is_DisjunctionAlternative p
                                \<or> is_Quantifier p) n
      | BaseUnicodePropertyCharacterSet strings key val negate \<Rightarrow>
          parent_is st (\<lambda>p. is_CharacterClass p \<or> is_ClassIntersection p
                                \<or> is_ClassSubtraction p \<or> is_DisjunctionAlternative p
                                \<or> is_Quantifier p) n
          \<and> (if strings then val = None \<and> negate = False else True)
      | ExpressionCharacterClass negate expression \<Rightarrow>
          parent_is st (\<lambda>p. is_DisjunctionAlternative p \<or> is_ExpressionCharacterClass p
                                \<or> is_Quantifier p \<or> is_UnicodeSetsCharacterClass p) n
          \<and> node_at st (\<lambda>e. is_ClassIntersection e \<or> is_ClassSubtraction e) expression
      | ClassIntersection left right \<Rightarrow>
          parent_is st (\<lambda>p. is_ClassIntersection p \<or> is_ExpressionCharacterClass p) n
          \<and> node_at st (\<lambda>l. is_ClassIntersection l \<or> is_ClassSetOperand l) left
          \<and> node_at st is_ClassSetOperand right
      | ClassSubtraction left right \<Rightarrow>
          parent_is st (\<lambda>p. is_ClassSubtraction p \<or> is_ExpressionCharacterClass p) n
          \<and> node_at st (\<lambda>l. is_ClassSetOperand l \<or> is_ClassSubtraction l) left
          \<and> node_at st is_ClassSetOperand right
      | ClassStringDisjunction alternatives \<Rightarrow>
          parent_is st (\<lambda>p. is_ClassIntersection p \<or> is_ClassSubtraction p
                                \<or> is_UnicodeSetsCharacterClass p) n
          \<and> list_all (node_at st is_StringAlternative) alternatives
      | Character v \<Rightarrow>
          parent_is st (\<lambda>p. is_Alternative p \<or> is_CharacterClass p
                                \<or> is_CharacterClassRange p \<or> is_ClassIntersection p
                                \<or> is_ClassSubtraction p \<or> is_Quantifier p) n
      | Backreference ref resolved \<Rightarrow>
          parent_is st (\<lambda>p. is_DisjunctionAlternative p \<or> is_Quantifier p) n
      | Flags dotAll global hasIndices ignoreCase multiline sticky unicode uSets \<Rightarrow>
          parent_null_or st is_RegExpLiteral n)"

definition links_ok :: "store \<Rightarrow> node \<Rightarrow> bool" where
  "links_ok st n =
     (case shape n of
        CapturingGroup name alternatives references \<Rightarrow>
          list_all (node_at st is_Backreference) references
      | Backreference ref resolved \<Rightarrow>
          (case resolved of None \<Rightarrow> False | Some g \<Rightarrow> node_at st is_CapturingGroup g)
      | _ \<Rightarrow> True)"

definition conforms :: "store \<Rightarrow> node \<Rightarrow> bool" where
  "conforms st n = (structure_ok st n \<and> links_ok st n)"

definition well_typed :: "store \<Rightarrow> bool" where
  "well_typed st = list_all (\<lambda>(a, n). conforms st n) st"

text \<open>The ancestors of a node: the nodes reached by following \<^verbatim>\<open>parent\<close>.\<close>

inductive descends :: "store \<Rightarrow> addr \<Rightarrow> addr \<Rightarrow> bool" for st :: store where
  here: "descends st a a"
| up: "map_of st a = Some n \<Longrightarrow> parent n = Some p \<Longrightarrow> descends st p b \<Longrightarrow> descends st a b"

section \<open>Building a tree\<close>

text \<open>
  \<^verbatim>\<open>ast.ts\<close> declares the tree; the code that builds one (the parser, the check of the
  dialect, the binding of backreferences) is not among the source files. What
  follows models that code from the specification, sections 4.1 to 4.4 and 7: a
  builder that is handed the constructs the parser has recognised, allocates the nodes
  and wires their parents, consults the mode gate and the shape lattice at every node,
  and then resolves the backreferences in a second pass.
\<close>

subsection \<open>What the builder is given\<close>

text \<open>
  Modelled from the spec: the source span of a construct with its raw text (section 3:
  \<^verbatim>\<open>start\<close>, \<^verbatim>\<open>end\<close>, \<^verbatim>\<open>raw\<close>).
\<close>

type_synonym src = "nat \<times> nat \<times> string"

text \<open>
  Modelled from the spec: the input of the tree builder, which the specification gives
  as ``a stream of lexical tokens with source spans'' already grouped into constructs
  (the textual grammar is out of its scope). A construct carries its \<open>src\<close>, then the
  fields of the node to be built, in the order of the interface, with the constructs
  of its children where the node has the nodes. It has no parent and no cross link
  yet. A character class comes with the \<^verbatim>\<open>unicodeSets\<close> kind it was read as.
\<close>

datatype parsed =
    P_Pattern src "parsed list"
  | P_Alternative src "parsed list"
  | P_StringAlternative src "parsed list"
  | P_Group src "parsed list"
  | P_CapturingGroup src "string option" "parsed list"
  | P_LookaheadAssertion src bool "parsed list"
  | P_LookbehindAssertion src bool "parsed list"
  | P_Quantifier src nat enat bool parsed
  | P_CharacterClass src bool bool "parsed list"
  | P_CharacterClassRange src parsed parsed
  | P_EdgeAssertion src edge_kind
  | P_WordBoundaryAssertion src bool
  | P_AnyCharacterSet src
  | P_EscapeCharacterSet src escape_kind bool
  | P_UnicodePropertyCharacterSet src bool string "string option" bool
  | P_ExpressionCharacterClass src bool parsed
  | P_ClassIntersection src parsed parsed
  | P_ClassSubtraction src parsed parsed
  | P_ClassStringDisjunction src "parsed list"
  | P_Character src nat
  | P_Backreference src "nat + string"

text \<open>
  Modelled from the spec: a whole literal as the builder receives it, namely its span,
  the construct of its pattern, the span of its flags and the eight flags in the order
  of the interface \<^verbatim>\<open>Flags\<close>.
\<close>

datatype literal = Literal src parsed src bool bool bool bool bool bool bool bool

text \<open>
  Modelled from the spec: the error taxonomy of section 7, each error with the source
  span (start, end) of the offending node.
\<close>

datatype error =
    UnsupportedConstruct "nat \<times> nat"
  | UnresolvedReference "nat \<times> nat"
  | MalformedRange "nat \<times> nat"

text \<open>
  Modelled from the spec: the configuration the mode gate is given,
  \<^verbatim>\<open>(ecmaVersion, strict, unicodeSets)\<close>, together with the rule that decides between
  groups of one name, which section 4.4 leaves to the dialect (``a dialect-specific
  policy parameter''): \<open>scoping m r g h\<close> holds when, for the reference at address \<open>r\<close>,
  the rule takes the group at \<open>h\<close> rather than the group at \<open>g\<close>. The rule only ever
  decides between groups of the name, so whatever the rule is, the group a reference is
  bound to is one of them.
\<close>

record mode =
  ecmaVersion :: nat
  strict :: bool
  unicodeSets :: bool
  scoping :: "addr \<Rightarrow> addr \<Rightarrow> addr \<Rightarrow> bool"

subsection \<open>Allocating the nodes and wiring the parents\<close>

text \<open>Modelled from the spec: the source span and raw text of a construct.\<close>

fun src_of :: "parsed \<Rightarrow> src" where
  "src_of (P_Pattern s _) = s"
| "src_of (P_Alternative s _) = s"
| "src_of (P_StringAlternative s _) = s"
| "src_of (P_Group s _) = s"
| "src_of (P_CapturingGroup s _ _) = s"
| "src_of (P_LookaheadAssertion s _ _) = s"
| "src_of (P_LookbehindAssertion s _ _) = s"
| "src_of (P_Quantifier s _ _ _ _) = s"
| "src_of (P_CharacterClass s _ _ _) = s"
| "src_of (P_CharacterClassRange s _ _) = s"
| "src_of (P_EdgeAssertion s _) = s"
| "src_of (P_WordBoundaryAssertion s _) = s"
| "src_of (P_AnyCharacterSet s) = s"
| "src_of (P_EscapeCharacterSet s _ _) = s"
| "src_of (P_UnicodePropertyCharacterSet s _ _ _ _) = s"
| "src_of (P_ExpressionCharacterClass s _ _) = s"
| "src_of (P_ClassIntersection s _ _) = s"
| "src_of (P_ClassSubtraction s _ _) = s"
| "src_of (P_ClassStringDisjunction s _) = s"
| "src_of (P_Character s _) = s"
| "src_of (P_Backreference s _) = s"

text \<open>Modelled from the spec: the constructs a construct owns, in source order.\<close>

fun children :: "parsed \<Rightarrow> parsed list" where
  "children (P_Pattern _ alternatives) = alternatives"
| "children (P_Alternative _ elements) = elements"
| "children (P_StringAlternative _ elements) = elements"
| "children (P_Group _ alternatives) = alternatives"
| "children (P_CapturingGroup _ _ alternatives) = alternatives"
| "children (P_LookaheadAssertion _ _ alternatives) = alternatives"
| "children (P_LookbehindAssertion _ _ alternatives) = alternatives"
| "children (P_Quantifier _ _ _ _ element) = [element]"
| "children (P_CharacterClass _ _ _ elements) = elements"
| "children (P_CharacterClassRange _ mn mx) = [mn, mx]"
| "children (P_ExpressionCharacterClass _ _ expression) = [expression]"
| "children (P_ClassIntersection _ left right) = [left, right]"
| "children (P_ClassSubtraction _ left right) = [left, right]"
| "children (P_ClassStringDisjunction _ alternatives) = alternatives"
| "children _ = []"

text \<open>
  Modelled from the spec: the addresses of the children of the node at \<open>me\<close>. The
  builder allocates the \<open>i\<close>-th child of a node at the address of the node extended
  by \<open>i\<close>, so an address is the path from the root.
\<close>

definition slots :: "addr \<Rightarrow> 'a list \<Rightarrow> addr list" where
  "slots me xs = map (\<lambda>i. me @ [i]) [0..<length xs]"

text \<open>
  Modelled from the spec: the fields of the node built for a construct, with the
  addresses of its children in its child slots. A capturing group starts with no
  references and a backreference unresolved (section 3: the two cross links are filled
  in by the resolver, not at construction).
\<close>

fun shape_of :: "addr \<Rightarrow> parsed \<Rightarrow> shape" where
  "shape_of me (P_Pattern _ alternatives) = Pattern (slots me alternatives)"
| "shape_of me (P_Alternative _ elements) = BaseAlternative False (slots me elements)"
| "shape_of me (P_StringAlternative _ elements) = BaseAlternative True (slots me elements)"
| "shape_of me (P_Group _ alternatives) = Group (slots me alternatives)"
| "shape_of me (P_CapturingGroup _ name alternatives) =
     CapturingGroup name (slots me alternatives) []"
| "shape_of me (P_LookaheadAssertion _ negate alternatives) =
     LookaheadAssertion negate (slots me alternatives)"
| "shape_of me (P_LookbehindAssertion _ negate alternatives) =
     LookbehindAssertion negate (slots me alternatives)"
| "shape_of me (P_Quantifier _ mn mx greedy element) = Quantifier mn mx greedy (me @ [0])"
| "shape_of me (P_CharacterClass _ uSets negate elements) =
     BaseCharacterClass uSets negate (slots me elements)"
| "shape_of me (P_CharacterClassRange _ mn mx) = CharacterClassRange (me @ [0]) (me @ [1])"
| "shape_of me (P_EdgeAssertion _ kind) = EdgeAssertion kind"
| "shape_of me (P_WordBoundaryAssertion _ negate) = WordBoundaryAssertion negate"
| "shape_of me (P_AnyCharacterSet _) = AnyCharacterSet"
| "shape_of me (P_EscapeCharacterSet _ kind negate) = EscapeCharacterSet kind negate"
| "shape_of me (P_UnicodePropertyCharacterSet _ strings key val negate) =
     BaseUnicodePropertyCharacterSet strings key val negate"
| "shape_of me (P_ExpressionCharacterClass _ negate expression) =
     ExpressionCharacterClass negate (me @ [0])"
| "shape_of me (P_ClassIntersection _ left right) = ClassIntersection (me @ [0]) (me @ [1])"
| "shape_of me (P_ClassSubtraction _ left right) = ClassSubtraction (me @ [0]) (me @ [1])"
| "shape_of me (P_ClassStringDisjunction _ alternatives) =
     ClassStringDisjunction (slots me alternatives)"
| "shape_of me (P_Character _ v) = Character v"
| "shape_of me (P_Backreference _ ref) = Backreference ref None"

text \<open>Modelled from the spec: the node allocated for a construct, under a given parent.\<close>

definition allocate :: "addr option \<Rightarrow> addr \<Rightarrow> parsed \<Rightarrow> node" where
  "allocate par me t =
     \<lparr>parent = par, start = fst (src_of t), end' = fst (snd (src_of t)),
      raw = snd (snd (src_of t)), shape = shape_of me t\<rparr>"

text \<open>A child construct is smaller than the construct that owns it.\<close>

lemma children_smaller: "x \<in> set (children t) \<Longrightarrow> size x < size t"
  by (cases t) (auto simp: less_Suc_eq_le intro: size_list_estimation' le_SucI trans_le_add1)

text \<open>
  Modelled from the spec: the tree builder of section 4.3, ``build, then attach'':
  the node of a construct is allocated with the parent it is handed, and the nodes of
  its children are built with that node as their parent. The result lists the nodes
  in source order.
\<close>

function attach :: "addr option \<Rightarrow> addr \<Rightarrow> parsed \<Rightarrow> store" where
  "attach par me t =
     (me, allocate par me t)
       # concat (map (\<lambda>(i, x). attach (Some me) (me @ [i]) x) (List.enumerate 0 (children t)))"
  by pat_completeness auto
termination
  by (relation "measure (\<lambda>(par, me, t). size t)")
     (auto simp: in_set_enumerate_eq intro!: children_smaller nth_mem)

declare attach.simps [simp del]

text \<open>
  Modelled from the spec: the nodes of a whole literal. The root is the
  \<^verbatim>\<open>RegExpLiteral\<close>, with \<^verbatim>\<open>parent = null\<close>; it owns the pattern and the flags.
\<close>

fun construct :: "literal \<Rightarrow> store" where
  "construct (Literal s pattern fs dotAll global hasIndices ignoreCase multiline sticky unicode uSets) =
     ([], \<lparr>parent = None, start = fst s, end' = fst (snd s), raw = snd (snd s),
            shape = RegExpLiteral [0] [1]\<rparr>)
       # attach (Some []) [0] pattern
       @ [([1], \<lparr>parent = Some [], start = fst fs, end' = fst (snd fs), raw = snd (snd fs),
                  shape = Flags dotAll global hasIndices ignoreCase multiline sticky unicode uSets\<rparr>)]"

subsection \<open>The mode gate, the lattice and the ranges\<close>

text \<open>
  Modelled from the spec: the mode gate of section 4.2. The class grammar is the
  mode's: a character class must be of the kind \<^verbatim>\<open>unicodeSets\<close> selects. The
  string-bearing constructs (\<^verbatim>\<open>ClassStringDisjunction\<close>, \<^verbatim>\<open>StringAlternative\<close>, a
  \<^verbatim>\<open>UnicodePropertyCharacterSet\<close> of strings) and the class set operations
  (\<^verbatim>\<open>ExpressionCharacterClass\<close> with its \<^verbatim>\<open>ClassIntersection\<close> or \<^verbatim>\<open>ClassSubtraction\<close>) are
  legal only under \<^verbatim>\<open>unicodeSets = true\<close>. The flags \<^verbatim>\<open>unicode\<close> and \<^verbatim>\<open>unicodeSets\<close>
  exclude each other (section 3). The specification names no node shape for the
  legacy escapes that \<^verbatim>\<open>strict\<close> forbids, nor the features each \<^verbatim>\<open>ecmaVersion\<close> adds, so
  the gate does not read these two fields.
\<close>

definition gate :: "mode \<Rightarrow> shape \<Rightarrow> bool" where
  "gate m s =
     (case s of
        BaseAlternative string _ \<Rightarrow> (if string then unicodeSets m else True)
      | BaseCharacterClass uSets _ _ \<Rightarrow> uSets = unicodeSets m
      | BaseUnicodePropertyCharacterSet strings _ _ _ \<Rightarrow> (if strings then unicodeSets m else True)
      | ExpressionCharacterClass _ _ \<Rightarrow> unicodeSets m
      | ClassIntersection _ _ \<Rightarrow> unicodeSets m
      | ClassSubtraction _ _ \<Rightarrow> unicodeSets m
      | ClassStringDisjunction _ \<Rightarrow> unicodeSets m
      | Flags _ _ _ _ _ _ unicode uSets \<Rightarrow> \<not> (unicode \<and> uSets)
      | _ \<Rightarrow> True)"

text \<open>
  Modelled from the spec: the code point of the \<^verbatim>\<open>Character\<close> at an address (section
  3: the bounds of a class range are compared by \<^verbatim>\<open>min.value <= max.value\<close>).
\<close>

definition code_point :: "store \<Rightarrow> addr \<Rightarrow> nat option" where
  "code_point st a =
     (case map_of st a of
        None \<Rightarrow> None
      | Some n \<Rightarrow> (case shape n of Character v \<Rightarrow> Some v | _ \<Rightarrow> None))"

text \<open>
  Modelled from the spec: the invariant \<^verbatim>\<open>min <= max\<close> of section 4.3 on one node; the
  maximum of a quantifier may be unbounded.
\<close>

definition range_ok :: "store \<Rightarrow> shape \<Rightarrow> bool" where
  "range_ok st s =
     (case s of
        Quantifier mn mx _ _ \<Rightarrow> enat mn \<le> mx
      | CharacterClassRange mn mx \<Rightarrow>
          (case (code_point st mn, code_point st mx) of
             (Some x, Some y) \<Rightarrow> x \<le> y
           | _ \<Rightarrow> True)
      | _ \<Rightarrow> True)"

text \<open>
  Modelled from the spec: the check of one node at construction. A shape the mode
  forbids, or one outside the lattice of section 4.1 (the declared parent and child
  types, \<open>structure_ok\<close>), is an \<^verbatim>\<open>UnsupportedConstruct\<close>; a bound out of order is a
  \<^verbatim>\<open>MalformedRange\<close>; both carry the span of the node.
\<close>

definition verdict :: "mode \<Rightarrow> store \<Rightarrow> node \<Rightarrow> error option" where
  "verdict m st n =
     (if \<not> gate m (shape n) then Some (UnsupportedConstruct (start n, end' n))
      else if \<not> structure_ok st n then Some (UnsupportedConstruct (start n, end' n))
      else if \<not> range_ok st (shape n) then Some (MalformedRange (start n, end' n))
      else None)"

text \<open>
  Modelled from the spec: the builder's pass over the nodes in source order (section
  7: any failure aborts the tree); the first node that fails decides the error.
\<close>

fun first_error :: "mode \<Rightarrow> store \<Rightarrow> store \<Rightarrow> error option" where
  "first_error m st [] = None"
| "first_error m st ((a, n) # rest) =
     (case verdict m st n of Some e \<Rightarrow> Some e | None \<Rightarrow> first_error m st rest)"

subsection \<open>The backreference resolver\<close>

text \<open>
  Modelled from the spec: step (a) of section 4.4, the capturing groups of the
  finished tree in source order; the position in this list, counted from one, is the
  ordinal of the group.
\<close>

definition capturing_groups :: "store \<Rightarrow> addr list" where
  "capturing_groups st = map fst (filter (\<lambda>(a, n). is_CapturingGroup (shape n)) st)"

text \<open>Modelled from the spec: step (a) of section 4.4, a group is keyed by its name, if it has one.\<close>

definition names_group :: "string \<Rightarrow> shape \<Rightarrow> bool" where
  "names_group name s = (case s of CapturingGroup nm _ _ \<Rightarrow> nm = Some name | _ \<Rightarrow> False)"

text \<open>
  Modelled from the spec: the capturing groups of a given name, in source order.
\<close>

definition named_groups :: "store \<Rightarrow> string \<Rightarrow> addr list" where
  "named_groups st name = map fst (filter (\<lambda>(a, n). names_group name (shape n)) st)"

text \<open>
  Modelled from the spec: the choice among the groups of one name (section 4.4,
  ``resolution must pick the one reachable from the reference's position under the
  dialect's disjunction-scoping rule''). The groups are gone through in source order,
  starting from the first; the scoping rule of the mode decides at each further group
  whether that group is taken instead of the one held so far.
\<close>

definition pick :: "mode \<Rightarrow> addr \<Rightarrow> addr \<Rightarrow> addr list \<Rightarrow> addr" where
  "pick m r g gs = foldl (\<lambda>held h. if scoping m r held h then h else held) g gs"

text \<open>
  Modelled from the spec: the group a reference is bound to. A number is the ordinal
  of a group anywhere in the pattern, before or after the reference; a name is matched
  exactly, and where several groups share the name the scoping rule of the mode decides
  among them. There is no group for a number out of range or a name no group has.
\<close>

definition target :: "mode \<Rightarrow> store \<Rightarrow> addr \<Rightarrow> nat + string \<Rightarrow> addr option" where
  "target m st r ref =
     (case ref of
        Inl k \<Rightarrow>
          (if 1 \<le> k \<and> k \<le> length (capturing_groups st)
           then Some (capturing_groups st ! (k - 1)) else None)
      | Inr name \<Rightarrow>
          (case named_groups st name of
             [] \<Rightarrow> None
           | g # gs \<Rightarrow> Some (pick m r g gs)))"

text \<open>
  Modelled from the spec: the node at \<open>r\<close> is a backreference and section 4.4 binds
  it to \<open>g\<close> (to nothing, when \<open>g\<close> is \<open>None\<close>).
\<close>

definition points_to :: "mode \<Rightarrow> store \<Rightarrow> addr \<Rightarrow> node \<Rightarrow> addr option \<Rightarrow> bool" where
  "points_to m st r n g =
     (case shape n of Backreference ref _ \<Rightarrow> target m st r ref = g | _ \<Rightarrow> False)"

text \<open>
  Modelled from the spec: the references ``naming or numbering a non-existent group''
  (section 4.4), in source order.
\<close>

definition dangling :: "mode \<Rightarrow> store \<Rightarrow> store" where
  "dangling m st = filter (\<lambda>(r, n). points_to m st r n None) st"

text \<open>
  Modelled from the spec: the inverse index of a group (section 4.4, side effect):
  every backreference bound to it, in source order.
\<close>

definition referrers :: "mode \<Rightarrow> store \<Rightarrow> addr \<Rightarrow> addr list" where
  "referrers m st g = map fst (filter (\<lambda>(r, n). points_to m st r n (Some g)) st)"

text \<open>
  Modelled from the spec: step (b) of section 4.4 and its side effect. A
  backreference receives its \<^verbatim>\<open>resolved\<close> link, a capturing group its list of
  \<^verbatim>\<open>references\<close>; nothing else of a node changes.
\<close>

definition link :: "mode \<Rightarrow> store \<Rightarrow> addr \<Rightarrow> node \<Rightarrow> node" where
  "link m st a n =
     (case shape n of
        Backreference ref _ \<Rightarrow> n\<lparr>shape := Backreference ref (target m st a ref)\<rparr>
      | CapturingGroup name alternatives _ \<Rightarrow>
          n\<lparr>shape := CapturingGroup name alternatives (referrers m st a)\<rparr>
      | _ \<Rightarrow> n)"

text \<open>
  Modelled from the spec: the resolver pass. A reference that matches no group fails
  the build with \<^verbatim>\<open>UnresolvedReference\<close> at the span of that reference (the first one
  in source order); otherwise every node is linked.
\<close>

definition resolve :: "mode \<Rightarrow> store \<Rightarrow> error + store" where
  "resolve m st =
     (case dangling m st of
        (r, n) # _ \<Rightarrow> Inl (UnresolvedReference (start n, end' n))
      | [] \<Rightarrow> Inr (map (\<lambda>(a, n). (a, link m st a n)) st))"

text \<open>
  Modelled from the spec: the control flow of section 2. The tree is constructed
  and checked; only a tree that passed is handed to the resolver; any failure yields
  the error and no tree.
\<close>

definition build :: "mode \<Rightarrow> literal \<Rightarrow> error + store" where
  "build m lit =
     (let st = construct lit
      in case first_error m st st of
           Some e \<Rightarrow> Inl e
         | None \<Rightarrow> resolve m st)"

text \<open>
  A reference of the input matches no capturing group: its number is not the ordinal
  of a group of the pattern, or no group of the pattern has its name.
\<close>

definition matches_no_group :: "store \<Rightarrow> nat + string \<Rightarrow> bool" where
  "matches_no_group st ref =
     (case ref of
        Inl k \<Rightarrow> k = 0 \<or> length (capturing_groups st) < k
      | Inr name \<Rightarrow> \<not> list_ex (\<lambda>(a, n). names_group name (shape n)) st)"

text \<open>The constructs that are legal only in Unicode-sets mode.\<close>

definition sets_only :: "shape \<Rightarrow> bool" where
  "sets_only s =
     (is_ClassStringDisjunction s \<or> is_ExpressionCharacterClass s
      \<or> is_UnicodeSetsCharacterClass s \<or> is_StringAlternative s
      \<or> is_StringsUnicodePropertyCharacterSet s \<or> is_ClassIntersection s
      \<or> is_ClassSubtraction s)"

section \<open>Examples\<close>

text \<open>
  Two scoping rules, three modes, and the literals of the scenarios of the
  specification with the trees they are built into. A backslash is written \<open>CHR 0x5C\<close>.

  Under \<open>first_declared\<close> the first group of the name is kept. Under \<open>nearest\<close> a group is
  taken instead of the one held when its address shares a longer prefix with the address
  of the reference, that is, when it stands in a smaller part of the pattern around the
  reference (the same alternative of a disjunction, say).
\<close>

text \<open>
  Two readings of numbers for the examples. In the first the finite numbers and the
  literals are the integers, as the numbers of the fixtures are (offsets, code points,
  quantifier bounds); in the second they are the rationals. A literal stands for the
  number it denotes, and a number is written and read as itself.
\<close>

definition integers :: "(int, int) numerals" where
  "integers = \<lparr>NumberToString = (\<lambda>d. d), positive_zero = 0, StringToNumber = Finite\<rparr>"

definition rationals :: "(rat, rat) numerals" where
  "rationals = \<lparr>NumberToString = (\<lambda>d. d), positive_zero = 0, StringToNumber = Finite\<rparr>"

definition first_declared :: "addr \<Rightarrow> addr \<Rightarrow> addr \<Rightarrow> bool" where
  "first_declared r g h = False"

definition nearest :: "addr \<Rightarrow> addr \<Rightarrow> addr \<Rightarrow> bool" where
  "nearest r g h =
     (length (longest_common_prefix r g) < length (longest_common_prefix r h))"

definition classic :: mode where
  "classic = \<lparr>ecmaVersion = 2024, strict = False, unicodeSets = False, scoping = first_declared\<rparr>"

definition sets_mode :: mode where
  "sets_mode = \<lparr>ecmaVersion = 2024, strict = True, unicodeSets = True, scoping = first_declared\<rparr>"

definition scoped :: mode where
  "scoped = \<lparr>ecmaVersion = 2025, strict = False, unicodeSets = False, scoping = nearest\<rparr>"

text \<open>Scenario A, \<^verbatim>\<open>/a{2,}/\<close>.\<close>

definition lit_A :: literal where
  "lit_A = Literal (0, 7, ''/a{2,}/'')
     (P_Pattern (1, 6, ''a{2,}'')
        [P_Alternative (1, 6, ''a{2,}'')
           [P_Quantifier (1, 6, ''a{2,}'') 2 \<infinity> True (P_Character (1, 2, ''a'') 97)]])
     (7, 7, []) False False False False False False False False"

definition tree_A :: store where
  "tree_A =
     [([], \<lparr>parent = None, start = 0, end' = 7, raw = ''/a{2,}/'',
             shape = RegExpLiteral [0] [1]\<rparr>),
      ([0], \<lparr>parent = Some [], start = 1, end' = 6, raw = ''a{2,}'',
              shape = Pattern [[0, 0]]\<rparr>),
      ([0, 0], \<lparr>parent = Some [0], start = 1, end' = 6, raw = ''a{2,}'',
                 shape = BaseAlternative False [[0, 0, 0]]\<rparr>),
      ([0, 0, 0], \<lparr>parent = Some [0, 0], start = 1, end' = 6, raw = ''a{2,}'',
                    shape = Quantifier 2 \<infinity> True [0, 0, 0, 0]\<rparr>),
      ([0, 0, 0, 0], \<lparr>parent = Some [0, 0, 0], start = 1, end' = 2, raw = ''a'',
                       shape = Character 97\<rparr>),
      ([1], \<lparr>parent = Some [], start = 7, end' = 7, raw = [],
              shape = Flags False False False False False False False False\<rparr>)]"

text \<open>Scenario B, \<^verbatim>\<open>/(?<n>a)\k<n>/\<close>.\<close>

definition lit_B :: literal where
  "lit_B = Literal (0, 14, ''/(?<n>a)'' @ CHR 0x5C # ''k<n>/'')
     (P_Pattern (1, 13, ''(?<n>a)'' @ CHR 0x5C # ''k<n>'')
        [P_Alternative (1, 13, ''(?<n>a)'' @ CHR 0x5C # ''k<n>'')
           [P_CapturingGroup (1, 8, ''(?<n>a)'') (Some ''n'')
              [P_Alternative (6, 7, ''a'') [P_Character (6, 7, ''a'') 97]],
            P_Backreference (8, 13, CHR 0x5C # ''k<n>'') (Inr ''n'')]])
     (14, 14, []) False False False False False False False False"

definition tree_B :: store where
  "tree_B =
     [([], \<lparr>parent = None, start = 0, end' = 14, raw = ''/(?<n>a)'' @ CHR 0x5C # ''k<n>/'',
             shape = RegExpLiteral [0] [1]\<rparr>),
      ([0], \<lparr>parent = Some [], start = 1, end' = 13, raw = ''(?<n>a)'' @ CHR 0x5C # ''k<n>'',
              shape = Pattern [[0, 0]]\<rparr>),
      ([0, 0], \<lparr>parent = Some [0], start = 1, end' = 13,
                 raw = ''(?<n>a)'' @ CHR 0x5C # ''k<n>'',
                 shape = BaseAlternative False [[0, 0, 0], [0, 0, 1]]\<rparr>),
      ([0, 0, 0], \<lparr>parent = Some [0, 0], start = 1, end' = 8, raw = ''(?<n>a)'',
                    shape = CapturingGroup (Some ''n'') [[0, 0, 0, 0]] [[0, 0, 1]]\<rparr>),
      ([0, 0, 0, 0], \<lparr>parent = Some [0, 0, 0], start = 6, end' = 7, raw = ''a'',
                       shape = BaseAlternative False [[0, 0, 0, 0, 0]]\<rparr>),
      ([0, 0, 0, 0, 0], \<lparr>parent = Some [0, 0, 0, 0], start = 6, end' = 7, raw = ''a'',
                          shape = Character 97\<rparr>),
      ([0, 0, 1], \<lparr>parent = Some [0, 0], start = 8, end' = 13, raw = CHR 0x5C # ''k<n>'',
                    shape = Backreference (Inr ''n'') (Some [0, 0, 0])\<rparr>),
      ([1], \<lparr>parent = Some [], start = 14, end' = 14, raw = [],
              shape = Flags False False False False False False False False\<rparr>)]"

text \<open>Two groups of one name in two alternatives, each followed by a reference to the
  name, \<^verbatim>\<open>/(?<n>a)\k<n>|(?<n>b)\k<n>/\<close>.\<close>

definition lit_N :: literal where
  "lit_N = Literal (0, 27, ''/(?<n>a)'' @ CHR 0x5C # ''k<n>|(?<n>b)'' @ CHR 0x5C # ''k<n>/'')
     (P_Pattern (1, 26, ''(?<n>a)'' @ CHR 0x5C # ''k<n>|(?<n>b)'' @ CHR 0x5C # ''k<n>'')
        [P_Alternative (1, 13, ''(?<n>a)'' @ CHR 0x5C # ''k<n>'')
           [P_CapturingGroup (1, 8, ''(?<n>a)'') (Some ''n'')
              [P_Alternative (6, 7, ''a'') [P_Character (6, 7, ''a'') 97]],
            P_Backreference (8, 13, CHR 0x5C # ''k<n>'') (Inr ''n'')],
         P_Alternative (14, 26, ''(?<n>b)'' @ CHR 0x5C # ''k<n>'')
           [P_CapturingGroup (14, 21, ''(?<n>b)'') (Some ''n'')
              [P_Alternative (19, 20, ''b'') [P_Character (19, 20, ''b'') 98]],
            P_Backreference (21, 26, CHR 0x5C # ''k<n>'') (Inr ''n'')]])
     (27, 27, []) False False False False False False False False"

text \<open>The tree of that literal under the rule \<open>nearest\<close>: each reference is bound to the
  group of its own alternative.\<close>

definition tree_N :: store where
  "tree_N =
     [([], \<lparr>parent = None, start = 0, end' = 27,
             raw = ''/(?<n>a)'' @ CHR 0x5C # ''k<n>|(?<n>b)'' @ CHR 0x5C # ''k<n>/'',
             shape = RegExpLiteral [0] [1]\<rparr>),
      ([0], \<lparr>parent = Some [], start = 1, end' = 26,
              raw = ''(?<n>a)'' @ CHR 0x5C # ''k<n>|(?<n>b)'' @ CHR 0x5C # ''k<n>'',
              shape = Pattern [[0, 0], [0, 1]]\<rparr>),
      ([0, 0], \<lparr>parent = Some [0], start = 1, end' = 13,
                 raw = ''(?<n>a)'' @ CHR 0x5C # ''k<n>'',
                 shape = BaseAlternative False [[0, 0, 0], [0, 0, 1]]\<rparr>),
      ([0, 0, 0], \<lparr>parent = Some [0, 0], start = 1, end' = 8, raw = ''(?<n>a)'',
                    shape = CapturingGroup (Some ''n'') [[0, 0, 0, 0]] [[0, 0, 1]]\<rparr>),
      ([0, 0, 0, 0], \<lparr>parent = Some [0, 0, 0], start = 6, end' = 7, raw = ''a'',
                       shape = BaseAlternative False [[0, 0, 0, 0, 0]]\<rparr>),
      ([0, 0, 0, 0, 0], \<lparr>parent = Some [0, 0, 0, 0], start = 6, end' = 7, raw = ''a'',
                          shape = Character 97\<rparr>),
      ([0, 0, 1], \<lparr>parent = Some [0, 0], start = 8, end' = 13, raw = CHR 0x5C # ''k<n>'',
                    shape = Backreference (Inr ''n'') (Some [0, 0, 0])\<rparr>),
      ([0, 1], \<lparr>parent = Some [0], start = 14, end' = 26,
                 raw = ''(?<n>b)'' @ CHR 0x5C # ''k<n>'',
                 shape = BaseAlternative False [[0, 1, 0], [0, 1, 1]]\<rparr>),
      ([0, 1, 0], \<lparr>parent = Some [0, 1], start = 14, end' = 21, raw = ''(?<n>b)'',
                    shape = CapturingGroup (Some ''n'') [[0, 1, 0, 0]] [[0, 1, 1]]\<rparr>),
      ([0, 1, 0, 0], \<lparr>parent = Some [0, 1, 0], start = 19, end' = 20, raw = ''b'',
                       shape = BaseAlternative False [[0, 1, 0, 0, 0]]\<rparr>),
      ([0, 1, 0, 0, 0], \<lparr>parent = Some [0, 1, 0, 0], start = 19, end' = 20, raw = ''b'',
                          shape = Character 98\<rparr>),
      ([0, 1, 1], \<lparr>parent = Some [0, 1], start = 21, end' = 26, raw = CHR 0x5C # ''k<n>'',
                    shape = Backreference (Inr ''n'') (Some [0, 1, 0])\<rparr>),
      ([1], \<lparr>parent = Some [], start = 27, end' = 27, raw = [],
              shape = Flags False False False False False False False False\<rparr>)]"

text \<open>Scenario C, \<^verbatim>\<open>/\k<missing>/\<close>.\<close>

definition lit_C :: literal where
  "lit_C = Literal (0, 13, CHR ''/'' # CHR 0x5C # ''k<missing>/'')
     (P_Pattern (1, 12, CHR 0x5C # ''k<missing>'')
        [P_Alternative (1, 12, CHR 0x5C # ''k<missing>'')
           [P_Backreference (1, 12, CHR 0x5C # ''k<missing>'') (Inr ''missing'')]])
     (13, 13, []) False False False False False False False False"

text \<open>A quantifier with its bounds out of order before a reference to no group,
  \<^verbatim>\<open>/a{2,1}\k<x>/\<close>.\<close>

definition lit_broken :: literal where
  "lit_broken = Literal (0, 13, ''/a{2,1}'' @ CHR 0x5C # ''k<x>/'')
     (P_Pattern (1, 12, ''a{2,1}'' @ CHR 0x5C # ''k<x>'')
        [P_Alternative (1, 12, ''a{2,1}'' @ CHR 0x5C # ''k<x>'')
           [P_Quantifier (1, 7, ''a{2,1}'') 2 1 True (P_Character (1, 2, ''a'') 97),
            P_Backreference (7, 12, CHR 0x5C # ''k<x>'') (Inr ''x'')]])
     (13, 13, []) False False False False False False False False"

text \<open>Scenarios D and E, \<^verbatim>\<open>/[a--b]/\<close>.\<close>

definition lit_E :: literal where
  "lit_E = Literal (0, 8, ''/[a--b]/'')
     (P_Pattern (1, 7, ''[a--b]'')
        [P_Alternative (1, 7, ''[a--b]'')
           [P_ExpressionCharacterClass (1, 7, ''[a--b]'') False
              (P_ClassSubtraction (2, 6, ''a--b'')
                 (P_Character (2, 3, ''a'') 97) (P_Character (5, 6, ''b'') 98))]])
     (8, 8, []) False False False False False False False False"

definition tree_E :: store where
  "tree_E =
     [([], \<lparr>parent = None, start = 0, end' = 8, raw = ''/[a--b]/'',
             shape = RegExpLiteral [0] [1]\<rparr>),
      ([0], \<lparr>parent = Some [], start = 1, end' = 7, raw = ''[a--b]'',
              shape = Pattern [[0, 0]]\<rparr>),
      ([0, 0], \<lparr>parent = Some [0], start = 1, end' = 7, raw = ''[a--b]'',
                 shape = BaseAlternative False [[0, 0, 0]]\<rparr>),
      ([0, 0, 0], \<lparr>parent = Some [0, 0], start = 1, end' = 7, raw = ''[a--b]'',
                    shape = ExpressionCharacterClass False [0, 0, 0, 0]\<rparr>),
      ([0, 0, 0, 0], \<lparr>parent = Some [0, 0, 0], start = 2, end' = 6, raw = ''a--b'',
                       shape = ClassSubtraction [0, 0, 0, 0, 0] [0, 0, 0, 0, 1]\<rparr>),
      ([0, 0, 0, 0, 0], \<lparr>parent = Some [0, 0, 0, 0], start = 2, end' = 3, raw = ''a'',
                          shape = Character 97\<rparr>),
      ([0, 0, 0, 0, 1], \<lparr>parent = Some [0, 0, 0, 0], start = 5, end' = 6, raw = ''b'',
                          shape = Character 98\<rparr>),
      ([1], \<lparr>parent = Some [], start = 8, end' = 8, raw = [],
              shape = Flags False False False False False False False False\<rparr>)]"

text \<open>A quantified class of ranges under the flag \<^verbatim>\<open>u\<close>, \<^verbatim>\<open>/[a-b]{2,}/u\<close>.\<close>

definition lit_R :: literal where
  "lit_R = Literal (0, 12, ''/[a-b]{2,}/u'')
     (P_Pattern (1, 10, ''[a-b]{2,}'')
        [P_Alternative (1, 10, ''[a-b]{2,}'')
           [P_Quantifier (1, 10, ''[a-b]{2,}'') 2 \<infinity> True
              (P_CharacterClass (1, 6, ''[a-b]'') False False
                 [P_CharacterClassRange (2, 5, ''a-b'')
                    (P_Character (2, 3, ''a'') 97) (P_Character (4, 5, ''b'') 98)])]])
     (11, 12, ''u'') False False False False False False True False"

definition tree_R :: store where
  "tree_R =
     [([], \<lparr>parent = None, start = 0, end' = 12, raw = ''/[a-b]{2,}/u'',
             shape = RegExpLiteral [0] [1]\<rparr>),
      ([0], \<lparr>parent = Some [], start = 1, end' = 10, raw = ''[a-b]{2,}'',
              shape = Pattern [[0, 0]]\<rparr>),
      ([0, 0], \<lparr>parent = Some [0], start = 1, end' = 10, raw = ''[a-b]{2,}'',
                 shape = BaseAlternative False [[0, 0, 0]]\<rparr>),
      ([0, 0, 0], \<lparr>parent = Some [0, 0], start = 1, end' = 10, raw = ''[a-b]{2,}'',
                    shape = Quantifier 2 \<infinity> True [0, 0, 0, 0]\<rparr>),
      ([0, 0, 0, 0], \<lparr>parent = Some [0, 0, 0], start = 1, end' = 6, raw = ''[a-b]'',
                       shape = BaseCharacterClass False False [[0, 0, 0, 0, 0]]\<rparr>),
      ([0, 0, 0, 0, 0], \<lparr>parent = Some [0, 0, 0, 0], start = 2, end' = 5, raw = ''a-b'',
                          shape = CharacterClassRange [0, 0, 0, 0, 0, 0] [0, 0, 0, 0, 0, 1]\<rparr>),
      ([0, 0, 0, 0, 0, 0], \<lparr>parent = Some [0, 0, 0, 0, 0], start = 2, end' = 3, raw = ''a'',
                             shape = Character 97\<rparr>),
      ([0, 0, 0, 0, 0, 1], \<lparr>parent = Some [0, 0, 0, 0, 0], start = 4, end' = 5, raw = ''b'',
                             shape = Character 98\<rparr>),
      ([1], \<lparr>parent = Some [], start = 11, end' = 12, raw = ''u'',
              shape = Flags False False False False False False True False\<rparr>)]"

text \<open>A property of strings under the flag \<^verbatim>\<open>v\<close>, \<^verbatim>\<open>/\p{RGI_Emoji}/v\<close>.\<close>

definition tree_P :: store where
  "tree_P =
     [([], \<lparr>parent = None, start = 0, end' = 16,
             raw = CHR ''/'' # CHR 0x5C # ''p{RGI_Emoji}/v'', shape = RegExpLiteral [0] [1]\<rparr>),
      ([0], \<lparr>parent = Some [], start = 1, end' = 14, raw = CHR 0x5C # ''p{RGI_Emoji}'',
              shape = Pattern [[0, 0]]\<rparr>),
      ([0, 0], \<lparr>parent = Some [0], start = 1, end' = 14, raw = CHR 0x5C # ''p{RGI_Emoji}'',
                 shape = BaseAlternative False [[0, 0, 0]]\<rparr>),
      ([0, 0, 0], \<lparr>parent = Some [0, 0], start = 1, end' = 14,
                    raw = CHR 0x5C # ''p{RGI_Emoji}'',
                    shape = BaseUnicodePropertyCharacterSet True ''RGI_Emoji'' None False\<rparr>),
      ([1], \<lparr>parent = Some [], start = 15, end' = 16, raw = ''v'',
              shape = Flags False False False False False False False True\<rparr>)]"

text \<open>A pattern on its own, \<^verbatim>\<open>a\<close>, with no literal around it.\<close>

definition standalone_pattern :: store where
  "standalone_pattern =
     [([], \<lparr>parent = None, start = 0, end' = 1, raw = ''a'', shape = Pattern [[0]]\<rparr>),
      ([0], \<lparr>parent = Some [], start = 0, end' = 1, raw = ''a'',
              shape = BaseAlternative False [[0, 0]]\<rparr>),
      ([0, 0], \<lparr>parent = Some [0], start = 0, end' = 1, raw = ''a'', shape = Character 97\<rparr>)]"

text \<open>A lookbehind assertion, \<^verbatim>\<open>/(?<=a)/\<close>.\<close>

definition tree_L :: store where
  "tree_L =
     [([], \<lparr>parent = None, start = 0, end' = 8, raw = ''/(?<=a)/'',
             shape = RegExpLiteral [0] [1]\<rparr>),
      ([0], \<lparr>parent = Some [], start = 1, end' = 7, raw = ''(?<=a)'',
              shape = Pattern [[0, 0]]\<rparr>),
      ([0, 0], \<lparr>parent = Some [0], start = 1, end' = 7, raw = ''(?<=a)'',
                 shape = BaseAlternative False [[0, 0, 0]]\<rparr>),
      ([0, 0, 0], \<lparr>parent = Some [0, 0], start = 1, end' = 7, raw = ''(?<=a)'',
                    shape = LookbehindAssertion False [[0, 0, 0, 0]]\<rparr>),
      ([0, 0, 0, 0], \<lparr>parent = Some [0, 0, 0], start = 5, end' = 6, raw = ''a'',
                       shape = BaseAlternative False [[0, 0, 0, 0, 0]]\<rparr>),
      ([0, 0, 0, 0, 0], \<lparr>parent = Some [0, 0, 0, 0], start = 5, end' = 6, raw = ''a'',
                          shape = Character 97\<rparr>),
      ([1], \<lparr>parent = Some [], start = 8, end' = 8, raw = [],
              shape = Flags False False False False False False False False\<rparr>)]"

text \<open>A string disjunction in a class under the flag \<^verbatim>\<open>v\<close>, \<^verbatim>\<open>/[\q{a}]/v\<close>.\<close>

definition tree_Q :: store where
  "tree_Q =
     [([], \<lparr>parent = None, start = 0, end' = 10, raw = ''/['' @ CHR 0x5C # ''q{a}]/v'',
             shape = RegExpLiteral [0] [1]\<rparr>),
      ([0], \<lparr>parent = Some [], start = 1, end' = 8, raw = CHR ''['' # CHR 0x5C # ''q{a}]'',
              shape = Pattern [[0, 0]]\<rparr>),
      ([0, 0], \<lparr>parent = Some [0], start = 1, end' = 8,
                 raw = CHR ''['' # CHR 0x5C # ''q{a}]'',
                 shape = BaseAlternative False [[0, 0, 0]]\<rparr>),
      ([0, 0, 0], \<lparr>parent = Some [0, 0], start = 1, end' = 8,
                    raw = CHR ''['' # CHR 0x5C # ''q{a}]'',
                    shape = BaseCharacterClass True False [[0, 0, 0, 0]]\<rparr>),
      ([0, 0, 0, 0], \<lparr>parent = Some [0, 0, 0], start = 2, end' = 7,
                       raw = CHR 0x5C # ''q{a}'',
                       shape = ClassStringDisjunction [[0, 0, 0, 0, 0]]\<rparr>),
      ([0, 0, 0, 0, 0], \<lparr>parent = Some [0, 0, 0, 0], start = 5, end' = 6, raw = ''a'',
                          shape = BaseAlternative True [[0, 0, 0, 0, 0, 0]]\<rparr>),
      ([0, 0, 0, 0, 0, 0], \<lparr>parent = Some [0, 0, 0, 0, 0], start = 5, end' = 6, raw = ''a'',
                             shape = Character 97\<rparr>),
      ([1], \<lparr>parent = Some [], start = 9, end' = 10, raw = ''v'',
              shape = Flags False False False False False False False True\<rparr>)]"

chapter \<open>Properties\<close>

section \<open>The fixture round trip\<close>

subsection \<open>The order of the properties\<close>

lemma insert_index_map:
  "insert_index i (k, f v) (map (\<lambda>(k, x). (k, f x)) obj)
     = map (\<lambda>(k, x). (k, f x)) (insert_index i (k, v) obj)"
  by (induction obj) (auto split: option.splits)

lemma CreateDataProperty_map:
  "CreateDataProperty (map (\<lambda>(k, x). (k, f x)) obj) k (f v)
     = map (\<lambda>(k, x). (k, f x)) (CreateDataProperty obj k v)"
proof -
  have keys: "map fst (map (\<lambda>(k, x). (k, f x)) obj) = map fst obj"
    by (induction obj) auto
  have repl: "map (\<lambda>(k', v'). (k', if k' = k then f v else v')) (map (\<lambda>(k, x). (k, f x)) obj)
              = map (\<lambda>(k, x). (k, f x)) (map (\<lambda>(k', v'). (k', if k' = k then v else v')) obj)"
    by (induction obj) auto
  show ?thesis
    unfolding CreateDataProperty_def keys
    by (auto simp: insert_index_map repl split: option.splits)
qed

lemma foldl_CreateDataProperty_map:
  "foldl (\<lambda>obj (k, v). CreateDataProperty obj k v) (map (\<lambda>(k, x). (k, f x)) acc)
         (map (\<lambda>(k, x). (k, f x)) kvs)
     = map (\<lambda>(k, x). (k, f x)) (foldl (\<lambda>obj (k, v). CreateDataProperty obj k v) acc kvs)"
proof (induction kvs arbitrary: acc)
  case Nil
  show ?case by simp
next
  case (Cons p kvs)
  obtain k v where p: "p = (k, v)" by (cases p)
  show ?case
    using Cons [of "CreateDataProperty acc k v"]
    by (simp add: p CreateDataProperty_map)
qed

lemma object_of_map:
  "object_of (map (\<lambda>(k, x). (k, f x)) kvs) = map (\<lambda>(k, x). (k, f x)) (object_of kvs)"
  using foldl_CreateDataProperty_map [of f "[]" kvs] by (simp add: object_of_def)

lemma insert_index_set: "set (insert_index i p obj) = insert p (set obj)"
  by (induction obj) (auto split: option.splits)

lemma CreateDataProperty_snd:
  "snd ` set (CreateDataProperty obj k v) \<subseteq> insert v (snd ` set obj)"
  unfolding CreateDataProperty_def
  by (auto simp: insert_index_set split: option.splits if_splits)

lemma foldl_CreateDataProperty_snd:
  "snd ` set (foldl (\<lambda>obj (k, v). CreateDataProperty obj k v) acc kvs)
     \<subseteq> snd ` set acc \<union> snd ` set kvs"
proof (induction kvs arbitrary: acc)
  case Nil
  show ?case by simp
next
  case (Cons p kvs)
  obtain k v where p: "p = (k, v)" by (cases p)
  show ?case
    using Cons [of "CreateDataProperty acc k v"] CreateDataProperty_snd [of acc k v]
    by (auto simp: p)
qed

lemma object_of_snd: "snd ` set (object_of kvs) \<subseteq> snd ` set kvs"
  using foldl_CreateDataProperty_snd [of "[]" kvs] by (simp add: object_of_def)

lemma array_index_digits: "array_index k = Some i \<Longrightarrow> k = digits i"
  by (auto simp: array_index_def split: option.splits if_splits)

lemma keys_in_order_append_index:
  "keys_in_order ks \<Longrightarrow> array_index k = Some i
   \<Longrightarrow> \<forall>k' \<in> set ks. \<exists>j. array_index k' = Some j \<and> j < i
   \<Longrightarrow> keys_in_order (ks @ [k])"
  by (induction ks rule: keys_in_order.induct) (auto split: option.splits)

lemma keys_in_order_append_name:
  "keys_in_order ks \<Longrightarrow> array_index k = None \<Longrightarrow> keys_in_order (ks @ [k])"
  by (induction ks rule: keys_in_order.induct) (auto split: option.splits)

lemma keys_in_order_tail: "keys_in_order (k # ks) \<Longrightarrow> keys_in_order ks"
  by (cases ks) auto

lemma keys_in_order_before_index:
  "keys_in_order (ks @ k # ks') \<Longrightarrow> array_index k = Some i
   \<Longrightarrow> \<forall>k' \<in> set ks. \<exists>j. array_index k' = Some j \<and> j < i"
proof (induction ks rule: keys_in_order.induct)
  case 1
  show ?case by simp
next
  case (2 k0)
  then show ?case by (auto split: option.splits)
next
  case (3 k0 k1 ks)
  from "3.prems" have step: "keys_in_order ((k1 # ks) @ k # ks')"
    and ord: "case array_index k1 of None \<Rightarrow> True
              | Some j \<Rightarrow> (case array_index k0 of None \<Rightarrow> False | Some i \<Rightarrow> i < j)"
    by auto
  from "3.IH" [OF step "3.prems"(2)]
  have rest: "\<forall>k' \<in> set (k1 # ks). \<exists>j. array_index k' = Some j \<and> j < i" .
  then obtain j1 where j1: "array_index k1 = Some j1" "j1 < i" by auto
  with ord obtain j0 where "array_index k0 = Some j0" "j0 < j1"
    by (auto split: option.splits)
  with j1 rest show ?case by auto
qed

lemma insert_index_keys_in_order:
  "keys_in_order (map fst obj) \<Longrightarrow> array_index k = Some i
   \<Longrightarrow> \<forall>q \<in> set obj. array_index (fst q) \<noteq> Some i
   \<Longrightarrow> keys_in_order (map fst (insert_index i (k, v) obj))"
proof (induction obj)
  case Nil
  show ?case by simp
next
  case (Cons q obj)
  show ?case
  proof (cases "array_index (fst q)")
    case None
    with Cons.prems show ?thesis by simp
  next
    case (Some j)
    show ?thesis
    proof (cases "j < i")
      case False
      with Some Cons.prems have "i < j" by auto
      with Some Cons.prems show ?thesis by simp
    next
      case True
      from Cons.prems have tl: "keys_in_order (map fst obj)"
        using keys_in_order_tail by auto
      have IH: "keys_in_order (map fst (insert_index i (k, v) obj))"
        using Cons.IH [OF tl Cons.prems(2)] Cons.prems(3) by simp
      show ?thesis
      proof (cases obj)
        case Nil
        with Some True Cons.prems show ?thesis by simp
      next
        case (Cons q' obj')
        with IH Some True Cons.prems show ?thesis
          by (auto split: option.splits)
      qed
    qed
  qed
qed

lemma insert_index_keys: "set (map fst (insert_index i p obj)) = insert (fst p) (set (map fst obj))"
  by (induction obj) (auto split: option.splits)

lemma insert_index_distinct:
  "distinct (map fst obj) \<Longrightarrow> fst p \<notin> set (map fst obj)
   \<Longrightarrow> distinct (map fst (insert_index i p obj))"
proof (induction obj)
  case Nil
  show ?case by simp
next
  case (Cons q obj)
  then show ?case
    using insert_index_keys [of i p obj]
    by (auto split: option.splits)
qed

lemma replace_keys:
  "map fst (map (\<lambda>(k', v'). (k', if k' = k then v else v')) obj) = map fst obj"
  by (induction obj) auto

lemma CreateDataProperty_in_order:
  assumes "distinct (map fst obj)" "keys_in_order (map fst obj)"
  shows "distinct (map fst (CreateDataProperty obj k v))
         \<and> keys_in_order (map fst (CreateDataProperty obj k v))"
proof (cases "k \<in> set (map fst obj)")
  case True
  then have "CreateDataProperty obj k v = map (\<lambda>(k', v'). (k', if k' = k then v else v')) obj"
    by (simp add: CreateDataProperty_def)
  then show ?thesis
    using assms by (simp only: replace_keys)
next
  case False
  show ?thesis
  proof (cases "array_index k")
    case None
    with False assms show ?thesis
      by (simp add: CreateDataProperty_def keys_in_order_append_name)
  next
    case (Some i)
    have "\<forall>q \<in> set obj. array_index (fst q) \<noteq> Some i"
    proof
      fix q assume q: "q \<in> set obj"
      show "array_index (fst q) \<noteq> Some i"
      proof
        assume "array_index (fst q) = Some i"
        then have "fst q = k"
          using array_index_digits [of "fst q" i] array_index_digits [OF Some] by simp
        with q False show False by auto
      qed
    qed
    with False Some assms show ?thesis
      using insert_index_keys_in_order [of obj k i v] insert_index_distinct [of obj "(k, v)" i]
      by (simp add: CreateDataProperty_def)
  qed
qed

lemma foldl_CreateDataProperty_in_order:
  "distinct (map fst acc) \<Longrightarrow> keys_in_order (map fst acc)
   \<Longrightarrow> distinct (map fst (foldl (\<lambda>obj (k, v). CreateDataProperty obj k v) acc kvs))
       \<and> keys_in_order (map fst (foldl (\<lambda>obj (k, v). CreateDataProperty obj k v) acc kvs))"
proof (induction kvs arbitrary: acc)
  case Nil
  then show ?case by simp
next
  case (Cons p kvs)
  obtain k v where p: "p = (k, v)" by (cases p)
  show ?case
    using Cons.IH [of "CreateDataProperty acc k v"]
          CreateDataProperty_in_order [OF Cons.prems, of k v]
    by (simp add: p)
qed

lemma object_of_in_order:
  "distinct (map fst (object_of kvs)) \<and> keys_in_order (map fst (object_of kvs))"
  using foldl_CreateDataProperty_in_order [of "[]" kvs] by (simp add: object_of_def)

lemma insert_index_last:
  "\<forall>q \<in> set obj. \<exists>j. array_index (fst q) = Some j \<and> j < i
   \<Longrightarrow> insert_index i p obj = obj @ [p]"
  by (induction obj) auto

lemma foldl_CreateDataProperty_fixed:
  "distinct (map fst (acc @ kvs)) \<Longrightarrow> keys_in_order (map fst (acc @ kvs))
   \<Longrightarrow> foldl (\<lambda>obj (k, v). CreateDataProperty obj k v) acc kvs = acc @ kvs"
proof (induction kvs arbitrary: acc)
  case Nil
  show ?case by simp
next
  case (Cons p kvs)
  obtain k v where p: "p = (k, v)" by (cases p)
  have new: "k \<notin> set (map fst acc)"
    using Cons.prems(1) by (auto simp: p)
  have "CreateDataProperty acc k v = acc @ [(k, v)]"
  proof (cases "array_index k")
    case None
    with new show ?thesis by (simp add: CreateDataProperty_def)
  next
    case (Some i)
    have "keys_in_order (map fst acc @ k # map fst kvs)"
      using Cons.prems(2) by (simp add: p)
    from keys_in_order_before_index [OF this Some]
    have "\<forall>q \<in> set acc. \<exists>j. array_index (fst q) = Some j \<and> j < i" by simp
    from insert_index_last [OF this] new Some show ?thesis
      by (simp add: CreateDataProperty_def)
  qed
  moreover have "foldl (\<lambda>obj (k, v). CreateDataProperty obj k v) (acc @ [(k, v)]) kvs
                 = (acc @ [(k, v)]) @ kvs"
    using Cons.prems by (intro Cons.IH) (simp_all add: p)
  ultimately show ?case by (simp add: p)
qed

lemma in_order_fixed:
  "distinct (map fst kvs) \<Longrightarrow> keys_in_order (map fst kvs) \<Longrightarrow> object_of kvs = kvs"
  using foldl_CreateDataProperty_fixed [of "[]" kvs] by (simp add: object_of_def)

lemma object_of_idem: "object_of (object_of kvs) = object_of kvs"
  using object_of_in_order [of kvs] by (simp add: in_order_fixed)

lemma js_object_iff:
  "object_of kvs = kvs \<longleftrightarrow> distinct (map fst kvs) \<and> keys_in_order (map fst kvs)"
  using object_of_in_order [of kvs] in_order_fixed [of kvs] by auto

subsection \<open>Serialising and reading back\<close>

lemma stringify_atoms:
  "JSON_stringify nf JNull = TNull"
  "JSON_stringify nf (JBoolean b) = TBoolean b"
  "JSON_stringify nf (JNumber (Finite d)) = TNumber (NumberToString nf d)"
  "JSON_stringify nf (JNumber NegativeZero) = TNumber (NumberToString nf (positive_zero nf))"
  "JSON_stringify nf (JNumber NegativeInfinity) = TNull"
  "JSON_stringify nf (JNumber NaN) = TNull"
  "JSON_stringify nf JInfinity = TString ''$$Infinity''"
  "JSON_stringify nf (JString s) = TString s"
  by (simp_all add: JSON_stringify.simps replacer_def SerializeNumber_def)

lemma stringify_array:
  "JSON_stringify nf (JArray xs) = TArray (map (JSON_stringify nf) xs)"
  by (simp add: JSON_stringify.simps replacer_def)

lemma stringify_object:
  "JSON_stringify nf (JObject kvs) = TObject (map (\<lambda>(k, x). (k, JSON_stringify nf x)) kvs)"
  by (simp add: JSON_stringify.simps replacer_def)

lemmas stringify_simps = stringify_atoms stringify_array stringify_object

lemma roundtrip_atoms:
  "JSON_parse nf (JSON_stringify nf JNull) = JNull"
  "JSON_parse nf (JSON_stringify nf (JBoolean b)) = JBoolean b"
  "JSON_parse nf (JSON_stringify nf (JNumber (Finite d)))
     = JNumber (StringToNumber nf (NumberToString nf d))"
  "JSON_parse nf (JSON_stringify nf (JNumber NegativeZero))
     = JNumber (StringToNumber nf (NumberToString nf (positive_zero nf)))"
  "JSON_parse nf (JSON_stringify nf (JNumber NegativeInfinity)) = JNull"
  "JSON_parse nf (JSON_stringify nf (JNumber NaN)) = JNull"
  "JSON_parse nf (JSON_stringify nf JInfinity) = JInfinity"
  "JSON_parse nf (JSON_stringify nf (JString s))
     = (if s = ''$$Infinity'' then JInfinity else JString s)"
  by (simp_all add: stringify_atoms reviver_def)

lemma roundtrip_array:
  "JSON_parse nf (JSON_stringify nf (JArray xs))
     = JArray (map (\<lambda>x. JSON_parse nf (JSON_stringify nf x)) xs)"
  by (simp add: stringify_array reviver_def comp_def)

lemma roundtrip_object:
  "JSON_parse nf (JSON_stringify nf (JObject kvs))
     = JObject (object_of (map (\<lambda>(k, x). (k, JSON_parse nf (JSON_stringify nf x))) kvs))"
  by (simp add: stringify_object reviver_def comp_def case_prod_unfold)

lemma roundtrip_js_object:
  "object_of kvs = kvs \<Longrightarrow>
   JSON_parse nf (JSON_stringify nf (JObject kvs))
     = JObject (map (\<lambda>(k, x). (k, JSON_parse nf (JSON_stringify nf x))) kvs)"
  by (simp add: roundtrip_object object_of_map)

lemma map_fixed_iff: "map f xs = xs \<longleftrightarrow> (\<forall>x \<in> set xs. f x = x)"
  by (induction xs) auto

lemma roundtrip_identity_iff:
  assumes rb: "\<forall>d. StringToNumber nf (NumberToString nf d) = Finite d"
  shows "js_value v \<Longrightarrow>
         JSON_parse nf (JSON_stringify nf v) = v \<longleftrightarrow> \<not> has_sentinel v \<and> \<not> has_unwritable v"
proof (induction v)
  case (JNumber x)
  show ?case using rb by (cases x) (simp_all add: roundtrip_atoms)
next
  case (JArray xs)
  then have "\<forall>x \<in> set xs. JSON_parse nf (JSON_stringify nf x) = x
                \<longleftrightarrow> \<not> has_sentinel x \<and> \<not> has_unwritable x"
    by (simp add: list_all_iff)
  then have "(\<forall>x \<in> set xs. JSON_parse nf (JSON_stringify nf x) = x)
             \<longleftrightarrow> (\<forall>x \<in> set xs. \<not> has_sentinel x) \<and> (\<forall>x \<in> set xs. \<not> has_unwritable x)"
    by blast
  then show ?case
    by (simp add: roundtrip_array map_fixed_iff list_ex_iff)
next
  case (JObject kvs)
  from JObject.prems have fixed: "object_of kvs = kvs"
    and sub: "\<forall>p \<in> set kvs. js_value (snd p)"
    by (auto simp: list_all_iff)
  have "(\<forall>p \<in> set kvs. (case p of (k, x) \<Rightarrow> (k, JSON_parse nf (JSON_stringify nf x))) = p)
        \<longleftrightarrow> (\<forall>p \<in> set kvs. \<not> has_sentinel (snd p) \<and> \<not> has_unwritable (snd p))"
  proof (rule ball_cong [OF refl])
    fix p assume p: "p \<in> set kvs"
    obtain k x where kx: "p = (k, x)" by (cases p)
    have "x \<in> Basic_BNFs.snds p" by (simp add: kx)
    moreover have "js_value x" using sub p kx by auto
    ultimately have "JSON_parse nf (JSON_stringify nf x) = x
                     \<longleftrightarrow> \<not> has_sentinel x \<and> \<not> has_unwritable x"
      using JObject.IH p by blast
    then show "(case p of (k, x) \<Rightarrow> (k, JSON_parse nf (JSON_stringify nf x))) = p
               \<longleftrightarrow> \<not> has_sentinel (snd p) \<and> \<not> has_unwritable (snd p)"
      by (simp add: kx)
  qed
  then have "(\<forall>p \<in> set kvs. (case p of (k, x) \<Rightarrow> (k, JSON_parse nf (JSON_stringify nf x))) = p)
        \<longleftrightarrow> (\<forall>p \<in> set kvs. \<not> has_sentinel (snd p)) \<and> (\<forall>p \<in> set kvs. \<not> has_unwritable (snd p))"
    by blast
  then show ?case
    by (simp add: roundtrip_js_object [OF fixed] map_fixed_iff list_ex_iff case_prod_unfold)
qed (simp_all add: roundtrip_atoms)

lemma parse_has_no_sentinel: "\<not> has_sentinel (JSON_parse nf t)"
proof (induction t)
  case (TArray ts)
  then show ?case by (simp add: reviver_def list_ex_iff)
next
  case (TObject kts)
  have "\<not> has_sentinel (JSON_parse nf t)" if "(k, t) \<in> set kts" for k t
  proof -
    have "t \<in> Basic_BNFs.snds (k, t)" by simp
    with TObject that show ?thesis by blast
  qed
  then have "\<forall>x \<in> snd ` set (map (\<lambda>(k, t). (k, JSON_parse nf t)) kts). \<not> has_sentinel x"
    by auto
  then have "\<forall>x \<in> snd ` set (object_of (map (\<lambda>(k, t). (k, JSON_parse nf t)) kts)).
               \<not> has_sentinel x"
    using object_of_snd [of "map (\<lambda>(k, t). (k, JSON_parse nf t)) kts"] by (meson subsetD)
  then have "\<forall>p \<in> set (object_of (map (\<lambda>(k, t). (k, JSON_parse nf t)) kts)).
               \<not> has_sentinel (snd p)"
    by simp
  then show ?case by (simp add: reviver_def list_ex_iff case_prod_unfold)
qed (simp_all add: reviver_def)

lemma parse_js_value: "js_value (JSON_parse nf t)"
proof (induction t)
  case (TArray ts)
  then show ?case by (simp add: reviver_def list_all_iff)
next
  case (TObject kts)
  have "js_value (JSON_parse nf t)" if "(k, t) \<in> set kts" for k t
  proof -
    have "t \<in> Basic_BNFs.snds (k, t)" by simp
    with TObject that show ?thesis by blast
  qed
  then have "\<forall>x \<in> snd ` set (map (\<lambda>(k, t). (k, JSON_parse nf t)) kts). js_value x"
    by auto
  then have "\<forall>x \<in> snd ` set (object_of (map (\<lambda>(k, t). (k, JSON_parse nf t)) kts)).
               js_value x"
    using object_of_snd [of "map (\<lambda>(k, t). (k, JSON_parse nf t)) kts"] by (meson subsetD)
  then have "\<forall>p \<in> set (object_of (map (\<lambda>(k, t). (k, JSON_parse nf t)) kts)).
               js_value (snd p)"
    by simp
  then show ?case
    by (simp add: reviver_def list_all_iff case_prod_unfold object_of_idem)
qed (simp_all add: reviver_def)

lemma roundtrip_writable:
  assumes rb: "\<forall>d. StringToNumber nf (NumberToString nf d) = Finite d"
  shows "\<not> has_unwritable (JSON_parse nf (JSON_stringify nf v))"
proof (induction v)
  case (JNumber x)
  show ?case using rb by (cases x) (simp_all add: roundtrip_atoms)
next
  case (JArray xs)
  then show ?case by (simp add: roundtrip_array list_ex_iff)
next
  case (JObject kvs)
  let ?F = "\<lambda>(k, x). (k, JSON_parse nf (JSON_stringify nf x))"
  have "\<not> has_unwritable (JSON_parse nf (JSON_stringify nf x))" if "(k, x) \<in> set kvs" for k x
  proof -
    have "x \<in> Basic_BNFs.snds (k, x)" by simp
    with JObject that show ?thesis by blast
  qed
  then have "\<forall>x \<in> snd ` set (map ?F kvs). \<not> has_unwritable x"
    by auto
  then have "\<forall>x \<in> snd ` set (object_of (map ?F kvs)). \<not> has_unwritable x"
    using object_of_snd [of "map ?F kvs"] by (meson subsetD)
  then have "\<forall>p \<in> set (object_of (map ?F kvs)). \<not> has_unwritable (snd p)"
    by simp
  then show ?case
    by (simp add: roundtrip_object list_ex_iff case_prod_unfold)
qed (simp_all add: roundtrip_atoms)

lemma integers_read_back:
  "\<forall>d. StringToNumber integers (NumberToString integers d) = Finite d"
  by (simp add: integers_def)

lemma rationals_read_back:
  "\<forall>d. StringToNumber rationals (NumberToString rationals d) = Finite d"
  by (simp add: rationals_def)

lemma fraction_document:
  "JSON_stringify rationals (JNumber (Finite (1 / 10))) = TNumber (1 / 10)"
  by (simp add: stringify_atoms rationals_def)

lemma quantifier_fixture:
  "js_value (JObject [(''type'', JString ''Quantifier''), (''min'', JNumber (Finite (2 :: int))),
                      (''max'', JInfinity)])"
  by code_simp

lemma pattern_fixture:
  "js_value (JObject [(''type'', JString ''Pattern''), (''raw'', JString ''$$Infinity'') :: string \<times> int jsvalue])"
  by code_simp

lemma quantifier_fixture_document:
  "JSON_stringify integers
        (JObject [(''type'', JString ''Quantifier''), (''min'', JNumber (Finite 2)),
                  (''max'', JInfinity)])
      = TObject [(''type'', TString ''Quantifier''), (''min'', TNumber 2),
                 (''max'', TString ''$$Infinity'')]"
  by (simp add: stringify_simps integers_def)

lemma quantifier_fixture_clean:
  "\<not> has_sentinel (JObject [(''type'', JString ''Quantifier''), (''min'', JNumber (Finite (2 :: int))),
                      (''max'', JInfinity)])
   \<and> \<not> has_unwritable (JObject [(''type'', JString ''Quantifier''), (''min'', JNumber (Finite (2 :: int))),
                      (''max'', JInfinity)])"
  by simp

lemma sentinel_documents:
  "JSON_parse integers
     (TArray [TString ''$$Infinity'', TObject [(''$$Infinity'', TString ''$$Infinity'')]])
   = JArray [JInfinity, JObject [(''$$Infinity'', JInfinity)]]"
  by code_simp

lemma members_in_order:
  "JSON_parse integers
     (TObject [(''b'', TNumber 1), (''10'', TNumber 2), (''a'', TString ''$$Infinity''),
               (''2'', TNumber 4), (''b'', TNumber 5)])
   = JObject [(''2'', JNumber (Finite 4)), (''10'', JNumber (Finite 2)),
              (''b'', JNumber (Finite 5)), (''a'', JInfinity)]"
  by code_simp

lemma sentinel_in_array:
  "js_value (JArray [JString ''a'', JString ''$$Infinity''] :: int jsvalue)
   \<and> has_sentinel (JArray [JString ''a'', JString ''$$Infinity''] :: int jsvalue)"
  by simp

lemma bounds_fixture:
  "js_value (JObject [(''min'', JNumber (Finite (0 :: int))), (''max'', JInfinity)])
   \<and> \<not> has_sentinel (JObject [(''min'', JNumber (Finite (0 :: int))), (''max'', JInfinity)])
   \<and> \<not> has_unwritable (JObject [(''min'', JNumber (Finite (0 :: int))), (''max'', JInfinity)])"
  by code_simp

lemma fixture_record:
  "js_value (JObject [(''basic-valid-2015.json'', JArray [JNumber (Finite (1 :: int)), JInfinity])])
   \<and> \<not> has_sentinel (JObject [(''basic-valid-2015.json'', JArray [JNumber (Finite (1 :: int)), JInfinity])])
   \<and> \<not> has_unwritable (JObject [(''basic-valid-2015.json'', JArray [JNumber (Finite (1 :: int)), JInfinity])])"
  by code_simp

lemma save_other:
  "filename \<notin> fst ` set fixturesData \<Longrightarrow> save nf fixturesData dir filename = dir filename"
  unfolding save_def
  by (induction fixturesData arbitrary: dir) auto

lemma save_written:
  "distinct (map fst fixturesData) \<Longrightarrow> (filename, v) \<in> set fixturesData
   \<Longrightarrow> save nf fixturesData dir filename = Some (Some (JSON_stringify nf v))"
proof (induction fixturesData arbitrary: dir)
  case Nil
  then show ?case by simp
next
  case (Cons p rest)
  obtain k x where p: "p = (k, x)" by (cases p)
  show ?case
  proof (cases "(filename, v) = p")
    case True
    then have "filename \<notin> fst ` set rest"
      using Cons.prems(1) p by auto
    from save_other [OF this, of nf "dir(k \<mapsto> Some (JSON_stringify nf x))"]
    have "save nf rest (dir(k \<mapsto> Some (JSON_stringify nf x))) filename
          = Some (Some (JSON_stringify nf v))"
      using True p by simp
    then show ?thesis by (simp only: save_def p foldl_Cons prod.case)
  next
    case False
    with Cons.prems have "(filename, v) \<in> set rest" "distinct (map fst rest)" by auto
    from Cons.IH [OF this(2) this(1), of "dir(k \<mapsto> Some (JSON_stringify nf x))"]
    show ?thesis by (simp only: save_def p foldl_Cons prod.case)
  qed
qed

lemma load_all:
  "\<forall>filename \<in> set listing. filename \<noteq> ''__proto__'' \<and> (\<exists>t. dir filename = Some (Some t))
   \<Longrightarrow> load nf dir listing acc
       = Some (foldl (\<lambda>obj (k, v). CreateDataProperty obj k v) acc
                 (map (\<lambda>filename. (filename, JSON_parse nf (the (the (dir filename))))) listing))"
  by (induction listing arbitrary: acc) (auto simp: assign_def)

subsection \<open>The round trip of fixture values\<close>

text \<open>
  Claim C2 (as amended). Where a finite number is read back from its own text, as
  ECMAScript guarantees, a fixture value in which no string value equals
  \<^verbatim>\<open>"$$Infinity"\<close> and no number is \<^verbatim>\<open>NaN\<close>, \<^verbatim>\<open>-Infinity\<close> or the negative zero is read back
  from the file \<^verbatim>\<open>save\<close> writes exactly as it was; in particular \<^verbatim>\<open>Infinity\<close> (an unbounded
  quantifier bound) comes back as \<^verbatim>\<open>Infinity\<close>, and every finite number other than the
  negative zero comes back as itself.
\<close>

theorem fixture_roundtrip_without_sentinel:
  assumes "\<forall>d. StringToNumber nf (NumberToString nf d) = Finite d"
  shows "(js_value v \<and> \<not> has_sentinel v \<and> \<not> has_unwritable v
            \<longrightarrow> JSON_parse nf (JSON_stringify nf v) = v)
         \<and> JSON_parse nf (JSON_stringify nf JInfinity) = JInfinity
         \<and> JSON_parse nf (JSON_stringify nf (JNumber (Finite d))) = JNumber (Finite d)
         \<and> js_value (JSON_parse nf t)"
  using roundtrip_identity_iff [OF assms, of v] assms parse_js_value [of nf t]
  by (simp add: roundtrip_atoms)

theorem fixture_roundtrip_without_sentinel_witness:
  "js_value (JObject [(''type'', JString ''Quantifier''), (''min'', JNumber (Finite (2 :: int))),
                      (''max'', JInfinity)])
   \<and> JSON_stringify integers
        (JObject [(''type'', JString ''Quantifier''), (''min'', JNumber (Finite 2)),
                  (''max'', JInfinity)])
      = TObject [(''type'', TString ''Quantifier''), (''min'', TNumber 2),
                 (''max'', TString ''$$Infinity'')]
   \<and> JSON_parse integers (JSON_stringify integers
        (JObject [(''type'', JString ''Quantifier''), (''min'', JNumber (Finite 2)),
                  (''max'', JInfinity)]))
      = JObject [(''type'', JString ''Quantifier''), (''min'', JNumber (Finite 2)),
                 (''max'', JInfinity)]
   \<and> JSON_stringify rationals (JNumber (Finite (1 / 10))) = TNumber (1 / 10)
   \<and> JSON_parse rationals (JSON_stringify rationals (JNumber (Finite (1 / 10))))
      = JNumber (Finite (1 / 10))"
proof -
  from fixture_roundtrip_without_sentinel
    [OF integers_read_back,
     of "JObject [(''type'', JString ''Quantifier''), (''min'', JNumber (Finite 2)),
                  (''max'', JInfinity)]" 0 TNull]
    quantifier_fixture quantifier_fixture_clean
  have "JSON_parse integers (JSON_stringify integers
        (JObject [(''type'', JString ''Quantifier''), (''min'', JNumber (Finite 2)),
                  (''max'', JInfinity)]))
      = JObject [(''type'', JString ''Quantifier''), (''min'', JNumber (Finite 2)),
                 (''max'', JInfinity)]"
    by blast
  moreover from fixture_roundtrip_without_sentinel [OF rationals_read_back, of JNull "1 / 10" TNull]
  have "JSON_parse rationals (JSON_stringify rationals (JNumber (Finite (1 / 10))))
      = JNumber (Finite (1 / 10))"
    by blast
  ultimately show ?thesis
    using quantifier_fixture quantifier_fixture_document fraction_document by blast
qed

text \<open>
  Claim C2 as stated fails: the pattern \<^verbatim>\<open>$$Infinity\<close> is a regular expression (two end
  assertions and eight characters), the \<^verbatim>\<open>raw\<close> text of its \<^verbatim>\<open>Pattern\<close> node is the string
  \<^verbatim>\<open>"$$Infinity"\<close>, and that string comes back from the file as the number \<^verbatim>\<open>Infinity\<close>.
\<close>

theorem fixture_roundtrip_counterexample:
  "JSON_parse integers (JSON_stringify integers
      (JObject [(''type'', JString ''Pattern''), (''raw'', JString ''$$Infinity'')]))
   = JObject [(''type'', JString ''Pattern''), (''raw'', JInfinity)]
   \<and> JSON_parse integers (JSON_stringify integers
      (JObject [(''type'', JString ''Pattern''), (''raw'', JString ''$$Infinity'')]))
   \<noteq> JObject [(''type'', JString ''Pattern''), (''raw'', JString ''$$Infinity'')]
   \<and> js_value (JObject [(''type'', JString ''Pattern''), (''raw'', JString ''$$Infinity'') :: string \<times> int jsvalue])"
  using pattern_fixture
  by (simp add: roundtrip_js_object roundtrip_atoms)

text \<open>
  Claim C10 (as amended). The reviver turns the string \<^verbatim>\<open>"$$Infinity"\<close> into \<^verbatim>\<open>Infinity\<close>
  wherever it stands as a value (at the root, in an array, under a property), so nothing
  \<^verbatim>\<open>JSON.parse\<close> returns holds that string; the replacer turns \<^verbatim>\<open>Infinity\<close> into that
  string, again at every position; where a finite number is read back from its own text,
  writing a value and reading it back is the identity exactly on the values that hold
  neither such a string nor a number that is \<^verbatim>\<open>NaN\<close>, \<^verbatim>\<open>-Infinity\<close> or the negative zero; and
  the string itself comes back as \<^verbatim>\<open>Infinity\<close>.
\<close>

theorem sentinel_collision:
  "reviver (JString ''$$Infinity'') = JInfinity
   \<and> JSON_parse nf (TString s) = (if s = ''$$Infinity'' then JInfinity else JString s)
   \<and> JSON_parse nf (TArray ts) = JArray (map (JSON_parse nf) ts)
   \<and> JSON_parse nf (TObject kts)
       = JObject (object_of (map (\<lambda>(k, t). (k, JSON_parse nf t)) kts))
   \<and> \<not> has_sentinel (JSON_parse nf t)
   \<and> replacer JInfinity = JString ''$$Infinity''
   \<and> JSON_stringify nf JInfinity = TString ''$$Infinity''
   \<and> JSON_stringify nf (JArray xs) = TArray (map (JSON_stringify nf) xs)
   \<and> JSON_stringify nf (JObject kvs) = TObject (map (\<lambda>(k, x). (k, JSON_stringify nf x)) kvs)
   \<and> ((\<forall>d. StringToNumber nf (NumberToString nf d) = Finite d) \<and> js_value v
        \<longrightarrow> (JSON_parse nf (JSON_stringify nf v) = v
               \<longleftrightarrow> \<not> has_sentinel v \<and> \<not> has_unwritable v))
   \<and> has_sentinel (JString ''$$Infinity'')
   \<and> JSON_parse nf (JSON_stringify nf (JString ''$$Infinity'')) = JInfinity"
  using roundtrip_identity_iff [of nf v] parse_has_no_sentinel [of nf t]
  by (simp add: reviver_def replacer_def stringify_simps)

theorem sentinel_collision_witness:
  "JSON_parse integers
       (TArray [TString ''$$Infinity'', TObject [(''$$Infinity'', TString ''$$Infinity'')]])
       = JArray [JInfinity, JObject [(''$$Infinity'', JInfinity)]]
   \<and> \<not> has_sentinel
        (JSON_parse integers
           (TArray [TString ''$$Infinity'', TObject [(''$$Infinity'', TString ''$$Infinity'')]]))
   \<and> JSON_parse integers
        (TObject [(''b'', TNumber 1), (''10'', TNumber 2), (''a'', TString ''$$Infinity''),
                  (''2'', TNumber 4), (''b'', TNumber 5)])
       = JObject [(''2'', JNumber (Finite 4)), (''10'', JNumber (Finite 2)),
                  (''b'', JNumber (Finite 5)), (''a'', JInfinity)]
   \<and> js_value (JArray [JString ''a'', JString ''$$Infinity''] :: int jsvalue)
   \<and> has_sentinel (JArray [JString ''a'', JString ''$$Infinity''] :: int jsvalue)
   \<and> JSON_parse integers (JSON_stringify integers (JArray [JString ''a'', JString ''$$Infinity'']))
       \<noteq> JArray [JString ''a'', JString ''$$Infinity'']"
  using sentinel_collision
    [of integers "[]" "[]" "[]"
        "TArray [TString ''$$Infinity'', TObject [(''$$Infinity'', TString ''$$Infinity'')]]"
        "[]" "[]" "JArray [JString ''a'', JString ''$$Infinity'']"]
    integers_read_back sentinel_documents sentinel_in_array members_in_order
  by blast

text \<open>
  Claim C10 as stated fails: the round trip is not the identity on every value without
  the sentinel string. An array of \<^verbatim>\<open>NaN\<close>, \<^verbatim>\<open>-Infinity\<close> and the negative zero holds no
  string at all, and comes back as \<^verbatim>\<open>[null, null, 0]\<close>: the replacer encodes \<^verbatim>\<open>Infinity\<close>
  only.
\<close>

theorem sentinel_collision_counterexample:
  "js_value (JArray [JNumber NaN, JNumber NegativeInfinity, JNumber NegativeZero] :: int jsvalue)
   \<and> \<not> has_sentinel (JArray [JNumber NaN, JNumber NegativeInfinity, JNumber NegativeZero] :: int jsvalue)
   \<and> JSON_parse integers (JSON_stringify integers
        (JArray [JNumber NaN, JNumber NegativeInfinity, JNumber NegativeZero]))
      = JArray [JNull, JNull, JNumber (Finite 0)]
   \<and> JSON_parse integers (JSON_stringify integers
        (JArray [JNumber NaN, JNumber NegativeInfinity, JNumber NegativeZero]))
      \<noteq> JArray [JNumber NaN, JNumber NegativeInfinity, JNumber NegativeZero]"
  by (simp add: roundtrip_array roundtrip_atoms integers_def)

subsection \<open>Reading back twice\<close>

text \<open>
  Saving and reloading twice gives what saving and reloading once gives, where a finite
  number is read back from its own text: after one round trip no string of the data is
  the sentinel and no number is one that a file cannot give back.
\<close>

theorem roundtrip_idempotent:
  assumes "\<forall>d. StringToNumber nf (NumberToString nf d) = Finite d"
  shows "JSON_parse nf (JSON_stringify nf (JSON_parse nf (JSON_stringify nf v)))
         = JSON_parse nf (JSON_stringify nf v)"
  using roundtrip_identity_iff [OF assms, of "JSON_parse nf (JSON_stringify nf v)"]
        parse_js_value [of nf "JSON_stringify nf v"]
        roundtrip_writable [OF assms, of v] parse_has_no_sentinel [of nf "JSON_stringify nf v"]
  by simp

theorem roundtrip_idempotent_witness:
  "JSON_parse integers (JSON_stringify integers (JString ''$$Infinity'')) = JInfinity
   \<and> JSON_parse integers (JSON_stringify integers
        (JSON_parse integers (JSON_stringify integers (JString ''$$Infinity''))))
     = JInfinity"
  using roundtrip_idempotent [OF integers_read_back, of "JString ''$$Infinity''"]
  by (simp add: roundtrip_atoms)

text \<open>
  \<^verbatim>\<open>save\<close> loses nothing on the values a file can give back: where a finite number is
  read back from its own text, two fixture values that hold neither the sentinel string
  nor \<^verbatim>\<open>NaN\<close>, \<^verbatim>\<open>-Infinity\<close> or the negative zero, and are written as the same document, are
  the same value.
\<close>

theorem stringify_injective:
  assumes "\<forall>d. StringToNumber nf (NumberToString nf d) = Finite d"
    and "js_value v" "\<not> has_sentinel v" "\<not> has_unwritable v"
    and "js_value w" "\<not> has_sentinel w" "\<not> has_unwritable w"
    and "JSON_stringify nf v = JSON_stringify nf w"
  shows "v = w"
proof -
  have "v = JSON_parse nf (JSON_stringify nf v)"
    using assms roundtrip_identity_iff [of nf v] by simp
  also have "\<dots> = JSON_parse nf (JSON_stringify nf w)"
    using assms by simp
  also have "\<dots> = w"
    using assms roundtrip_identity_iff [of nf w] by simp
  finally show "v = w" .
qed

theorem stringify_injective_witness:
  "js_value (JObject [(''min'', JNumber (Finite (0 :: int))), (''max'', JInfinity)])
   \<and> JSON_stringify integers (JObject [(''min'', JNumber (Finite 0)), (''max'', JInfinity)])
       = TObject [(''min'', TNumber 0), (''max'', TString ''$$Infinity'')]
   \<and> JSON_stringify integers (JObject [(''min'', JNumber (Finite 0)), (''max'', JString ''$$Infinity'')])
       = TObject [(''min'', TNumber 0), (''max'', TString ''$$Infinity'')]
   \<and> JObject [(''min'', JNumber (Finite (0 :: int))), (''max'', JInfinity)]
       = JObject [(''min'', JNumber (Finite 0)), (''max'', JInfinity)]"
  using stringify_injective
    [OF integers_read_back,
     of "JObject [(''min'', JNumber (Finite 0)), (''max'', JInfinity)]"
        "JObject [(''min'', JNumber (Finite 0)), (''max'', JInfinity)]"]
    bounds_fixture
  by (simp add: stringify_simps integers_def)

subsection \<open>Saving and loading the directory\<close>

text \<open>
  \<^verbatim>\<open>save\<close> writes the file of every key of \<^verbatim>\<open>fixturesData\<close> and leaves every other file of
  the directory as it was. Where a finite number is read back from its own text, and
  \<^verbatim>\<open>fixturesData\<close> holds neither the sentinel string nor \<^verbatim>\<open>NaN\<close>, \<^verbatim>\<open>-Infinity\<close> or the negative
  zero and has no key \<^verbatim>\<open>__proto__\<close>, loading the files \<^verbatim>\<open>save\<close> wrote, listed in the order
  of the keys, gives \<^verbatim>\<open>fixturesData\<close> back.
\<close>

theorem save_then_load:
  assumes rb: "\<forall>d. StringToNumber nf (NumberToString nf d) = Finite d"
    and js: "js_value (JObject fixturesData)"
    and clean: "\<not> has_sentinel (JObject fixturesData)" "\<not> has_unwritable (JObject fixturesData)"
    and proto: "''__proto__'' \<notin> fst ` set fixturesData"
  shows "(\<forall>(filename, v) \<in> set fixturesData.
            save nf fixturesData dir filename = Some (Some (JSON_stringify nf v)))
         \<and> (\<forall>filename. filename \<notin> fst ` set fixturesData
               \<longrightarrow> save nf fixturesData dir filename = dir filename)
         \<and> load nf (save nf fixturesData dir) (map fst fixturesData) [] = Some fixturesData"
proof -
  from js have fixed: "object_of fixturesData = fixturesData" by simp
  then have dist: "distinct (map fst fixturesData)" by (simp add: js_object_iff)
  have written: "save nf fixturesData dir filename = Some (Some (JSON_stringify nf v))"
    if "(filename, v) \<in> set fixturesData" for filename v
    using save_written [OF dist that] .
  have reread: "JSON_parse nf (JSON_stringify nf v) = v"
    if "(filename, v) \<in> set fixturesData" for filename v
  proof -
    from that js clean have "js_value v" "\<not> has_sentinel v" "\<not> has_unwritable v"
      by (auto simp: list_all_iff list_ex_iff)
    then show ?thesis using roundtrip_identity_iff [OF rb, of v] by simp
  qed
  have "map (\<lambda>filename. (filename, JSON_parse nf (the (the (save nf fixturesData dir filename)))))
            (map fst fixturesData) = fixturesData"
  proof -
    have "(case p of (filename, v) \<Rightarrow>
             (filename, JSON_parse nf (the (the (save nf fixturesData dir filename))))) = p"
      if "p \<in> set fixturesData" for p
    proof -
      obtain filename v where p: "p = (filename, v)" by (cases p)
      with that written [of filename v] reread [of filename v] show ?thesis by simp
    qed
    then have "map (\<lambda>(filename, v).
                      (filename, JSON_parse nf (the (the (save nf fixturesData dir filename)))))
                   fixturesData = fixturesData"
      by (simp add: map_fixed_iff)
    then show ?thesis by (simp add: comp_def case_prod_unfold)
  qed
  moreover have "\<forall>filename \<in> set (map fst fixturesData).
                   filename \<noteq> ''__proto__''
                   \<and> (\<exists>t. save nf fixturesData dir filename = Some (Some t))"
    using proto written by force
  ultimately have "load nf (save nf fixturesData dir) (map fst fixturesData) []
                   = Some (object_of fixturesData)"
    using load_all [of "map fst fixturesData" "save nf fixturesData dir" nf "[]"]
    by (simp add: object_of_def)
  with fixed written save_other [of _ fixturesData nf dir] show ?thesis by auto
qed

theorem save_then_load_witness:
  "save integers [(''basic-valid-2015.json'', JArray [JNumber (Finite 1), JInfinity])] Map.empty
        ''basic-valid-2015.json''
     = Some (Some (TArray [TNumber 1, TString ''$$Infinity'']))
   \<and> save integers [(''basic-valid-2015.json'', JArray [JNumber (Finite 1), JInfinity])] Map.empty
        ''other.json''
     = None
   \<and> load integers
        (save integers [(''basic-valid-2015.json'', JArray [JNumber (Finite 1), JInfinity])] Map.empty)
        [''basic-valid-2015.json''] []
     = Some [(''basic-valid-2015.json'', JArray [JNumber (Finite 1), JInfinity])]"
proof -
  let ?d = "[(''basic-valid-2015.json'', JArray [JNumber (Finite (1 :: int)), JInfinity])]"
  have proto: "''__proto__'' \<notin> fst ` set ?d" by simp
  note t = save_then_load [OF integers_read_back fixture_record [THEN conjunct1]
      fixture_record [THEN conjunct2, THEN conjunct1]
      fixture_record [THEN conjunct2, THEN conjunct2] proto, of Map.empty]
  from t [THEN conjunct1]
  have "save integers ?d Map.empty ''basic-valid-2015.json''
               = Some (Some (JSON_stringify integers (JArray [JNumber (Finite 1), JInfinity])))"
    by simp
  then have written: "save integers ?d Map.empty ''basic-valid-2015.json''
               = Some (Some (TArray [TNumber 1, TString ''$$Infinity'']))"
    by (simp add: stringify_simps integers_def)
  from t [THEN conjunct2, THEN conjunct1]
  have other: "save integers ?d Map.empty ''other.json'' = None"
    by simp
  from t [THEN conjunct2, THEN conjunct2]
  have "load integers (save integers ?d Map.empty) [''basic-valid-2015.json''] [] = Some ?d"
    by (simp only: list.map fst_conv)
  with written other show ?thesis
    by (intro conjI)
qed

section \<open>What the declarations give\<close>

lemmas discriminants =
  is_RegExpLiteral_def is_Pattern_def is_Alternative_def is_DisjunctionAlternative_def
  is_StringAlternative_def is_Group_def is_CapturingGroup_def is_LookaheadAssertion_def
  is_LookbehindAssertion_def is_LookaroundAssertion_def is_Quantifier_def is_CharacterClass_def
  is_ClassRangesCharacterClass_def is_UnicodeSetsCharacterClass_def is_CharacterClassRange_def
  is_EdgeAssertion_def is_WordBoundaryAssertion_def is_BoundaryAssertion_def is_Assertion_def
  is_AnyCharacterSet_def is_EscapeCharacterSet_def is_UnicodePropertyCharacterSet_def
  is_StringsUnicodePropertyCharacterSet_def is_CharacterSet_def is_ExpressionCharacterClass_def
  is_ClassIntersection_def is_ClassSubtraction_def is_ClassStringDisjunction_def is_Character_def
  is_Backreference_def is_Flags_def is_QuantifiableElement_def is_Element_def
  is_ClassRangesCharacterClassElement_def is_UnicodeSetsCharacterClassElement_def
  is_ClassSetOperand_def

lemmas typing =
  well_typed_def conforms_def structure_ok_def links_ok_def node_at_def parent_is_def
  parent_null_or_def

lemma well_typedD:
  "well_typed st \<Longrightarrow> (a, n) \<in> set st \<Longrightarrow> structure_ok st n \<and> links_ok st n"
  by (auto simp: well_typed_def conforms_def list_all_iff)

lemma node_atD: "node_at st T a \<Longrightarrow> \<exists>e. map_of st a = Some e \<and> T (shape e)"
  by (auto simp: node_at_def split: option.splits)

lemma node_at_iff: "node_at st T a \<longleftrightarrow> (\<exists>e. map_of st a = Some e \<and> T (shape e))"
  by (auto simp: node_at_def split: option.splits)

lemma quantifiable_excludes:
  "is_QuantifiableElement s \<Longrightarrow>
     \<not> is_LookbehindAssertion s \<and> \<not> is_EdgeAssertion s \<and> \<not> is_WordBoundaryAssertion s
     \<and> \<not> is_Quantifier s"
  by (cases s) (simp_all add: discriminants)

lemma operand_plain:
  "is_ClassSetOperand s \<Longrightarrow> \<not> is_ClassIntersection s \<and> \<not> is_ClassSubtraction s"
  by (cases s) (simp_all add: discriminants)

lemma tree_A_well_typed: "well_typed tree_A"
  by code_simp

lemma tree_E_well_typed: "well_typed tree_E"
  by code_simp

lemma tree_P_well_typed: "well_typed tree_P"
  by code_simp

text \<open>
  Claim C3. In a tree that conforms to the declarations, the \<^verbatim>\<open>element\<close> of every
  \<^verbatim>\<open>Quantifier\<close> is a node of one of the eight variants of \<^verbatim>\<open>QuantifiableElement\<close>
  (\<^verbatim>\<open>Backreference\<close>, \<^verbatim>\<open>CapturingGroup\<close>, \<^verbatim>\<open>Character\<close>, \<^verbatim>\<open>CharacterClass\<close>, \<^verbatim>\<open>CharacterSet\<close>,
  \<^verbatim>\<open>ExpressionCharacterClass\<close>, \<^verbatim>\<open>Group\<close>, \<^verbatim>\<open>LookaheadAssertion\<close>); it is never a lookbehind
  assertion nor a boundary assertion (edge or word boundary). The eight variants are
  exactly what is asked of the element: a \<^verbatim>\<open>Quantifier\<close> node has its declared structure if
  and only if its parent is a \<^verbatim>\<open>DisjunctionAlternative\<close> and its element is one of them.
\<close>

theorem quantifier_element_closure:
  assumes "well_typed st" and "(a, n) \<in> set st"
    and "shape n = Quantifier mn mx greedy element"
  shows "(\<exists>e. map_of st element = Some e
           \<and> (is_Backreference (shape e) \<or> is_CapturingGroup (shape e) \<or> is_Character (shape e)
                \<or> is_CharacterClass (shape e) \<or> is_CharacterSet (shape e)
                \<or> is_ExpressionCharacterClass (shape e) \<or> is_Group (shape e)
                \<or> is_LookaheadAssertion (shape e))
           \<and> \<not> is_LookbehindAssertion (shape e)
           \<and> \<not> is_BoundaryAssertion (shape e))
       \<and> (structure_ok st n \<longleftrightarrow>
            parent_is st is_DisjunctionAlternative n
            \<and> (\<exists>e. map_of st element = Some e
                 \<and> (is_Backreference (shape e) \<or> is_CapturingGroup (shape e)
                      \<or> is_Character (shape e) \<or> is_CharacterClass (shape e)
                      \<or> is_CharacterSet (shape e) \<or> is_ExpressionCharacterClass (shape e)
                      \<or> is_Group (shape e) \<or> is_LookaheadAssertion (shape e))))"
proof
  from well_typedD [OF assms(1,2)] assms(3)
  have "node_at st is_QuantifiableElement element"
    by (simp add: structure_ok_def)
  then obtain e where e: "map_of st element = Some e" "is_QuantifiableElement (shape e)"
    by (auto dest: node_atD)
  from quantifiable_excludes [OF e(2)] e
  show "\<exists>e. map_of st element = Some e
           \<and> (is_Backreference (shape e) \<or> is_CapturingGroup (shape e) \<or> is_Character (shape e)
                \<or> is_CharacterClass (shape e) \<or> is_CharacterSet (shape e)
                \<or> is_ExpressionCharacterClass (shape e) \<or> is_Group (shape e)
                \<or> is_LookaheadAssertion (shape e))
           \<and> \<not> is_LookbehindAssertion (shape e)
           \<and> \<not> is_BoundaryAssertion (shape e)"
    by (auto simp: is_QuantifiableElement_def is_BoundaryAssertion_def)
  show "structure_ok st n \<longleftrightarrow>
            parent_is st is_DisjunctionAlternative n
            \<and> (\<exists>e. map_of st element = Some e
                 \<and> (is_Backreference (shape e) \<or> is_CapturingGroup (shape e)
                      \<or> is_Character (shape e) \<or> is_CharacterClass (shape e)
                      \<or> is_CharacterSet (shape e) \<or> is_ExpressionCharacterClass (shape e)
                      \<or> is_Group (shape e) \<or> is_LookaheadAssertion (shape e)))"
    using assms(3)
    by (simp add: structure_ok_def node_at_iff is_QuantifiableElement_def)
qed

theorem quantifier_element_closure_witness:
  "well_typed tree_A
   \<and> map_of tree_A [0, 0, 0]
       = Some \<lparr>parent = Some [0, 0], start = 1, end' = 6, raw = ''a{2,}'',
               shape = Quantifier 2 \<infinity> True [0, 0, 0, 0]\<rparr>
   \<and> (\<exists>e. map_of tree_A [0, 0, 0, 0] = Some e \<and> is_Character (shape e)
          \<and> \<not> is_LookbehindAssertion (shape e) \<and> \<not> is_BoundaryAssertion (shape e))"
proof -
  have n: "([0, 0, 0], \<lparr>parent = Some [0, 0], start = 1, end' = 6, raw = ''a{2,}'',
               shape = Quantifier 2 \<infinity> True [0, 0, 0, 0]\<rparr>) \<in> set tree_A"
    by (simp add: tree_A_def)
  from quantifier_element_closure [OF tree_A_well_typed n]
  obtain e where e: "map_of tree_A [0, 0, 0, 0] = Some e"
    "\<not> is_LookbehindAssertion (shape e)" "\<not> is_BoundaryAssertion (shape e)"
    by auto
  from e(1) have "is_Character (shape e)"
    by (auto simp: tree_A_def is_Character_def)
  with e tree_A_well_typed show ?thesis
    by (simp add: tree_A_def)
qed

text \<open>
  Claim C6. In a tree that conforms to the declarations, the \<^verbatim>\<open>left\<close> of a
  \<^verbatim>\<open>ClassIntersection\<close> is another \<^verbatim>\<open>ClassIntersection\<close> or a plain \<^verbatim>\<open>ClassSetOperand\<close> and
  its \<^verbatim>\<open>right\<close> is a plain \<^verbatim>\<open>ClassSetOperand\<close>, never an intersection or a subtraction;
  and likewise for a \<^verbatim>\<open>ClassSubtraction\<close>, whose \<^verbatim>\<open>left\<close> is another \<^verbatim>\<open>ClassSubtraction\<close>
  or a plain operand.
\<close>

theorem set_operator_asymmetry:
  assumes "well_typed st" and "(a, n) \<in> set st"
  shows "(\<forall>left right. shape n = ClassIntersection left right \<longrightarrow>
            (\<exists>l r. map_of st left = Some l \<and> map_of st right = Some r
               \<and> (is_ClassIntersection (shape l) \<or> is_ClassSetOperand (shape l))
               \<and> \<not> is_ClassSubtraction (shape l)
               \<and> is_ClassSetOperand (shape r)
               \<and> \<not> is_ClassIntersection (shape r) \<and> \<not> is_ClassSubtraction (shape r)))
       \<and> (\<forall>left right. shape n = ClassSubtraction left right \<longrightarrow>
            (\<exists>l r. map_of st left = Some l \<and> map_of st right = Some r
               \<and> (is_ClassSubtraction (shape l) \<or> is_ClassSetOperand (shape l))
               \<and> \<not> is_ClassIntersection (shape l)
               \<and> is_ClassSetOperand (shape r)
               \<and> \<not> is_ClassIntersection (shape r) \<and> \<not> is_ClassSubtraction (shape r)))"
proof (intro conjI allI impI)
  note ok = well_typedD [OF assms, THEN conjunct1]
  {
    fix left right assume "shape n = ClassIntersection left right"
    with ok have "node_at st (\<lambda>l. is_ClassIntersection l \<or> is_ClassSetOperand l) left"
      "node_at st is_ClassSetOperand right"
      by (simp_all add: structure_ok_def)
    then obtain l r where "map_of st left = Some l" "map_of st right = Some r"
      "is_ClassIntersection (shape l) \<or> is_ClassSetOperand (shape l)" "is_ClassSetOperand (shape r)"
      by (auto simp: node_at_iff)
    then show "\<exists>l r. map_of st left = Some l \<and> map_of st right = Some r
               \<and> (is_ClassIntersection (shape l) \<or> is_ClassSetOperand (shape l))
               \<and> \<not> is_ClassSubtraction (shape l)
               \<and> is_ClassSetOperand (shape r)
               \<and> \<not> is_ClassIntersection (shape r) \<and> \<not> is_ClassSubtraction (shape r)"
      using operand_plain [of "shape l"] operand_plain [of "shape r"]
      by (cases "shape l") (auto simp: is_ClassIntersection_def is_ClassSubtraction_def)
  next
    fix left right assume "shape n = ClassSubtraction left right"
    with ok have "node_at st (\<lambda>l. is_ClassSetOperand l \<or> is_ClassSubtraction l) left"
      "node_at st is_ClassSetOperand right"
      by (simp_all add: structure_ok_def)
    then obtain l r where "map_of st left = Some l" "map_of st right = Some r"
      "is_ClassSubtraction (shape l) \<or> is_ClassSetOperand (shape l)" "is_ClassSetOperand (shape r)"
      by (auto simp: node_at_iff)
    then show "\<exists>l r. map_of st left = Some l \<and> map_of st right = Some r
               \<and> (is_ClassSubtraction (shape l) \<or> is_ClassSetOperand (shape l))
               \<and> \<not> is_ClassIntersection (shape l)
               \<and> is_ClassSetOperand (shape r)
               \<and> \<not> is_ClassIntersection (shape r) \<and> \<not> is_ClassSubtraction (shape r)"
      using operand_plain [of "shape l"] operand_plain [of "shape r"]
      by (cases "shape l") (auto simp: is_ClassIntersection_def is_ClassSubtraction_def)
  }
qed

theorem set_operator_asymmetry_witness:
  "well_typed tree_E
   \<and> map_of tree_E [0, 0, 0, 0]
       = Some \<lparr>parent = Some [0, 0, 0], start = 2, end' = 6, raw = ''a--b'',
               shape = ClassSubtraction [0, 0, 0, 0, 0] [0, 0, 0, 0, 1]\<rparr>
   \<and> (\<exists>l r. map_of tree_E [0, 0, 0, 0, 0] = Some l \<and> map_of tree_E [0, 0, 0, 0, 1] = Some r
          \<and> is_ClassSetOperand (shape l) \<and> is_ClassSetOperand (shape r)
          \<and> \<not> is_ClassIntersection (shape r) \<and> \<not> is_ClassSubtraction (shape r))"
proof -
  have n: "([0, 0, 0, 0], \<lparr>parent = Some [0, 0, 0], start = 2, end' = 6, raw = ''a--b'',
               shape = ClassSubtraction [0, 0, 0, 0, 0] [0, 0, 0, 0, 1]\<rparr>) \<in> set tree_E"
    by (simp add: tree_E_def)
  from set_operator_asymmetry [OF tree_E_well_typed n]
  obtain l r where lr: "map_of tree_E [0, 0, 0, 0, 0] = Some l"
    "map_of tree_E [0, 0, 0, 0, 1] = Some r"
    "is_ClassSetOperand (shape r)" "\<not> is_ClassIntersection (shape r)"
    "\<not> is_ClassSubtraction (shape r)"
    by auto
  from lr(1) have "is_ClassSetOperand (shape l)"
    by (auto simp: tree_E_def is_ClassSetOperand_def is_Character_def)
  with lr tree_E_well_typed show ?thesis
    by (simp add: tree_E_def)
qed

text \<open>
  Claim C9. In a tree that conforms to the declarations, a
  \<^verbatim>\<open>UnicodePropertyCharacterSet\<close> with \<^verbatim>\<open>strings\<close> true has \<^verbatim>\<open>value\<close> null and \<^verbatim>\<open>negate\<close>
  false.
\<close>

theorem strings_property_shape:
  assumes "well_typed st" and "(a, n) \<in> set st"
    and "is_StringsUnicodePropertyCharacterSet (shape n)"
  shows "\<exists>key. shape n = BaseUnicodePropertyCharacterSet True key None False"
  using well_typedD [OF assms(1,2)] assms(3)
  by (cases "shape n") (simp_all add: structure_ok_def is_StringsUnicodePropertyCharacterSet_def)

theorem strings_property_shape_witness:
  "well_typed tree_P
   \<and> map_of tree_P [0, 0, 0]
       = Some \<lparr>parent = Some [0, 0], start = 1, end' = 14, raw = CHR 0x5C # ''p{RGI_Emoji}'',
               shape = BaseUnicodePropertyCharacterSet True ''RGI_Emoji'' None False\<rparr>
   \<and> is_StringsUnicodePropertyCharacterSet
        (BaseUnicodePropertyCharacterSet True ''RGI_Emoji'' None False)
   \<and> (\<exists>key. BaseUnicodePropertyCharacterSet True ''RGI_Emoji'' None False
              = BaseUnicodePropertyCharacterSet True key None False)
   \<and> \<not> well_typed
        (tree_P [3 := ([0, 0, 0],
           \<lparr>parent = Some [0, 0], start = 1, end' = 14, raw = CHR 0x5C # ''P{RGI_Emoji}'',
             shape = BaseUnicodePropertyCharacterSet True ''RGI_Emoji'' None True\<rparr>)])"
proof -
  let ?n = "\<lparr>parent = Some [0, 0], start = 1, end' = 14, raw = CHR 0x5C # ''p{RGI_Emoji}'',
               shape = BaseUnicodePropertyCharacterSet True ''RGI_Emoji'' None False\<rparr>"
  have n: "([0, 0, 0], ?n) \<in> set tree_P" and look: "map_of tree_P [0, 0, 0] = Some ?n"
    by (simp_all add: tree_P_def)
  have s: "is_StringsUnicodePropertyCharacterSet (shape ?n)"
    by (simp add: is_StringsUnicodePropertyCharacterSet_def)
  have neg: "\<not> well_typed
        (tree_P [3 := ([0, 0, 0],
           \<lparr>parent = Some [0, 0], start = 1, end' = 14, raw = CHR 0x5C # ''P{RGI_Emoji}'',
             shape = BaseUnicodePropertyCharacterSet True ''RGI_Emoji'' None True\<rparr>)])"
    by code_simp
  from strings_property_shape [OF tree_P_well_typed n s]
  have "\<exists>key. BaseUnicodePropertyCharacterSet True ''RGI_Emoji'' None False
              = BaseUnicodePropertyCharacterSet True key None False"
    by simp
  with tree_P_well_typed look s neg show ?thesis by simp
qed

text \<open>
  In a tree that conforms to the declarations, the \<^verbatim>\<open>parent\<close> of a
  \<^verbatim>\<open>LookbehindAssertion\<close> is a \<^verbatim>\<open>DisjunctionAlternative\<close>; it is never a \<^verbatim>\<open>Quantifier\<close>.
\<close>

theorem lookbehind_parent:
  assumes "well_typed st" and "(a, n) \<in> set st"
    and "shape n = LookbehindAssertion negate alternatives"
  shows "\<exists>p pn. parent n = Some p \<and> map_of st p = Some pn
           \<and> is_DisjunctionAlternative (shape pn) \<and> \<not> is_Quantifier (shape pn)"
proof -
  from well_typedD [OF assms(1,2)] assms(3)
  have "parent_is st is_DisjunctionAlternative n"
    by (simp add: structure_ok_def)
  then obtain p pn where "parent n = Some p" "map_of st p = Some pn"
    "is_DisjunctionAlternative (shape pn)"
    by (auto simp: parent_is_def node_at_def split: option.splits)
  moreover from this(3) have "\<not> is_Quantifier (shape pn)"
    by (cases "shape pn") (simp_all add: discriminants)
  ultimately show ?thesis by blast
qed

theorem lookbehind_parent_witness:
  "well_typed tree_L
   \<and> map_of tree_L [0, 0, 0]
       = Some \<lparr>parent = Some [0, 0], start = 1, end' = 7, raw = ''(?<=a)'',
               shape = LookbehindAssertion False [[0, 0, 0, 0]]\<rparr>
   \<and> (\<exists>pn. map_of tree_L [0, 0] = Some pn
          \<and> is_DisjunctionAlternative (shape pn) \<and> \<not> is_Quantifier (shape pn))"
proof -
  let ?n = "\<lparr>parent = Some [0, 0], start = 1, end' = 7, raw = ''(?<=a)'',
               shape = LookbehindAssertion False [[0, 0, 0, 0]]\<rparr>"
  have wt: "well_typed tree_L" by code_simp
  have n: "([0, 0, 0], ?n) \<in> set tree_L" and look: "map_of tree_L [0, 0, 0] = Some ?n"
    by (simp_all add: tree_L_def)
  from lookbehind_parent [OF wt n, of False "[[0, 0, 0, 0]]"]
  have "\<exists>pn. map_of tree_L [0, 0] = Some pn
          \<and> is_DisjunctionAlternative (shape pn) \<and> \<not> is_Quantifier (shape pn)"
    by simp
  with wt look show ?thesis by simp
qed

text \<open>
  In a tree that conforms to the declarations, the elements of a \<^verbatim>\<open>StringAlternative\<close>
  are \<^verbatim>\<open>Character\<close> nodes and its \<^verbatim>\<open>parent\<close> is a \<^verbatim>\<open>ClassStringDisjunction\<close>.
\<close>

theorem string_alternative_characters:
  assumes "well_typed st" and "(a, n) \<in> set st"
    and "shape n = BaseAlternative True elements"
  shows "(\<forall>e \<in> set elements. \<exists>x v. map_of st e = Some x \<and> shape x = Character v)
       \<and> (\<exists>p pn. parent n = Some p \<and> map_of st p = Some pn
             \<and> is_ClassStringDisjunction (shape pn))"
proof -
  from well_typedD [OF assms(1,2)] assms(3)
  have par: "parent_is st is_ClassStringDisjunction n"
    and els: "list_all (node_at st is_Character) elements"
    by (simp_all add: structure_ok_def)
  have "\<exists>x v. map_of st e = Some x \<and> shape x = Character v" if "e \<in> set elements" for e
  proof -
    from els that have "node_at st is_Character e" by (simp add: list_all_iff)
    then obtain x where "map_of st e = Some x" "is_Character (shape x)"
      by (auto dest: node_atD)
    then show ?thesis by (cases "shape x") (simp_all add: is_Character_def)
  qed
  moreover from par have "\<exists>p pn. parent n = Some p \<and> map_of st p = Some pn
             \<and> is_ClassStringDisjunction (shape pn)"
    by (auto simp: parent_is_def node_at_def split: option.splits)
  ultimately show ?thesis by blast
qed

theorem string_alternative_characters_witness:
  "well_typed tree_Q
   \<and> map_of tree_Q [0, 0, 0, 0, 0]
       = Some \<lparr>parent = Some [0, 0, 0, 0], start = 5, end' = 6, raw = ''a'',
               shape = BaseAlternative True [[0, 0, 0, 0, 0, 0]]\<rparr>
   \<and> (\<exists>x v. map_of tree_Q [0, 0, 0, 0, 0, 0] = Some x \<and> shape x = Character v)
   \<and> (\<exists>pn. map_of tree_Q [0, 0, 0, 0] = Some pn \<and> is_ClassStringDisjunction (shape pn))"
proof -
  let ?n = "\<lparr>parent = Some [0, 0, 0, 0], start = 5, end' = 6, raw = ''a'',
               shape = BaseAlternative True [[0, 0, 0, 0, 0, 0]]\<rparr>"
  have wt: "well_typed tree_Q" by code_simp
  have n: "([0, 0, 0, 0, 0], ?n) \<in> set tree_Q"
    and look: "map_of tree_Q [0, 0, 0, 0, 0] = Some ?n"
    by (simp_all add: tree_Q_def)
  from string_alternative_characters [OF wt n, of "[[0, 0, 0, 0, 0, 0]]"]
  have "(\<exists>x v. map_of tree_Q [0, 0, 0, 0, 0, 0] = Some x \<and> shape x = Character v)
      \<and> (\<exists>pn. map_of tree_Q [0, 0, 0, 0] = Some pn \<and> is_ClassStringDisjunction (shape pn))"
    by simp
  with wt look show ?thesis by simp
qed

lemma conforming_parents:
  assumes "well_typed st" and "(a, n) \<in> set st"
  shows "(is_RegExpLiteral (shape n) \<longrightarrow> parent n = None)
       \<and> (parent n = None \<longrightarrow>
            is_RegExpLiteral (shape n) \<or> is_Pattern (shape n) \<or> is_Flags (shape n))
       \<and> (is_Pattern (shape n) \<or> is_Flags (shape n) \<longrightarrow>
            parent n = None \<or> (\<exists>p. parent n = Some p \<and> node_at st is_RegExpLiteral p))"
proof -
  from well_typedD [OF assms] have ok: "structure_ok st n" by simp
  then show ?thesis
    by (cases "shape n")
       (auto simp: structure_ok_def parent_is_def parent_null_or_def discriminants
             split: option.splits if_splits)
qed

text \<open>
  The declarations leave three kinds of node that may have a null \<^verbatim>\<open>parent\<close>. In a tree
  that conforms to them a \<^verbatim>\<open>RegExpLiteral\<close> has a null \<^verbatim>\<open>parent\<close>; a node with a null
  \<^verbatim>\<open>parent\<close> is a \<^verbatim>\<open>RegExpLiteral\<close>, a \<^verbatim>\<open>Pattern\<close> or a \<^verbatim>\<open>Flags\<close> (\<^verbatim>\<open>Pattern.parent\<close> and
  \<^verbatim>\<open>Flags.parent\<close> are declared \<^verbatim>\<open>RegExpLiteral | null\<close>); and the \<^verbatim>\<open>parent\<close> of a \<^verbatim>\<open>Pattern\<close> or
  a \<^verbatim>\<open>Flags\<close> is null or a \<^verbatim>\<open>RegExpLiteral\<close>.
\<close>

theorem declared_null_parents:
  assumes "well_typed st" and "(a, n) \<in> set st"
  shows "(is_RegExpLiteral (shape n) \<longrightarrow> parent n = None)
       \<and> (parent n = None \<longrightarrow>
            is_RegExpLiteral (shape n) \<or> is_Pattern (shape n) \<or> is_Flags (shape n))
       \<and> (is_Pattern (shape n) \<or> is_Flags (shape n) \<longrightarrow>
            parent n = None \<or> (\<exists>p. parent n = Some p \<and> node_at st is_RegExpLiteral p))"
  using conforming_parents [OF assms] .

theorem declared_null_parents_witness:
  "well_typed standalone_pattern
   \<and> map_of standalone_pattern []
       = Some \<lparr>parent = None, start = 0, end' = 1, raw = ''a'', shape = Pattern [[0]]\<rparr>
   \<and> is_Pattern (Pattern [[0]])
   \<and> well_typed tree_A
   \<and> map_of tree_A [0]
       = Some \<lparr>parent = Some [], start = 1, end' = 6, raw = ''a{2,}'', shape = Pattern [[0, 0]]\<rparr>
   \<and> node_at tree_A is_RegExpLiteral []"
proof -
  let ?s = "\<lparr>parent = None, start = 0, end' = 1, raw = ''a'', shape = Pattern [[0]]\<rparr>"
  let ?p = "\<lparr>parent = Some [], start = 1, end' = 6, raw = ''a{2,}'', shape = Pattern [[0, 0]]\<rparr>"
  have wt: "well_typed standalone_pattern" by code_simp
  have s: "([], ?s) \<in> set standalone_pattern" and look_s: "map_of standalone_pattern [] = Some ?s"
    by (simp_all add: standalone_pattern_def)
  have p: "([0], ?p) \<in> set tree_A" and look_p: "map_of tree_A [0] = Some ?p"
    by (simp_all add: tree_A_def)
  from declared_null_parents [OF wt s] have "is_Pattern (Pattern [[0]])"
    by (simp add: is_RegExpLiteral_def is_Flags_def)
  moreover from declared_null_parents [OF tree_A_well_typed p]
  have "node_at tree_A is_RegExpLiteral []"
    by (simp add: is_Pattern_def)
  ultimately show ?thesis
    using wt tree_A_well_typed look_s look_p by simp
qed

section \<open>What the builder gives\<close>

subsection \<open>Addresses and parents of the allocated nodes\<close>

lemma attach_entries:
  "(a, n) \<in> set (attach par me t) \<longleftrightarrow>
     (a = me \<and> n = allocate par me t)
     \<or> (\<exists>i x. (i, x) \<in> set (List.enumerate 0 (children t))
                \<and> (a, n) \<in> set (attach (Some me) (me @ [i]) x))"
  by (subst attach.simps) auto

lemma attach_parent:
  "(a, n) \<in> set (attach par me t) \<Longrightarrow> par \<noteq> None \<Longrightarrow> parent n \<noteq> None"
proof (induction par me t arbitrary: a n rule: attach.induct)
  case (1 par me t)
  from "1.prems"(1) show ?case
    unfolding attach_entries [of a n par me t]
  proof (elim disjE exE conjE)
    assume "a = me" "n = allocate par me t"
    with "1.prems"(2) show ?thesis by (simp add: allocate_def)
  next
    fix i x
    assume "(i, x) \<in> set (List.enumerate 0 (children t))"
      and "(a, n) \<in> set (attach (Some me) (me @ [i]) x)"
    then show ?thesis using "1.IH" by blast
  qed
qed

lemma shape_of_not_literal: "\<not> is_RegExpLiteral (shape_of me t) \<and> \<not> is_Flags (shape_of me t)"
  by (cases t) (simp_all add: is_RegExpLiteral_def is_Flags_def)

lemma attach_shape_of:
  "(a, n) \<in> set (attach par me t) \<Longrightarrow> \<exists>x. shape n = shape_of a x \<and> start n = fst (src_of x)
      \<and> end' n = fst (snd (src_of x))"
proof (induction par me t arbitrary: a n rule: attach.induct)
  case (1 par me t)
  from "1.prems"(1) show ?case
    unfolding attach_entries [of a n par me t]
  proof (elim disjE exE conjE)
    assume "a = me" "n = allocate par me t"
    then show ?thesis by (auto simp: allocate_def)
  next
    fix i x
    assume "(i, x) \<in> set (List.enumerate 0 (children t))"
      and "(a, n) \<in> set (attach (Some me) (me @ [i]) x)"
    then show ?thesis using "1.IH" by blast
  qed
qed

lemma attach_prefix:
  "(a, n) \<in> set (attach par me t) \<Longrightarrow> prefix me a"
proof (induction par me t arbitrary: a n rule: attach.induct)
  case (1 par me t)
  from "1.prems"(1) show ?case
    unfolding attach_entries [of a n par me t]
  proof (elim disjE exE conjE)
    assume "a = me" "n = allocate par me t"
    then show ?thesis by simp
  next
    fix i x
    assume "(i, x) \<in> set (List.enumerate 0 (children t))"
      and "(a, n) \<in> set (attach (Some me) (me @ [i]) x)"
    then have "prefix (me @ [i]) a" using "1.IH" by blast
    then show ?thesis by (rule append_prefixD)
  qed
qed

lemma distinct_concat_keyed:
  assumes "distinct (map fst ixs)"
    and "\<And>i x. (i, x) \<in> set ixs \<Longrightarrow> distinct (map fst (f i x))"
    and "\<And>i x a. (i, x) \<in> set ixs \<Longrightarrow> a \<in> fst ` set (f i x) \<Longrightarrow> prefix (me @ [i]) a"
  shows "distinct (map fst (concat (map (\<lambda>(i, x). f i x) ixs)))"
  using assms
proof (induction ixs)
  case Nil
  then show ?case by simp
next
  case (Cons p ixs)
  obtain i x where p: "p = (i, x)" by (cases p)
  have tl: "distinct (map fst (concat (map (\<lambda>(i, x). f i x) ixs)))"
  proof (rule Cons.IH)
    show "distinct (map fst ixs)" using Cons.prems(1) by simp
  next
    fix i x assume "(i, x) \<in> set ixs"
    then show "distinct (map fst (f i x))" using Cons.prems(2) [of i x] by auto
  next
    fix i x a assume "(i, x) \<in> set ixs" "a \<in> fst ` set (f i x)"
    then show "prefix (me @ [i]) a" using Cons.prems(3) [of i x a] by auto
  qed
  have hd: "distinct (map fst (f i x))" using Cons.prems(2) p by simp
  have disj: "fst ` set (f i x) \<inter> fst ` set (concat (map (\<lambda>(i, x). f i x) ixs)) = {}"
  proof (rule ccontr)
    assume "\<not> ?thesis"
    then obtain a where a1: "a \<in> fst ` set (f i x)"
      and a2: "a \<in> fst ` set (concat (map (\<lambda>(i, x). f i x) ixs))" by blast
    from a2 obtain j y where jy: "(j, y) \<in> set ixs" "a \<in> fst ` set (f j y)"
      by auto
    have "prefix (me @ [i]) a" using Cons.prems(3) [of i x a] a1 p by simp
    moreover have "prefix (me @ [j]) a" using Cons.prems(3) [of j y a] jy by simp
    ultimately have "i = j"
      by (auto simp: prefix_def append_eq_append_conv2 Cons_eq_append_conv)
    moreover have "i \<notin> fst ` set ixs" using Cons.prems(1) p by simp
    ultimately show False using jy(1) by force
  qed
  show ?case using tl hd disj by (simp add: p)
qed

lemma attach_distinct: "distinct (map fst (attach par me t))"
proof (induction par me t rule: attach.induct)
  case (1 par me t)
  let ?kids = "concat (map (\<lambda>(i, x). attach (Some me) (me @ [i]) x) (List.enumerate 0 (children t)))"
  have kids: "distinct (map fst ?kids)"
  proof (rule distinct_concat_keyed [where me = me])
    show "distinct (map fst (List.enumerate 0 (children t)))" by simp
  next
    fix i x assume "(i, x) \<in> set (List.enumerate 0 (children t))"
    then show "distinct (map fst (attach (Some me) (me @ [i]) x))" using "1.IH" by blast
  next
    fix i x a
    assume "a \<in> fst ` set (attach (Some me) (me @ [i]) x)"
    then show "prefix (me @ [i]) a" by (auto dest: attach_prefix)
  qed
  have "me \<notin> fst ` set ?kids"
    by (auto dest!: attach_prefix simp: prefix_def)
  with kids show ?case by (subst attach.simps) simp
qed

subsection \<open>A build that succeeds\<close>

lemma construct_entries:
  "(a, n) \<in> set (construct (Literal s p fs f1 f2 f3 f4 f5 f6 f7 f8)) \<longleftrightarrow>
     (a = [] \<and> n = \<lparr>parent = None, start = fst s, end' = fst (snd s), raw = snd (snd s),
                      shape = RegExpLiteral [0] [1]\<rparr>)
     \<or> (a, n) \<in> set (attach (Some []) [0] p)
     \<or> (a = [1] \<and> n = \<lparr>parent = Some [], start = fst fs, end' = fst (snd fs),
                         raw = snd (snd fs), shape = Flags f1 f2 f3 f4 f5 f6 f7 f8\<rparr>)"
  by auto

lemma construct_distinct: "distinct (map fst (construct lit))"
proof (cases lit)
  case (Literal s p fs f1 f2 f3 f4 f5 f6 f7 f8)
  have "[] \<notin> fst ` set (attach (Some []) [0] p)" "[1] \<notin> fst ` set (attach (Some []) [0] p)"
    by (auto dest!: attach_prefix simp: prefix_def)
  then show ?thesis
    by (simp add: Literal attach_distinct)
qed

lemma construct_root:
  "(a, n) \<in> set (construct lit) \<Longrightarrow>
     (parent n = None \<longleftrightarrow> a = []) \<and> (is_RegExpLiteral (shape n) \<longleftrightarrow> a = [])"
proof (cases lit)
  case (Literal s p fs f1 f2 f3 f4 f5 f6 f7 f8)
  assume "(a, n) \<in> set (construct lit)"
  then consider (root) "a = []" "parent n = None" "is_RegExpLiteral (shape n)"
    | (inner) "(a, n) \<in> set (attach (Some []) [0] p)"
    | (flags) "a = [1]" "parent n = Some []" "is_Flags (shape n)"
    unfolding Literal construct_entries by (auto simp: is_RegExpLiteral_def is_Flags_def)
  then show ?thesis
  proof cases
    case root
    then show ?thesis by simp
  next
    case inner
    from attach_prefix [OF inner] have "a \<noteq> []" by (auto simp: prefix_def)
    moreover from attach_parent [OF inner] have "parent n \<noteq> None" by simp
    moreover from attach_shape_of [OF inner] have "\<not> is_RegExpLiteral (shape n)"
      using shape_of_not_literal by auto
    ultimately show ?thesis by simp
  next
    case flags
    then show ?thesis by (auto simp: is_RegExpLiteral_def is_Flags_def split: shape.splits)
  qed
qed

lemma first_error_None:
  "first_error m st xs = None \<Longrightarrow> (a, n) \<in> set xs \<Longrightarrow> verdict m st n = None"
  by (induction xs) (auto split: option.splits)

lemma verdict_None:
  "verdict m st n = None \<longleftrightarrow> gate m (shape n) \<and> structure_ok st n \<and> range_ok st (shape n)"
  by (simp add: verdict_def)

lemma buildD:
  assumes "build m lit = Inr st'"
  shows "first_error m (construct lit) (construct lit) = None"
    and "dangling m (construct lit) = []"
    and "st' = map (\<lambda>(a, n). (a, link m (construct lit) a n)) (construct lit)"
  using assms
  by (auto simp: build_def resolve_def Let_def split: option.splits list.splits)

lemma map_of_linked:
  "map_of (map (\<lambda>(a, n). (a, f a n)) st) k = map_option (f k) (map_of st k)"
  by (induction st) auto

lemma link_base [simp]:
  "parent (link m st a n) = parent n" "start (link m st a n) = start n"
  "end' (link m st a n) = end' n" "raw (link m st a n) = raw n"
  by (simp_all add: link_def split: shape.splits)

lemma link_shape:
  "shape (link m st a n) =
     (case shape n of
        Backreference ref _ \<Rightarrow> Backreference ref (target m st a ref)
      | CapturingGroup name alternatives _ \<Rightarrow> CapturingGroup name alternatives (referrers m st a)
      | s \<Rightarrow> s)"
  by (simp add: link_def split: shape.splits)

lemma link_Quantifier [simp]:
  "shape (link m st a n) = Quantifier mn mx g e \<longleftrightarrow> shape n = Quantifier mn mx g e"
  by (simp add: link_shape split: shape.splits)

lemma link_CharacterClassRange [simp]:
  "shape (link m st a n) = CharacterClassRange lo hi \<longleftrightarrow> shape n = CharacterClassRange lo hi"
  by (simp add: link_shape split: shape.splits)

lemma link_Character [simp]:
  "shape (link m st a n) = Character v \<longleftrightarrow> shape n = Character v"
  by (simp add: link_shape split: shape.splits)

lemma link_Flags [simp]:
  "shape (link m st a n) = Flags f1 f2 f3 f4 f5 f6 f7 f8 \<longleftrightarrow> shape n = Flags f1 f2 f3 f4 f5 f6 f7 f8"
  by (simp add: link_shape split: shape.splits)

lemma link_BaseCharacterClass [simp]:
  "shape (link m st a n) = BaseCharacterClass u ng els \<longleftrightarrow> shape n = BaseCharacterClass u ng els"
  by (simp add: link_shape split: shape.splits)

lemma built_entries:
  assumes "build m lit = Inr st'"
  shows "(a, n') \<in> set st' \<longleftrightarrow> (\<exists>n. (a, n) \<in> set (construct lit) \<and> n' = link m (construct lit) a n)"
  unfolding buildD(3) [OF assms] by auto

lemma built_lookup:
  assumes "build m lit = Inr st'"
  shows "map_of st' a = map_option (link m (construct lit) a) (map_of (construct lit) a)"
  unfolding buildD(3) [OF assms] by (rule map_of_linked)

lemma built_checked:
  assumes "build m lit = Inr st'" and "(a, n) \<in> set (construct lit)"
  shows "gate m (shape n)" "structure_ok (construct lit) n" "range_ok (construct lit) (shape n)"
  using first_error_None [OF buildD(1) [OF assms(1)] assms(2)]
  by (simp_all add: verdict_None)

lemma code_point_Some:
  "node_at st is_Character a \<Longrightarrow> \<exists>e v. map_of st a = Some e \<and> shape e = Character v \<and> code_point st a = Some v"
  by (auto simp: node_at_def code_point_def is_Character_def split: option.splits shape.splits)

lemma link_kind:
  "is_ClassRangesCharacterClass (shape (link m st a n)) = is_ClassRangesCharacterClass (shape n)"
  "is_UnicodeSetsCharacterClass (shape (link m st a n)) = is_UnicodeSetsCharacterClass (shape n)"
  "is_CharacterClass (shape (link m st a n)) = is_CharacterClass (shape n)"
  "is_ClassStringDisjunction (shape (link m st a n)) = is_ClassStringDisjunction (shape n)"
  "is_ExpressionCharacterClass (shape (link m st a n)) = is_ExpressionCharacterClass (shape n)"
  "is_StringAlternative (shape (link m st a n)) = is_StringAlternative (shape n)"
  "is_StringsUnicodePropertyCharacterSet (shape (link m st a n))
     = is_StringsUnicodePropertyCharacterSet (shape n)"
  "is_ClassIntersection (shape (link m st a n)) = is_ClassIntersection (shape n)"
  "is_ClassSubtraction (shape (link m st a n)) = is_ClassSubtraction (shape n)"
  "is_ClassRangesCharacterClassElement (shape (link m st a n))
     = is_ClassRangesCharacterClassElement (shape n)"
  "is_Pattern (shape (link m st a n)) = is_Pattern (shape n)"
  "is_Flags (shape (link m st a n)) = is_Flags (shape n)"
  "is_RegExpLiteral (shape (link m st a n)) = is_RegExpLiteral (shape n)"
  "is_CapturingGroup (shape (link m st a n)) = is_CapturingGroup (shape n)"
  "is_Backreference (shape (link m st a n)) = is_Backreference (shape n)"
  by (cases "shape n"; simp add: link_shape discriminants)+

lemma gate_sets_only: "gate m s \<Longrightarrow> sets_only s \<Longrightarrow> unicodeSets m"
  by (cases s) (auto simp: gate_def sets_only_def discriminants split: if_splits)

lemma gate_class_ranges: "gate m s \<Longrightarrow> is_ClassRangesCharacterClass s \<Longrightarrow> \<not> unicodeSets m"
  by (cases s) (auto simp: gate_def discriminants)

lemma ranges_element_plain:
  "is_ClassRangesCharacterClassElement s \<Longrightarrow>
     \<not> is_ClassStringDisjunction s \<and> \<not> is_ExpressionCharacterClass s \<and> \<not> is_CharacterClass s"
  by (cases s) (simp_all add: discriminants)

lemma attach_hd: "(me, allocate par me t) \<in> set (attach par me t)"
  by (subst attach.simps) simp

lemma built_root:
  assumes "build m lit = Inr st"
  shows "\<exists>root p f pn fn.
           map_of st [] = Some root \<and> shape root = RegExpLiteral p f \<and> parent root = None
           \<and> map_of st p = Some pn \<and> is_Pattern (shape pn) \<and> parent pn = Some []
           \<and> map_of st f = Some fn \<and> is_Flags (shape fn) \<and> parent fn = Some []"
proof (cases lit)
  case (Literal s p fs f1 f2 f3 f4 f5 f6 f7 f8)
  let ?c = "construct lit"
  let ?root = "\<lparr>parent = None, start = fst s, end' = fst (snd s), raw = snd (snd s),
                 shape = RegExpLiteral [0] [1]\<rparr>"
  let ?pn = "allocate (Some []) [0] p"
  let ?fn = "\<lparr>parent = Some [], start = fst fs, end' = fst (snd fs), raw = snd (snd fs),
               shape = Flags f1 f2 f3 f4 f5 f6 f7 f8\<rparr>"
  have in_c: "([], ?root) \<in> set ?c" "([0], ?pn) \<in> set ?c" "([1], ?fn) \<in> set ?c"
    using attach_hd [of "[0]" "Some []" p] by (simp_all add: Literal)
  have look: "map_of ?c [] = Some ?root" "map_of ?c [0] = Some ?pn" "map_of ?c [1] = Some ?fn"
    using in_c construct_distinct [of lit] by (simp_all only: map_of_is_SomeI)
  from built_checked(2) [OF assms in_c(1)] look(2)
  have pat: "is_Pattern (shape ?pn)"
    by (simp add: structure_ok_def node_at_def)
  have "map_of st [] = Some (link m ?c [] ?root)" "map_of st [0] = Some (link m ?c [0] ?pn)"
       "map_of st [1] = Some (link m ?c [1] ?fn)"
    unfolding built_lookup [OF assms] look by simp_all
  moreover have "shape (link m ?c [] ?root) = RegExpLiteral [0] [1]"
    by (simp add: link_shape)
  moreover have "is_Pattern (shape (link m ?c [0] ?pn))" using pat by (simp add: link_kind)
  moreover have "is_Flags (shape (link m ?c [1] ?fn))" by (simp only: link_kind) (simp add: is_Flags_def)
  moreover have "parent (link m ?c [0] ?pn) = Some []" by (simp add: allocate_def)
  ultimately show ?thesis
    by (intro exI [of _ "link m ?c [] ?root"] exI [of _ "[0]"] exI [of _ "[1]"]
              exI [of _ "link m ?c [0] ?pn"] exI [of _ "link m ?c [1] ?fn"]) simp
qed

subsection \<open>Resolution\<close>

lemma descends_trans: "descends st a b \<Longrightarrow> descends st b c \<Longrightarrow> descends st a c"
  by (induction rule: descends.induct) (auto intro: descends.intros)

lemma attach_descends:
  assumes "distinct (map fst st)"
  shows "set (attach par me t) \<subseteq> set st \<Longrightarrow> (a, n) \<in> set (attach par me t) \<Longrightarrow> descends st a me"
proof (induction par me t arbitrary: a n rule: attach.induct)
  case (1 par me t)
  from "1.prems"(2) show ?case
    unfolding attach_entries [of a n par me t]
  proof (elim disjE exE conjE)
    assume "a = me"
    then show ?thesis by (simp add: descends.here)
  next
    fix i x
    assume ix: "(i, x) \<in> set (List.enumerate 0 (children t))"
      and an: "(a, n) \<in> set (attach (Some me) (me @ [i]) x)"
    have sub: "set (attach (Some me) (me @ [i]) x) \<subseteq> set st"
      using "1.prems"(1) ix by (subst (asm) attach.simps) auto
    have "descends st a (me @ [i])"
      using "1.IH" ix sub an by blast
    moreover have "(me @ [i], allocate (Some me) (me @ [i]) x) \<in> set st"
      using sub attach_hd by blast
    then have "map_of st (me @ [i]) = Some (allocate (Some me) (me @ [i]) x)"
      using assms by (rule map_of_is_SomeI [rotated])
    then have "descends st (me @ [i]) me"
      by (rule descends.up [OF _ _ descends.here]) (simp add: allocate_def)
    ultimately show ?thesis by (rule descends_trans)
  qed
qed

lemma descends_built:
  assumes "build m lit = Inr st'"
  shows "descends (construct lit) a b \<Longrightarrow> descends st' a b"
proof (induction rule: descends.induct)
  case (here a)
  then show ?case by (rule descends.here)
next
  case (up a n p b)
  have "map_of st' a = Some (link m (construct lit) a n)"
    by (simp add: built_lookup [OF assms] up.hyps(1))
  then show ?case
    by (rule descends.up [OF _ _ up.IH]) (simp add: up.hyps)
qed

lemma capturing_groups_iff:
  "g \<in> set (capturing_groups st) \<longleftrightarrow> (\<exists>gn. (g, gn) \<in> set st \<and> is_CapturingGroup (shape gn))"
proof
  assume "g \<in> set (capturing_groups st)"
  then show "\<exists>gn. (g, gn) \<in> set st \<and> is_CapturingGroup (shape gn)"
    by (auto simp: capturing_groups_def)
next
  assume "\<exists>gn. (g, gn) \<in> set st \<and> is_CapturingGroup (shape gn)"
  then obtain gn where "(g, gn) \<in> set st" "is_CapturingGroup (shape gn)" by blast
  then have "(g, gn) \<in> set (filter (\<lambda>(a, n). is_CapturingGroup (shape n)) st)" by simp
  then have "fst (g, gn) \<in> fst ` set (filter (\<lambda>(a, n). is_CapturingGroup (shape n)) st)"
    by (rule imageI)
  then show "g \<in> set (capturing_groups st)" by (simp add: capturing_groups_def)
qed

lemma names_group_iff:
  "names_group name s \<longleftrightarrow> (\<exists>alts refs. s = CapturingGroup (Some name) alts refs)"
  by (cases s) (auto simp: names_group_def)

lemma named_groups_iff:
  "g \<in> set (named_groups st name) \<longleftrightarrow> (\<exists>gn. (g, gn) \<in> set st \<and> names_group name (shape gn))"
proof
  assume "g \<in> set (named_groups st name)"
  then show "\<exists>gn. (g, gn) \<in> set st \<and> names_group name (shape gn)"
    by (auto simp: named_groups_def)
next
  assume "\<exists>gn. (g, gn) \<in> set st \<and> names_group name (shape gn)"
  then obtain gn where "(g, gn) \<in> set st" "names_group name (shape gn)" by blast
  then have "(g, gn) \<in> set (filter (\<lambda>(a, n). names_group name (shape n)) st)" by simp
  then have "fst (g, gn) \<in> fst ` set (filter (\<lambda>(a, n). names_group name (shape n)) st)"
    by (rule imageI)
  then show "g \<in> set (named_groups st name)" by (simp add: named_groups_def)
qed

lemma named_groups_subset: "set (named_groups st name) \<subseteq> set (capturing_groups st)"
proof
  fix g assume "g \<in> set (named_groups st name)"
  then obtain gn where "(g, gn) \<in> set st" "names_group name (shape gn)"
    by (auto simp: named_groups_iff)
  then show "g \<in> set (capturing_groups st)"
    unfolding capturing_groups_iff names_group_iff by (auto simp: is_CapturingGroup_def)
qed

lemma pick_in: "pick m r g gs \<in> set (g # gs)"
proof -
  have "foldl (\<lambda>held h. if scoping m r held h then h else held) g gs \<in> set (g # gs)"
  proof (induction gs arbitrary: g)
    case Nil
    show ?case by simp
  next
    case (Cons h gs)
    show ?case
      using Cons [of h] Cons [of g] by auto
  qed
  then show ?thesis by (simp add: pick_def)
qed

lemma target_in_groups:
  assumes "target m st r ref = Some g"
  shows "g \<in> set (capturing_groups st)"
proof (cases ref)
  case (Inl k)
  with assms show ?thesis
    by (auto simp: target_def split: if_splits)
next
  case (Inr name)
  have "g \<in> set (named_groups st name)"
  proof (cases "named_groups st name")
    case Nil
    with assms Inr show ?thesis by (simp add: target_def)
  next
    case (Cons c cs)
    with assms Inr have "g = pick m r c cs" by (simp add: target_def)
    with pick_in [of m r c cs] Cons show ?thesis by simp
  qed
  with named_groups_subset [of st name] show ?thesis by blast
qed

lemma points_to_iff:
  "points_to m st r n g \<longleftrightarrow>
     (\<exists>ref res. shape n = Backreference ref res \<and> target m st r ref = g)"
  by (cases "shape n") (auto simp: points_to_def)

lemma dangling_Nil:
  assumes "dangling m st = []" and "(r, n) \<in> set st" and "shape n = Backreference ref res"
  shows "\<exists>g. target m st r ref = Some g"
proof -
  from assms(1,2) have "\<not> points_to m st r n None"
    unfolding dangling_def filter_empty_conv by blast
  with assms(3) show ?thesis by (auto simp: points_to_iff)
qed

lemma referrers_iff:
  "r \<in> set (referrers m st g) \<longleftrightarrow>
     (\<exists>n ref res. (r, n) \<in> set st \<and> shape n = Backreference ref res \<and> target m st r ref = Some g)"
proof
  assume "r \<in> set (referrers m st g)"
  then obtain n where "(r, n) \<in> set st" "points_to m st r n (Some g)"
    by (auto simp: referrers_def)
  then show "\<exists>n ref res. (r, n) \<in> set st \<and> shape n = Backreference ref res
      \<and> target m st r ref = Some g"
    unfolding points_to_iff by blast
next
  assume "\<exists>n ref res. (r, n) \<in> set st \<and> shape n = Backreference ref res
      \<and> target m st r ref = Some g"
  then obtain n where "(r, n) \<in> set st" "points_to m st r n (Some g)"
    by (auto simp: points_to_iff)
  then have "(r, n) \<in> set (filter (\<lambda>(r, n). points_to m st r n (Some g)) st)" by simp
  then have "fst (r, n) \<in> fst ` set (filter (\<lambda>(r, n). points_to m st r n (Some g)) st)"
    by (rule imageI)
  then show "r \<in> set (referrers m st g)" by (simp add: referrers_def)
qed

lemma link_Backreference:
  "shape (link m st a n) = Backreference ref res \<longleftrightarrow>
     (\<exists>old. shape n = Backreference ref old) \<and> res = target m st a ref"
  by (cases "shape n") (auto simp: link_shape)

lemma link_CapturingGroup:
  "shape (link m st a n) = CapturingGroup name alts refs \<longleftrightarrow>
     (\<exists>old. shape n = CapturingGroup name alts old) \<and> refs = referrers m st a"
  by (cases "shape n") (auto simp: link_shape)

lemma construct_inner:
  assumes "(a, n) \<in> set (construct lit)" and "is_Backreference (shape n) \<or> is_CapturingGroup (shape n)"
  shows "descends (construct lit) a [0]"
proof (cases lit)
  case (Literal s p fs f1 f2 f3 f4 f5 f6 f7 f8)
  from assms have "(a, n) \<in> set (attach (Some []) [0] p)"
    unfolding Literal construct_entries by (auto simp: discriminants)
  moreover have "set (attach (Some []) [0] p) \<subseteq> set (construct lit)"
    by (auto simp: Literal)
  ultimately show ?thesis
    using attach_descends [OF construct_distinct] by blast
qed

lemma built_pattern:
  assumes "build m lit = Inr st"
  shows "node_at st is_Pattern [0]"
proof (cases lit)
  case (Literal s p fs f1 f2 f3 f4 f5 f6 f7 f8)
  let ?c = "construct lit"
  have "([], \<lparr>parent = None, start = fst s, end' = fst (snd s), raw = snd (snd s),
                 shape = RegExpLiteral [0] [1]\<rparr>) \<in> set ?c"
    by (simp add: Literal)
  from built_checked(2) [OF assms this] have "node_at ?c is_Pattern [0]"
    by (simp add: structure_ok_def)
  then show ?thesis
    by (auto simp: node_at_def built_lookup [OF assms] link_kind split: option.splits)
qed

lemma target_None_iff: "target m st r ref = None \<longleftrightarrow> matches_no_group st ref"
proof (cases ref)
  case (Inl k)
  then show ?thesis by (auto simp: target_def matches_no_group_def)
next
  case (Inr name)
  have "named_groups st name = [] \<longleftrightarrow> \<not> list_ex (\<lambda>(a, n). names_group name (shape n)) st"
    by (simp add: named_groups_def filter_empty_conv list_ex_iff)
  moreover have "target m st r (Inr name) = None \<longleftrightarrow> named_groups st name = []"
    by (simp add: target_def split: list.split)
  ultimately show ?thesis
    by (simp add: Inr matches_no_group_def)
qed

lemma points_to_None_iff:
  "points_to m st r n None \<longleftrightarrow>
     (\<exists>ref res. shape n = Backreference ref res \<and> matches_no_group st ref)"
  by (simp add: points_to_iff target_None_iff)

lemma resolved_links:
  assumes "build m lit = Inr st"
    and "(a, n) \<in> set st"
  shows "(\<forall>ref resolved. shape n = Backreference ref resolved \<longrightarrow>
            (\<exists>g gn name alternatives references p.
               resolved = Some g \<and> map_of st g = Some gn
               \<and> shape gn = CapturingGroup name alternatives references
               \<and> a \<in> set references
               \<and> node_at st is_Pattern p \<and> descends st a p \<and> descends st g p))
       \<and> (\<forall>name alternatives references. shape n = CapturingGroup name alternatives references \<longrightarrow>
            (\<forall>r \<in> set references. \<exists>rn ref.
               map_of st r = Some rn \<and> shape rn = Backreference ref (Some a)))"
proof (intro conjI allI impI ballI)
  let ?c = "construct lit"
  from assms obtain n0 where n0: "(a, n0) \<in> set ?c" "n = link m ?c a n0"
    by (auto simp: built_entries)
  note dist = construct_distinct [of lit]
  {
    fix ref resolved assume "shape n = Backreference ref resolved"
    with n0(2) obtain old where old: "shape n0 = Backreference ref old"
      and res: "resolved = target m ?c a ref"
      by (auto simp: link_Backreference)
    from dangling_Nil [OF buildD(2) [OF assms(1)] n0(1) old]
    obtain g where g: "target m ?c a ref = Some g" by blast
    from target_in_groups [OF g]
    obtain gn0 where gn0: "(g, gn0) \<in> set ?c" "is_CapturingGroup (shape gn0)"
      by (auto simp: capturing_groups_iff)
    then obtain name alts old_refs where sh: "shape gn0 = CapturingGroup name alts old_refs"
      by (auto simp: is_CapturingGroup_def split: shape.splits)
    have "map_of st g = Some (link m ?c g gn0)"
      using gn0(1) dist by (simp add: built_lookup [OF assms(1)] map_of_is_SomeI)
    moreover have "shape (link m ?c g gn0) = CapturingGroup name alts (referrers m ?c g)"
      using sh by (simp add: link_CapturingGroup)
    moreover have "a \<in> set (referrers m ?c g)"
      using n0(1) old g by (auto simp: referrers_iff)
    moreover have "descends st a [0]"
      using construct_inner [OF n0(1)] old descends_built [OF assms(1)]
      by (simp add: is_Backreference_def)
    moreover have "descends st g [0]"
      using construct_inner [OF gn0(1)] gn0(2) descends_built [OF assms(1)] by simp
    ultimately show "\<exists>g gn name alternatives references p.
               resolved = Some g \<and> map_of st g = Some gn
               \<and> shape gn = CapturingGroup name alternatives references
               \<and> a \<in> set references
               \<and> node_at st is_Pattern p \<and> descends st a p \<and> descends st g p"
      using res g built_pattern [OF assms(1)] by blast
  next
    fix name alternatives references r
    assume "shape n = CapturingGroup name alternatives references" and r: "r \<in> set references"
    with n0(2) have "references = referrers m ?c a"
      by (auto simp: link_CapturingGroup)
    with r obtain rn0 ref res where rn0: "(r, rn0) \<in> set ?c" "shape rn0 = Backreference ref res"
      "target m ?c r ref = Some a"
      by (auto simp: referrers_iff)
    have "map_of st r = Some (link m ?c r rn0)"
      using rn0(1) dist by (simp add: built_lookup [OF assms(1)] map_of_is_SomeI)
    moreover have "shape (link m ?c r rn0) = Backreference ref (Some a)"
      using rn0(2,3) by (simp add: link_Backreference)
    ultimately show "\<exists>rn ref. map_of st r = Some rn \<and> shape rn = Backreference ref (Some a)"
      by blast
  }
qed

subsection \<open>A built tree conforms to the declarations\<close>

lemma link_kind_all:
  "is_Alternative (shape (link m st a n)) = is_Alternative (shape n)"
  "is_DisjunctionAlternative (shape (link m st a n)) = is_DisjunctionAlternative (shape n)"
  "is_Group (shape (link m st a n)) = is_Group (shape n)"
  "is_LookaheadAssertion (shape (link m st a n)) = is_LookaheadAssertion (shape n)"
  "is_LookbehindAssertion (shape (link m st a n)) = is_LookbehindAssertion (shape n)"
  "is_LookaroundAssertion (shape (link m st a n)) = is_LookaroundAssertion (shape n)"
  "is_Quantifier (shape (link m st a n)) = is_Quantifier (shape n)"
  "is_CharacterClassRange (shape (link m st a n)) = is_CharacterClassRange (shape n)"
  "is_EdgeAssertion (shape (link m st a n)) = is_EdgeAssertion (shape n)"
  "is_WordBoundaryAssertion (shape (link m st a n)) = is_WordBoundaryAssertion (shape n)"
  "is_BoundaryAssertion (shape (link m st a n)) = is_BoundaryAssertion (shape n)"
  "is_Assertion (shape (link m st a n)) = is_Assertion (shape n)"
  "is_AnyCharacterSet (shape (link m st a n)) = is_AnyCharacterSet (shape n)"
  "is_EscapeCharacterSet (shape (link m st a n)) = is_EscapeCharacterSet (shape n)"
  "is_UnicodePropertyCharacterSet (shape (link m st a n)) = is_UnicodePropertyCharacterSet (shape n)"
  "is_CharacterSet (shape (link m st a n)) = is_CharacterSet (shape n)"
  "is_Character (shape (link m st a n)) = is_Character (shape n)"
  "is_QuantifiableElement (shape (link m st a n)) = is_QuantifiableElement (shape n)"
  "is_Element (shape (link m st a n)) = is_Element (shape n)"
  "is_UnicodeSetsCharacterClassElement (shape (link m st a n))
     = is_UnicodeSetsCharacterClassElement (shape n)"
  "is_ClassSetOperand (shape (link m st a n)) = is_ClassSetOperand (shape n)"
  by (cases "shape n"; simp add: link_shape discriminants)+

lemma node_at_built:
  assumes "build m lit = Inr st"
    and "\<forall>a n. T (shape (link m (construct lit) a n)) = T (shape n)"
  shows "node_at st T = node_at (construct lit) T"
  using assms(2)
  by (intro ext) (simp add: node_at_def built_lookup [OF assms(1)] split: option.splits)

lemma link_shape_if:
  "shape n = RegExpLiteral p f \<Longrightarrow> shape (link m st a n) = RegExpLiteral p f"
  "shape n = Pattern alts \<Longrightarrow> shape (link m st a n) = Pattern alts"
  "shape n = BaseAlternative str els \<Longrightarrow> shape (link m st a n) = BaseAlternative str els"
  "shape n = Group alts \<Longrightarrow> shape (link m st a n) = Group alts"
  "shape n = CapturingGroup name alts old_refs \<Longrightarrow>
     shape (link m st a n) = CapturingGroup name alts (referrers m st a)"
  "shape n = LookaheadAssertion ng alts \<Longrightarrow> shape (link m st a n) = LookaheadAssertion ng alts"
  "shape n = LookbehindAssertion ng alts \<Longrightarrow> shape (link m st a n) = LookbehindAssertion ng alts"
  "shape n = Quantifier mn mx gr el \<Longrightarrow> shape (link m st a n) = Quantifier mn mx gr el"
  "shape n = BaseCharacterClass u ng els \<Longrightarrow> shape (link m st a n) = BaseCharacterClass u ng els"
  "shape n = CharacterClassRange lo hi \<Longrightarrow> shape (link m st a n) = CharacterClassRange lo hi"
  "shape n = EdgeAssertion ek \<Longrightarrow> shape (link m st a n) = EdgeAssertion ek"
  "shape n = WordBoundaryAssertion ng \<Longrightarrow> shape (link m st a n) = WordBoundaryAssertion ng"
  "shape n = AnyCharacterSet \<Longrightarrow> shape (link m st a n) = AnyCharacterSet"
  "shape n = EscapeCharacterSet sk ng \<Longrightarrow> shape (link m st a n) = EscapeCharacterSet sk ng"
  "shape n = BaseUnicodePropertyCharacterSet strs key val ng \<Longrightarrow>
     shape (link m st a n) = BaseUnicodePropertyCharacterSet strs key val ng"
  "shape n = ExpressionCharacterClass ng ex \<Longrightarrow> shape (link m st a n) = ExpressionCharacterClass ng ex"
  "shape n = ClassIntersection l r \<Longrightarrow> shape (link m st a n) = ClassIntersection l r"
  "shape n = ClassSubtraction l r \<Longrightarrow> shape (link m st a n) = ClassSubtraction l r"
  "shape n = ClassStringDisjunction alts \<Longrightarrow> shape (link m st a n) = ClassStringDisjunction alts"
  "shape n = Character v \<Longrightarrow> shape (link m st a n) = Character v"
  "shape n = Backreference ref old \<Longrightarrow>
     shape (link m st a n) = Backreference ref (target m st a ref)"
  "shape n = Flags f1 f2 f3 f4 f5 f6 f7 f8 \<Longrightarrow> shape (link m st a n) = Flags f1 f2 f3 f4 f5 f6 f7 f8"
  by (simp_all add: link_shape)

lemma structure_ok_built:
  assumes b: "build m lit = Inr st" and ok: "structure_ok (construct lit) n"
  shows "structure_ok st (link m (construct lit) a n)"
proof -
  note nb = node_at_built [OF b]
  show ?thesis
    using ok
    by (cases "shape n")
       (simp_all add: structure_ok_def parent_is_def parent_null_or_def link_shape_if
          nb link_kind link_kind_all split: option.splits if_splits)
qed

lemma links_ok_built:
  assumes b: "build m lit = Inr st"
    and n: "(a, n) \<in> set st"
  shows "links_ok st n"
proof (cases "shape n")
  case (CapturingGroup name alternatives references)
  have "node_at st is_Backreference r" if "r \<in> set references" for r
    using resolved_links [OF b n] CapturingGroup that
    by (fastforce simp: node_at_def is_Backreference_def)
  then show ?thesis by (simp add: links_ok_def CapturingGroup list_all_iff)
next
  case (Backreference ref resolved)
  from resolved_links [OF b n] Backreference
  obtain g gn name alternatives references where "resolved = Some g" "map_of st g = Some gn"
    "shape gn = CapturingGroup name alternatives references"
    by blast
  then show ?thesis by (simp add: links_ok_def Backreference node_at_def is_CapturingGroup_def)
qed (simp_all add: links_ok_def)

lemma built_well_typed:
  assumes b: "build m lit = Inr st"
  shows "well_typed st"
proof -
  have "conforms st n" if "(a, n) \<in> set st" for a n
  proof -
    from that obtain n0 where n0: "(a, n0) \<in> set (construct lit)" "n = link m (construct lit) a n0"
      using b by (auto simp: built_entries)
    from structure_ok_built [OF b built_checked(2) [OF b n0(1)]] links_ok_built [OF b that]
    show ?thesis by (simp add: conforms_def n0(2))
  qed
  then show ?thesis by (auto simp: well_typed_def list_all_iff)
qed

section \<open>The claims on built trees\<close>

lemma build_A: "build classic lit_A = Inr tree_A"
  by code_simp

lemma build_B: "build classic lit_B = Inr tree_B"
  by code_simp

lemma build_C: "build classic lit_C = Inl (UnresolvedReference (1, 12))"
  by code_simp

lemma build_D: "build classic lit_E = Inl (UnsupportedConstruct (1, 7))"
  by code_simp

lemma build_E: "build sets_mode lit_E = Inr tree_E"
  by code_simp

lemma build_R: "build classic lit_R = Inr tree_R"
  by code_simp

lemma build_broken: "build classic lit_broken = Inl (MalformedRange (1, 7))"
  by code_simp

lemma build_N: "build scoped lit_N = Inr tree_N"
  by code_simp

lemma scoping_rules_differ:
  "target classic (construct lit_N) [0, 1, 1] (Inr ''n'') = Some [0, 0, 0]"
  "target scoped (construct lit_N) [0, 1, 1] (Inr ''n'') = Some [0, 1, 0]"
  by code_simp+

text \<open>
  Claim C1. In a tree the builder returns, every \<^verbatim>\<open>Backreference\<close> has a \<^verbatim>\<open>resolved\<close>
  field that is set and is the address of a \<^verbatim>\<open>CapturingGroup\<close> of the same tree; the
  reference and the group descend from the same \<^verbatim>\<open>Pattern\<close>, and the reference is in
  the \<^verbatim>\<open>references\<close> of the group. Every entry of the \<^verbatim>\<open>references\<close> of a
  \<^verbatim>\<open>CapturingGroup\<close> is a \<^verbatim>\<open>Backreference\<close> whose \<^verbatim>\<open>resolved\<close> is that very group. This
  holds under every mode, whatever its scoping rule.
\<close>

theorem resolution_total_and_consistent:
  assumes "build m lit = Inr st"
    and "(a, n) \<in> set st"
  shows "(\<forall>ref resolved. shape n = Backreference ref resolved \<longrightarrow>
            (\<exists>g gn name alternatives references p.
               resolved = Some g \<and> map_of st g = Some gn
               \<and> shape gn = CapturingGroup name alternatives references
               \<and> a \<in> set references
               \<and> node_at st is_Pattern p \<and> descends st a p \<and> descends st g p))
       \<and> (\<forall>name alternatives references. shape n = CapturingGroup name alternatives references \<longrightarrow>
            (\<forall>r \<in> set references. \<exists>rn ref.
               map_of st r = Some rn \<and> shape rn = Backreference ref (Some a)))"
  using resolved_links [OF assms] .

theorem resolution_total_and_consistent_witness:
  "build scoped lit_N = Inr tree_N
   \<and> map_of tree_N [0, 1, 1]
       = Some \<lparr>parent = Some [0, 1], start = 21, end' = 26, raw = CHR 0x5C # ''k<n>'',
               shape = Backreference (Inr ''n'') (Some [0, 1, 0])\<rparr>
   \<and> (\<exists>gn name alternatives references p.
          map_of tree_N [0, 1, 0] = Some gn
          \<and> shape gn = CapturingGroup name alternatives references
          \<and> [0, 1, 1] \<in> set references
          \<and> node_at tree_N is_Pattern p \<and> descends tree_N [0, 1, 1] p \<and> descends tree_N [0, 1, 0] p)
   \<and> map_of tree_N [0, 1, 0]
       = Some \<lparr>parent = Some [0, 1], start = 14, end' = 21, raw = ''(?<n>b)'',
               shape = CapturingGroup (Some ''n'') [[0, 1, 0, 0]] [[0, 1, 1]]\<rparr>
   \<and> (\<exists>rn ref. map_of tree_N [0, 1, 1] = Some rn \<and> shape rn = Backreference ref (Some [0, 1, 0]))"
proof -
  let ?r = "\<lparr>parent = Some [0, 1], start = 21, end' = 26, raw = CHR 0x5C # ''k<n>'',
               shape = Backreference (Inr ''n'') (Some [0, 1, 0])\<rparr>"
  let ?g = "\<lparr>parent = Some [0, 1], start = 14, end' = 21, raw = ''(?<n>b)'',
               shape = CapturingGroup (Some ''n'') [[0, 1, 0, 0]] [[0, 1, 1]]\<rparr>"
  have r: "([0, 1, 1], ?r) \<in> set tree_N" and g: "([0, 1, 0], ?g) \<in> set tree_N"
    by (simp_all add: tree_N_def)
  have look: "map_of tree_N [0, 1, 1] = Some ?r" "map_of tree_N [0, 1, 0] = Some ?g"
    by (simp_all add: tree_N_def)
  from resolution_total_and_consistent [OF build_N r]
  have "\<exists>gn name alternatives references p.
          map_of tree_N [0, 1, 0] = Some gn
          \<and> shape gn = CapturingGroup name alternatives references
          \<and> [0, 1, 1] \<in> set references
          \<and> node_at tree_N is_Pattern p \<and> descends tree_N [0, 1, 1] p \<and> descends tree_N [0, 1, 0] p"
    by simp
  moreover from resolution_total_and_consistent [OF build_N g]
  have "\<exists>rn ref. map_of tree_N [0, 1, 1] = Some rn \<and> shape rn = Backreference ref (Some [0, 1, 0])"
    by simp
  ultimately show ?thesis
    using build_N look by simp
qed

text \<open>
  Claim C4. In a tree the builder returns, the flags \<^verbatim>\<open>unicode\<close> and \<^verbatim>\<open>unicodeSets\<close> are
  not both true; the tree does not hold both a \<^verbatim>\<open>ClassRangesCharacterClass\<close> and a
  construct that is legal only in Unicode-sets mode (a \<^verbatim>\<open>ClassStringDisjunction\<close>, an
  \<^verbatim>\<open>ExpressionCharacterClass\<close>, a \<^verbatim>\<open>UnicodeSetsCharacterClass\<close>, a string alternative, a
  property of strings, a class set operation); and every element of a
  \<^verbatim>\<open>ClassRangesCharacterClass\<close> is a \<^verbatim>\<open>Character\<close>, a \<^verbatim>\<open>CharacterClassRange\<close>, an
  \<^verbatim>\<open>EscapeCharacterSet\<close> or a \<^verbatim>\<open>UnicodePropertyCharacterSet\<close> that is not of strings, never
  a string disjunction, an expression class or a nested class.
\<close>

theorem built_modes_exclusive:
  assumes "build m lit = Inr st" and "(a, n) \<in> set st" and "(b, k) \<in> set st"
  shows "(\<forall>dotAll global hasIndices ignoreCase multiline sticky unicode uSets.
            shape n = Flags dotAll global hasIndices ignoreCase multiline sticky unicode uSets
              \<longrightarrow> \<not> (unicode \<and> uSets))
       \<and> \<not> (is_ClassRangesCharacterClass (shape n) \<and> sets_only (shape k))
       \<and> (\<forall>negate elements. shape n = BaseCharacterClass False negate elements \<longrightarrow>
             (\<forall>e \<in> set elements. \<exists>x. map_of st e = Some x
                \<and> (is_Character (shape x) \<or> is_CharacterClassRange (shape x)
                     \<or> is_EscapeCharacterSet (shape x) \<or> is_UnicodePropertyCharacterSet (shape x))
                \<and> \<not> is_StringsUnicodePropertyCharacterSet (shape x)
                \<and> \<not> is_ClassStringDisjunction (shape x)
                \<and> \<not> is_ExpressionCharacterClass (shape x)
                \<and> \<not> is_CharacterClass (shape x)))"
proof -
  let ?c = "construct lit"
  from assms obtain n0 where n0: "(a, n0) \<in> set ?c" "n = link m ?c a n0"
    by (auto simp: built_entries)
  from assms obtain k0 where k0: "(b, k0) \<in> set ?c" "k = link m ?c b k0"
    by (auto simp: built_entries)
  note okn = built_checked [OF assms(1) n0(1)]
  note okk = built_checked [OF assms(1) k0(1)]
  have sets_k: "sets_only (shape k) = sets_only (shape k0)"
    by (simp add: sets_only_def k0(2) link_kind)
  have flags: "\<not> (unicode \<and> uSets)"
    if "shape n = Flags dotAll global hasIndices ignoreCase multiline sticky unicode uSets"
    for dotAll global hasIndices ignoreCase multiline sticky unicode uSets
    using that okn(1) n0(2) by (simp add: gate_def)
  have excl: "\<not> (is_ClassRangesCharacterClass (shape n) \<and> sets_only (shape k))"
    using gate_class_ranges [OF okn(1)] gate_sets_only [OF okk(1)]
    by (auto simp: sets_k n0(2) link_kind)
  have elems: "\<exists>x. map_of st e = Some x
                \<and> (is_Character (shape x) \<or> is_CharacterClassRange (shape x)
                     \<or> is_EscapeCharacterSet (shape x) \<or> is_UnicodePropertyCharacterSet (shape x))
                \<and> \<not> is_StringsUnicodePropertyCharacterSet (shape x)
                \<and> \<not> is_ClassStringDisjunction (shape x)
                \<and> \<not> is_ExpressionCharacterClass (shape x)
                \<and> \<not> is_CharacterClass (shape x)"
    if sh: "shape n = BaseCharacterClass False negate elements" and e: "e \<in> set elements"
    for negate elements e
  proof -
    from sh n0(2) have sh0: "shape n0 = BaseCharacterClass False negate elements" by simp
    with okn(1) have nosets: "\<not> unicodeSets m" by (simp add: gate_def)
    from sh0 okn(2) e have "node_at ?c is_ClassRangesCharacterClassElement e"
      by (simp add: structure_ok_def list_all_iff)
    then obtain x0 where x0: "map_of ?c e = Some x0" "is_ClassRangesCharacterClassElement (shape x0)"
      by (auto dest: node_atD)
    from x0(1) have "(e, x0) \<in> set ?c" by (rule map_of_SomeD)
    from built_checked(1) [OF assms(1) this] nosets
    have "\<not> sets_only (shape x0)" by (auto dest: gate_sets_only)
    then have nostr: "\<not> is_StringsUnicodePropertyCharacterSet (shape x0)"
      by (simp add: sets_only_def)
    let ?x = "link m ?c e x0"
    have "map_of st e = Some ?x" by (simp add: built_lookup [OF assms(1)] x0(1))
    moreover have "is_ClassRangesCharacterClassElement (shape ?x)" using x0(2) by (simp add: link_kind)
    moreover have "\<not> is_StringsUnicodePropertyCharacterSet (shape ?x)" using nostr by (simp add: link_kind)
    ultimately show ?thesis
      using ranges_element_plain [of "shape ?x"]
      by (auto simp: is_ClassRangesCharacterClassElement_def)
  qed
  from flags excl elems show ?thesis by blast
qed

theorem built_modes_exclusive_witness:
  "build classic lit_R = Inr tree_R
   \<and> map_of tree_R [1]
       = Some \<lparr>parent = Some [], start = 11, end' = 12, raw = ''u'',
               shape = Flags False False False False False False True False\<rparr>
   \<and> \<not> (True \<and> False)
   \<and> map_of tree_R [0, 0, 0, 0]
       = Some \<lparr>parent = Some [0, 0, 0], start = 1, end' = 6, raw = ''[a-b]'',
               shape = BaseCharacterClass False False [[0, 0, 0, 0, 0]]\<rparr>
   \<and> is_ClassRangesCharacterClass (BaseCharacterClass False False [[0, 0, 0, 0, 0]])
   \<and> \<not> sets_only (CharacterClassRange [0, 0, 0, 0, 0, 0] [0, 0, 0, 0, 0, 1])
   \<and> (\<exists>x. map_of tree_R [0, 0, 0, 0, 0] = Some x
          \<and> (is_Character (shape x) \<or> is_CharacterClassRange (shape x)
               \<or> is_EscapeCharacterSet (shape x) \<or> is_UnicodePropertyCharacterSet (shape x))
          \<and> \<not> is_StringsUnicodePropertyCharacterSet (shape x)
          \<and> \<not> is_ClassStringDisjunction (shape x)
          \<and> \<not> is_ExpressionCharacterClass (shape x)
          \<and> \<not> is_CharacterClass (shape x))
   \<and> build classic lit_E = Inl (UnsupportedConstruct (1, 7))"
proof -
  let ?f = "\<lparr>parent = Some [], start = 11, end' = 12, raw = ''u'',
               shape = Flags False False False False False False True False\<rparr>"
  let ?c = "\<lparr>parent = Some [0, 0, 0], start = 1, end' = 6, raw = ''[a-b]'',
               shape = BaseCharacterClass False False [[0, 0, 0, 0, 0]]\<rparr>"
  let ?k = "\<lparr>parent = Some [0, 0, 0, 0], start = 2, end' = 5, raw = ''a-b'',
               shape = CharacterClassRange [0, 0, 0, 0, 0, 0] [0, 0, 0, 0, 0, 1]\<rparr>"
  have f: "([1], ?f) \<in> set tree_R" and c: "([0, 0, 0, 0], ?c) \<in> set tree_R"
    and k: "([0, 0, 0, 0, 0], ?k) \<in> set tree_R"
    by (simp_all add: tree_R_def)
  have look: "map_of tree_R [1] = Some ?f" "map_of tree_R [0, 0, 0, 0] = Some ?c"
    by (simp_all add: tree_R_def)
  have ranges: "is_ClassRangesCharacterClass (BaseCharacterClass False False [[0, 0, 0, 0, 0]])"
    by (simp add: is_ClassRangesCharacterClass_def)
  from built_modes_exclusive [OF build_R f k]
  have flags: "\<not> (True \<and> False)" by simp
  note t = built_modes_exclusive [OF build_R c k]
  from t ranges
  have excl: "\<not> sets_only (CharacterClassRange [0, 0, 0, 0, 0, 0] [0, 0, 0, 0, 0, 1])"
    by simp
  from t [THEN conjunct2, THEN conjunct2, rule_format, of False "[[0, 0, 0, 0, 0]]" "[0, 0, 0, 0, 0]"]
  have elems: "\<exists>x. map_of tree_R [0, 0, 0, 0, 0] = Some x
          \<and> (is_Character (shape x) \<or> is_CharacterClassRange (shape x)
               \<or> is_EscapeCharacterSet (shape x) \<or> is_UnicodePropertyCharacterSet (shape x))
          \<and> \<not> is_StringsUnicodePropertyCharacterSet (shape x)
          \<and> \<not> is_ClassStringDisjunction (shape x)
          \<and> \<not> is_ExpressionCharacterClass (shape x)
          \<and> \<not> is_CharacterClass (shape x)"
    by simp
  from build_R look flags ranges excl elems build_D show ?thesis
    by (intro conjI)
qed

text \<open>
  Claim C5. In a tree the builder returns, every \<^verbatim>\<open>Quantifier\<close> has
  \<^verbatim>\<open>0 <= min <= max\<close>, where \<^verbatim>\<open>max\<close> may be infinite, and every \<^verbatim>\<open>CharacterClassRange\<close> has
  two \<^verbatim>\<open>Character\<close> bounds with \<^verbatim>\<open>min.value <= max.value\<close>.
\<close>

theorem built_ranges_ordered:
  assumes "build m lit = Inr st" and "(a, n) \<in> set st"
  shows "(\<forall>mn mx greedy element. shape n = Quantifier mn mx greedy element \<longrightarrow> 0 \<le> mn \<and> enat mn \<le> mx)
       \<and> (\<forall>lo hi. shape n = CharacterClassRange lo hi \<longrightarrow>
             (\<exists>l h x y. map_of st lo = Some l \<and> shape l = Character x
                       \<and> map_of st hi = Some h \<and> shape h = Character y \<and> x \<le> y))"
proof -
  let ?c = "construct lit"
  from assms obtain k where k: "(a, k) \<in> set ?c" "n = link m ?c a k"
    by (auto simp: built_entries)
  note ok = built_checked [OF assms(1) k(1)]
  show ?thesis
  proof (intro conjI allI impI)
    fix mn mx greedy element assume "shape n = Quantifier mn mx greedy element"
    with k ok(3) show "enat mn \<le> mx" by (simp add: range_ok_def)
  next
    fix lo hi assume "shape n = CharacterClassRange lo hi"
    with k have sk: "shape k = CharacterClassRange lo hi" by simp
    with ok(2) have "node_at ?c is_Character lo" "node_at ?c is_Character hi"
      by (simp_all add: structure_ok_def)
    then obtain l x h y where
      l: "map_of ?c lo = Some l" "shape l = Character x" "code_point ?c lo = Some x" and
      h: "map_of ?c hi = Some h" "shape h = Character y" "code_point ?c hi = Some y"
      by (blast dest: code_point_Some)
    from ok(3) sk l(3) h(3) have "x \<le> y" by (simp add: range_ok_def)
    with l h show "\<exists>l h x y. map_of st lo = Some l \<and> shape l = Character x
                       \<and> map_of st hi = Some h \<and> shape h = Character y \<and> x \<le> y"
      by (simp add: built_lookup [OF assms(1)])
  qed simp
qed

theorem built_ranges_ordered_witness:
  "build classic lit_R = Inr tree_R
   \<and> map_of tree_R [0, 0, 0]
       = Some \<lparr>parent = Some [0, 0], start = 1, end' = 10, raw = ''[a-b]{2,}'',
               shape = Quantifier 2 \<infinity> True [0, 0, 0, 0]\<rparr>
   \<and> (0 :: nat) \<le> 2 \<and> enat 2 \<le> \<infinity>
   \<and> map_of tree_R [0, 0, 0, 0, 0]
       = Some \<lparr>parent = Some [0, 0, 0, 0], start = 2, end' = 5, raw = ''a-b'',
               shape = CharacterClassRange [0, 0, 0, 0, 0, 0] [0, 0, 0, 0, 0, 1]\<rparr>
   \<and> (\<exists>l h x y. map_of tree_R [0, 0, 0, 0, 0, 0] = Some l \<and> shape l = Character x
          \<and> map_of tree_R [0, 0, 0, 0, 0, 1] = Some h \<and> shape h = Character y \<and> x \<le> y)
   \<and> build classic lit_broken = Inl (MalformedRange (1, 7))"
proof -
  let ?q = "\<lparr>parent = Some [0, 0], start = 1, end' = 10, raw = ''[a-b]{2,}'',
               shape = Quantifier 2 \<infinity> True [0, 0, 0, 0]\<rparr>"
  let ?k = "\<lparr>parent = Some [0, 0, 0, 0], start = 2, end' = 5, raw = ''a-b'',
               shape = CharacterClassRange [0, 0, 0, 0, 0, 0] [0, 0, 0, 0, 0, 1]\<rparr>"
  have q: "([0, 0, 0], ?q) \<in> set tree_R" and k: "([0, 0, 0, 0, 0], ?k) \<in> set tree_R"
    by (simp_all add: tree_R_def)
  have look: "map_of tree_R [0, 0, 0] = Some ?q" "map_of tree_R [0, 0, 0, 0, 0] = Some ?k"
    by (simp_all add: tree_R_def)
  from built_ranges_ordered [OF build_R q]
  have bounds: "(0 :: nat) \<le> 2 \<and> enat 2 \<le> \<infinity>" by simp
  from built_ranges_ordered [OF build_R k]
  have range: "\<exists>l h x y. map_of tree_R [0, 0, 0, 0, 0, 0] = Some l \<and> shape l = Character x
          \<and> map_of tree_R [0, 0, 0, 0, 0, 1] = Some h \<and> shape h = Character y \<and> x \<le> y"
    by simp
  from build_R look bounds range build_broken show ?thesis
    by (intro conjI) simp_all
qed

text \<open>
  Claim C7. In a tree the builder returns, the \<^verbatim>\<open>parent\<close> is null for the
  \<^verbatim>\<open>RegExpLiteral\<close> root and for no other node: a node has a null \<^verbatim>\<open>parent\<close> exactly when
  it is a \<^verbatim>\<open>RegExpLiteral\<close>, and the only \<^verbatim>\<open>RegExpLiteral\<close> is the root. The \<^verbatim>\<open>Pattern\<close> and
  the \<^verbatim>\<open>Flags\<close> of the root have the root as their \<^verbatim>\<open>parent\<close>.
\<close>

theorem parent_null_only_at_root:
  assumes "build m lit = Inr bt"
    and "(b, k) \<in> set bt"
  shows "(parent k = None \<longleftrightarrow> is_RegExpLiteral (shape k))
       \<and> (is_RegExpLiteral (shape k) \<longleftrightarrow> b = [])
       \<and> (\<exists>root p f pn fn.
            map_of bt [] = Some root \<and> shape root = RegExpLiteral p f \<and> parent root = None
            \<and> map_of bt p = Some pn \<and> is_Pattern (shape pn) \<and> parent pn = Some []
            \<and> map_of bt f = Some fn \<and> is_Flags (shape fn) \<and> parent fn = Some [])"
proof (intro conjI)
  from assms obtain k0 where k0: "(b, k0) \<in> set (construct lit)" "k = link m (construct lit) b k0"
    by (auto simp: built_entries)
  from construct_root [OF k0(1)]
  show "(parent k = None) = is_RegExpLiteral (shape k)" "is_RegExpLiteral (shape k) = (b = [])"
    by (simp_all add: k0(2) link_kind)
  from built_root [OF assms(1)]
  show "\<exists>root p f pn fn.
           map_of bt [] = Some root \<and> shape root = RegExpLiteral p f \<and> parent root = None
           \<and> map_of bt p = Some pn \<and> is_Pattern (shape pn) \<and> parent pn = Some []
           \<and> map_of bt f = Some fn \<and> is_Flags (shape fn) \<and> parent fn = Some []" .
qed

theorem parent_null_only_at_root_witness:
  "build classic lit_A = Inr tree_A
   \<and> map_of tree_A [0]
       = Some \<lparr>parent = Some [], start = 1, end' = 6, raw = ''a{2,}'', shape = Pattern [[0, 0]]\<rparr>
   \<and> \<not> is_RegExpLiteral (Pattern [[0, 0]])
   \<and> (\<exists>root p f pn fn.
          map_of tree_A [] = Some root \<and> shape root = RegExpLiteral p f \<and> parent root = None
          \<and> map_of tree_A p = Some pn \<and> is_Pattern (shape pn) \<and> parent pn = Some []
          \<and> map_of tree_A f = Some fn \<and> is_Flags (shape fn) \<and> parent fn = Some [])"
proof -
  let ?p = "\<lparr>parent = Some [], start = 1, end' = 6, raw = ''a{2,}'', shape = Pattern [[0, 0]]\<rparr>"
  have p: "([0], ?p) \<in> set tree_A" and look: "map_of tree_A [0] = Some ?p"
    by (simp_all add: tree_A_def)
  note t = parent_null_only_at_root [OF build_A p]
  from t have "\<not> is_RegExpLiteral (Pattern [[0, 0]])"
    by simp
  moreover from t have "\<exists>root p f pn fn.
          map_of tree_A [] = Some root \<and> shape root = RegExpLiteral p f \<and> parent root = None
          \<and> map_of tree_A p = Some pn \<and> is_Pattern (shape pn) \<and> parent pn = Some []
          \<and> map_of tree_A f = Some fn \<and> is_Flags (shape fn) \<and> parent fn = Some []"
    by simp
  ultimately show ?thesis
    using build_A look by simp
qed

text \<open>
  Claim C8 (as amended). When the pattern holds a backreference whose name or number
  matches no capturing group anywhere in the pattern, the build fails and returns no
  tree; and when the construction itself raises no error, the failure is an
  \<^verbatim>\<open>UnresolvedReference\<close> at the span of the first such reference in source order.
\<close>

theorem unresolved_reference_fails:
  assumes "(r, n) \<in> set (construct lit)"
    and "shape n = Backreference ref res"
    and "matches_no_group (construct lit) ref"
  shows "(\<exists>e. build m lit = Inl e)
       \<and> (first_error m (construct lit) (construct lit) = None \<longrightarrow>
            (\<exists>before r' n' ref' res' after.
               construct lit = before @ (r', n') # after
               \<and> shape n' = Backreference ref' res'
               \<and> matches_no_group (construct lit) ref'
               \<and> (\<forall>(b, k) \<in> set before. \<forall>ref'' res''.
                     shape k = Backreference ref'' res'' \<longrightarrow> \<not> matches_no_group (construct lit) ref'')
               \<and> build m lit = Inl (UnresolvedReference (start n', end' n'))))"
proof -
  let ?c = "construct lit"
  let ?P = "\<lambda>(r, n). points_to m ?c r n None"
  have "points_to m ?c r n None"
    using assms(2,3) by (auto simp: points_to_None_iff)
  with assms(1) have "(r, n) \<in> set (dangling m ?c)"
    by (simp add: dangling_def)
  then obtain d ds where d: "dangling m ?c = d # ds"
    by (cases "dangling m ?c") auto
  obtain r' n' where rn: "d = (r', n')" by (cases d)
  from d obtain before after where split: "?c = before @ d # after"
    and before: "\<forall>u \<in> set before. \<not> ?P u" and here: "?P d"
    unfolding dangling_def filter_eq_Cons_iff by blast
  from here obtain ref' res' where ref': "shape n' = Backreference ref' res'"
    "matches_no_group ?c ref'"
    by (auto simp: rn points_to_None_iff)
  have clean: "\<forall>(b, k) \<in> set before. \<forall>ref'' res''.
      shape k = Backreference ref'' res'' \<longrightarrow> \<not> matches_no_group ?c ref''"
    using before by (auto simp: points_to_None_iff)
  have res: "resolve m ?c = Inl (UnresolvedReference (start n', end' n'))"
    by (simp add: resolve_def d rn)
  have fails: "\<exists>e. build m lit = Inl e"
    by (cases "first_error m ?c ?c") (simp_all add: build_def res)
  have "build m lit = Inl (UnresolvedReference (start n', end' n'))"
    if "first_error m ?c ?c = None"
    using that by (simp add: build_def res)
  with split ref' clean fails show ?thesis
    unfolding rn by blast
qed

theorem unresolved_reference_fails_witness:
  "map_of (construct lit_C) [0, 0, 0]
     = Some \<lparr>parent = Some [0, 0], start = 1, end' = 12, raw = CHR 0x5C # ''k<missing>'',
             shape = Backreference (Inr ''missing'') None\<rparr>
   \<and> matches_no_group (construct lit_C) (Inr ''missing'')
   \<and> first_error classic (construct lit_C) (construct lit_C) = None
   \<and> (\<exists>e. build classic lit_C = Inl e)
   \<and> build classic lit_C = Inl (UnresolvedReference (1, 12))"
proof -
  let ?r = "\<lparr>parent = Some [0, 0], start = 1, end' = 12, raw = CHR 0x5C # ''k<missing>'',
             shape = Backreference (Inr ''missing'') None\<rparr>"
  have look: "map_of (construct lit_C) [0, 0, 0] = Some ?r"
    by code_simp
  then have r: "([0, 0, 0], ?r) \<in> set (construct lit_C)"
    by (rule map_of_SomeD)
  have no: "matches_no_group (construct lit_C) (Inr ''missing'')"
    by code_simp
  have clean: "first_error classic (construct lit_C) (construct lit_C) = None"
    by code_simp
  from unresolved_reference_fails [OF r _ no, of None classic]
  have "\<exists>e. build classic lit_C = Inl e" by simp
  with look no clean build_C show ?thesis by simp
qed

text \<open>
  Claim C8 as stated fails: the construction comes before the resolution, so a
  pattern that also holds a quantifier with its bounds out of order fails with
  \<^verbatim>\<open>MalformedRange\<close>, not with \<^verbatim>\<open>UnresolvedReference\<close>.
\<close>

theorem unresolved_reference_counterexample:
  "map_of (construct lit_broken) [0, 0, 1]
     = Some \<lparr>parent = Some [0, 0], start = 7, end' = 12, raw = CHR 0x5C # ''k<x>'',
             shape = Backreference (Inr ''x'') None\<rparr>
   \<and> matches_no_group (construct lit_broken) (Inr ''x'')
   \<and> build classic lit_broken = Inl (MalformedRange (1, 7))
   \<and> build classic lit_broken \<noteq> Inl (UnresolvedReference (7, 12))"
  by code_simp

end
